(* ===== verification/Prelude.thy ===== *)
theory Prelude
  imports Complex_Main
begin

text \<open>
  The shared base of the development.  It holds the result monad in which every throwing
  operation of the web client is modelled (\<open>Inl\<close> is a thrown error, \<open>Inr\<close> a returned value),
  the JavaScript string type (a list of UTF-16 code units), the generic facts on lists and
  options that several components use, and the locale of guarded state machines from which
  the session and dialog components take their invariant rule.
\<close>

section \<open>Collections of simplification rules\<close>

named_theorems result_simps \<open>unfolding of the result monad\<close>
named_theorems number_simps \<open>evaluation of binary64 numbers\<close>
named_theorems js_simps \<open>evaluation of JavaScript string helpers\<close>

section \<open>Results: returned values and thrown errors\<close>

type_synonym ('e, 'a) result = "'e + 'a"

definition rbind :: "('e, 'a) result \<Rightarrow> ('a \<Rightarrow> ('e, 'b) result) \<Rightarrow> ('e, 'b) result" where
  "rbind m f = (case m of Inl e \<Rightarrow> Inl e | Inr x \<Rightarrow> f x)"

definition is_ok :: "('e, 'a) result \<Rightarrow> bool" where
  "is_ok m = (case m of Inl _ \<Rightarrow> False | Inr _ \<Rightarrow> True)"

lemma rbind_Inl [simp, result_simps]: "rbind (Inl e) f = Inl e"
  by (simp add: rbind_def)

lemma rbind_Inr [simp, result_simps]: "rbind (Inr x) f = f x"
  by (simp add: rbind_def)

lemma is_ok_simps [simp, result_simps]: "is_ok (Inr x)" "\<not> is_ok (Inl e)"
  by (simp_all add: is_ok_def)

lemma is_ok_iff: "is_ok m \<longleftrightarrow> (\<exists>x. m = Inr x)"
  by (cases m) auto

lemma rbind_eq_Inr: "rbind m f = Inr y \<longleftrightarrow> (\<exists>x. m = Inr x \<and> f x = Inr y)"
  by (cases m) auto

lemma rbind_eq_Inl: "rbind m f = Inl e \<longleftrightarrow> m = Inl e \<or> (\<exists>x. m = Inr x \<and> f x = Inl e)"
  by (cases m) auto

lemma rbind_InrE [elim!]:
  assumes "rbind m f = Inr y"
  obtains x where "m = Inr x" "f x = Inr y"
  using assms by (auto simp: rbind_eq_Inr)

lemma rbind_assoc: "rbind (rbind m f) g = rbind m (\<lambda>x. rbind (f x) g)"
  by (cases m) auto

lemma rbind_cong [fundef_cong]:
  assumes "m = m'" and "\<And>x. m' = Inr x \<Longrightarrow> f x = g x"
  shows "rbind m f = rbind m' g"
  using assms by (cases m') auto

text \<open>A loop that maps a throwing function over a list stops at the first error.\<close>

fun rmap :: "('a \<Rightarrow> ('e, 'b) result) \<Rightarrow> 'a list \<Rightarrow> ('e, 'b list) result" where
  "rmap f [] = Inr []"
| "rmap f (x # xs) = rbind (f x) (\<lambda>y. rbind (rmap f xs) (\<lambda>ys. Inr (y # ys)))"

lemma rmap_cong [fundef_cong]:
  assumes "xs = ys" and "\<And>x. x \<in> set ys \<Longrightarrow> f x = g x"
  shows "rmap f xs = rmap g ys"
  using assms(2) unfolding assms(1) by (induction ys) (auto intro!: rbind_cong)

lemma rmap_Inr_iff: "rmap f xs = Inr ys \<longleftrightarrow> list_all2 (\<lambda>x y. f x = Inr y) xs ys"
proof (induction xs arbitrary: ys)
  case Nil
  then show ?case by auto
next
  case (Cons x xs)
  then show ?case by (cases ys) (auto simp: rbind_eq_Inr)
qed

lemma rmap_Inl: "rmap f xs = Inl e \<Longrightarrow> \<exists>x \<in> set xs. f x = Inl e"
  by (induction xs) (auto simp: rbind_eq_Inl)

text \<open>The same loop with a state threaded from left to right.\<close>

fun rmap_st :: "('a \<Rightarrow> 's \<Rightarrow> ('e, 'b \<times> 's) result) \<Rightarrow> 'a list \<Rightarrow> 's \<Rightarrow> ('e, 'b list \<times> 's) result" where
  "rmap_st f [] s = Inr ([], s)"
| "rmap_st f (x # xs) s =
     rbind (f x s) (\<lambda>(y, s1). rbind (rmap_st f xs s1) (\<lambda>(ys, s2). Inr (y # ys, s2)))"

lemma rmap_st_cong [fundef_cong]:
  assumes "xs = ys" and "s = s'" and "\<And>x t. x \<in> set ys \<Longrightarrow> f x t = g x t"
  shows "rmap_st f xs s = rmap_st g ys s'"
  using assms(3) unfolding assms(1,2) by (induction ys arbitrary: s') (auto intro!: rbind_cong)

lemma rmap_st_Inr:
  "rmap_st f xs s = Inr (ys, s') \<Longrightarrow> list_all2 (\<lambda>x y. \<exists>t t'. f x t = Inr (y, t')) xs ys"
  by (induction xs arbitrary: ys s) auto

lemma rmap_st_Inl: "rmap_st f xs s = Inl e \<Longrightarrow> \<exists>x \<in> set xs. \<exists>t. f x t = Inl e"
proof (induction xs arbitrary: s)
  case (Cons x xs)
  then show ?case by (auto simp: rbind_eq_Inl)
qed simp

lemma rmap_st_inv:
  assumes "rmap_st f xs s = Inr (ys, s')" "P s"
    and "\<And>x t y t'. x \<in> set xs \<Longrightarrow> P t \<Longrightarrow> f x t = Inr (y, t') \<Longrightarrow> P t' \<and> Q y"
  shows "P s' \<and> list_all Q ys"
  using assms
proof (induction xs arbitrary: ys s)
  case (Cons x xs)
  from Cons.prems(1) obtain y s1 ys' where y: "f x s = Inr (y, s1)" "rmap_st f xs s1 = Inr (ys', s')" "ys = y # ys'"
    by auto
  with Cons.prems(2,3) have "P s1 \<and> Q y" by (meson list.set_intros(1))
  moreover have "P s' \<and> list_all Q ys'" if "P s1"
    by (rule Cons.IH [OF y(2) that]) (use Cons.prems(3) in \<open>meson list.set_intros(2)\<close>)
  ultimately show ?case using y(3) by simp
qed simp

section \<open>Guarded state machines\<close>

text \<open>
  The contract between a component that keeps state and the properties stated of its runs:
  \<open>step\<close> is one handler call or event, \<open>inv\<close> an invariant every step keeps.
\<close>

fun run_machine :: "('s \<Rightarrow> 'e \<Rightarrow> 's) \<Rightarrow> 's \<Rightarrow> 'e list \<Rightarrow> 's" where
  "run_machine step s [] = s"
| "run_machine step s (e # es) = run_machine step (step s e) es"

lemma run_machine_append:
  "run_machine step s (es @ fs) = run_machine step (run_machine step s es) fs"
  by (induction es arbitrary: s) auto

locale guarded_machine =
  fixes step :: "'s \<Rightarrow> 'e \<Rightarrow> 's"
    and init :: 's
    and inv :: "'s \<Rightarrow> bool"
  assumes inv_init: "inv init"
    and inv_step: "inv s \<Longrightarrow> inv (step s e)"
begin

lemma inv_run_from: "inv s \<Longrightarrow> inv (run_machine step s es)"
  by (induction es arbitrary: s) (auto intro: inv_step)

lemma inv_run: "inv (run_machine step init es)"
  by (rule inv_run_from [OF inv_init])

end

end
