(* ===== verification/JsNumber.thy ===== *)
theory JsNumber
  imports Prelude
begin

text \<open>
  JavaScript numbers: IEEE 754 binary64 values with round-to-nearest-even, as ECMAScript
  prescribes them.  A finite value is held as the rational it denotes; the two zeros are kept
  apart.  Every arithmetic operator is the exact rational operation followed by one rounding.
  The theorems show that rounding only yields representable values, that it is the identity on
  representable values, and hence that integer arithmetic is exact up to \<open>2 ^ 53\<close>.
\<close>

section \<open>Values and rounding\<close>

datatype number = NaN | PInf | NInf | NZero | Fin rat

text \<open>The binade of a positive rational: the exponent \<open>e\<close> with \<open>2 ^ e \<le> q < 2 ^ (e + 1)\<close>.\<close>

function binade :: "rat \<Rightarrow> int" where
  "binade q = (if q \<le> 0 then 0 else if 2 \<le> q then binade (q / 2) + 1
     else if q < 1 then binade (q * 2) - 1 else 0)"
  by pat_completeness auto
termination
proof (relation "measure (\<lambda>q. if q \<ge> 1 then nat \<lfloor>q\<rfloor> else nat \<lceil>1 / q\<rceil> + 1)")
  fix q :: rat
  assume q: "\<not> q \<le> 0" "2 \<le> q"
  have "\<lfloor>q / 2\<rfloor> < \<lfloor>q\<rfloor>"
  proof -
    have "of_int (\<lfloor>q / 2\<rfloor> + 1) \<le> q"
      using q of_int_floor_le [of "q / 2"] by linarith
    then have "\<lfloor>q / 2\<rfloor> + 1 \<le> \<lfloor>q\<rfloor>" by (simp add: le_floor_iff)
    then show ?thesis by simp
  qed
  then show "(q / 2, q) \<in> measure (\<lambda>q. if q \<ge> 1 then nat \<lfloor>q\<rfloor> else nat \<lceil>1 / q\<rceil> + 1)"
    using q by auto
next
  fix q :: rat
  assume q: "\<not> q \<le> 0" "\<not> 2 \<le> q" "q < 1"
  show "(q * 2, q) \<in> measure (\<lambda>q. if q \<ge> 1 then nat \<lfloor>q\<rfloor> else nat \<lceil>1 / q\<rceil> + 1)"
  proof (cases "q * 2 \<ge> 1")
    case True
    have "\<lfloor>q * 2\<rfloor> \<le> 1" using q by (simp add: floor_le_iff)
    moreover have "1 \<le> \<lceil>1 / q\<rceil>" using q by (simp add: one_le_ceiling)
    ultimately have "nat \<lfloor>q * 2\<rfloor> < nat \<lceil>1 / q\<rceil> + 1" by linarith
    then show ?thesis using True q by simp
  next
    case False
    have "1 / (q * 2) + 1 \<le> 1 / q" using q False by (simp add: field_simps)
    then have "\<lceil>1 / (q * 2)\<rceil> + 1 \<le> \<lceil>1 / q\<rceil>"
      by (metis ceiling_add_one ceiling_mono)
    moreover have "0 < \<lceil>1 / (q * 2)\<rceil>" using q by simp
    ultimately have "nat \<lceil>1 / (q * 2)\<rceil> < nat \<lceil>1 / q\<rceil>" by linarith
    then show ?thesis using False q by simp
  qed
qed simp

declare binade.simps [simp del]

definition round_half_even :: "rat \<Rightarrow> int" where
  "round_half_even q =
     (let f = \<lfloor>q\<rfloor>; d = q - of_int f
      in if d < 1 / 2 then f else if 1 / 2 < d then f + 1 else if even f then f else f + 1)"

text \<open>The exponent of the unit in the last place at a magnitude (subnormals share \<open>-1074\<close>).\<close>

definition ulp_exp :: "rat \<Rightarrow> int" where
  "ulp_exp q = max (binade q - 52) (- 1074)"

definition round_mag :: "rat \<Rightarrow> rat" where
  "round_mag q = of_int (round_half_even (q / 2 powi ulp_exp q)) * 2 powi ulp_exp q"

definition round_num :: "rat \<Rightarrow> number" where
  "round_num q =
     (if q = 0 then Fin 0
      else let r = round_mag \<bar>q\<bar>
           in if 2 ^ 1024 \<le> r then (if 0 < q then PInf else NInf)
              else if 0 < q then Fin r
              else if r = 0 then NZero else Fin (- r))"

definition representable :: "rat \<Rightarrow> bool" where
  "representable x \<longleftrightarrow>
     (\<exists>m e. x = of_int m * 2 powi e \<and> \<bar>m\<bar> < 2 ^ 53 \<and> - 1074 \<le> e \<and> e \<le> 971)"

definition wf_number :: "number \<Rightarrow> bool" where
  "wf_number n = (case n of Fin x \<Rightarrow> representable x | _ \<Rightarrow> True)"

section \<open>Operators\<close>

definition num_val :: "number \<Rightarrow> rat" where
  "num_val n = (case n of Fin x \<Rightarrow> x | _ \<Rightarrow> 0)"

definition is_finite :: "number \<Rightarrow> bool" where
  "is_finite n = (case n of Fin _ \<Rightarrow> True | NZero \<Rightarrow> True | _ \<Rightarrow> False)"

definition sign_neg :: "number \<Rightarrow> bool" where
  "sign_neg n = (case n of NInf \<Rightarrow> True | NZero \<Rightarrow> True | Fin x \<Rightarrow> x < 0 | _ \<Rightarrow> False)"

definition signed_zero :: "bool \<Rightarrow> number" where
  "signed_zero s = (if s then NZero else Fin 0)"

definition signed_inf :: "bool \<Rightarrow> number" where
  "signed_inf s = (if s then NInf else PInf)"

definition round_signed :: "bool \<Rightarrow> rat \<Rightarrow> number" where
  "round_signed s q = (if q = 0 then signed_zero s else round_num q)"

definition num_neg :: "number \<Rightarrow> number" where
  "num_neg n = (case n of NaN \<Rightarrow> NaN | PInf \<Rightarrow> NInf | NInf \<Rightarrow> PInf | NZero \<Rightarrow> Fin 0
     | Fin x \<Rightarrow> if x = 0 then NZero else Fin (- x))"

definition num_add :: "number \<Rightarrow> number \<Rightarrow> number" where
  "num_add a b =
     (if a = NaN \<or> b = NaN then NaN
      else if \<not> is_finite a then (if \<not> is_finite b \<and> a \<noteq> b then NaN else a)
      else if \<not> is_finite b then b
      else round_signed (sign_neg a \<and> sign_neg b) (num_val a + num_val b))"

definition num_sub :: "number \<Rightarrow> number \<Rightarrow> number" where
  "num_sub a b = num_add a (num_neg b)"

definition num_mul :: "number \<Rightarrow> number \<Rightarrow> number" where
  "num_mul a b =
     (let s = (sign_neg a \<noteq> sign_neg b) in
      if a = NaN \<or> b = NaN then NaN
      else if \<not> is_finite a then (if is_finite b \<and> num_val b = 0 then NaN else signed_inf s)
      else if \<not> is_finite b then (if num_val a = 0 then NaN else signed_inf s)
      else round_signed s (num_val a * num_val b))"

definition num_div :: "number \<Rightarrow> number \<Rightarrow> number" where
  "num_div a b =
     (let s = (sign_neg a \<noteq> sign_neg b) in
      if a = NaN \<or> b = NaN then NaN
      else if \<not> is_finite a then (if \<not> is_finite b then NaN else signed_inf s)
      else if \<not> is_finite b then signed_zero s
      else if num_val b = 0 then (if num_val a = 0 then NaN else signed_inf s)
      else round_signed s (num_val a / num_val b))"

definition trunc_rat :: "rat \<Rightarrow> int" where
  "trunc_rat q = (if q < 0 then \<lceil>q\<rceil> else \<lfloor>q\<rfloor>)"

definition num_rem :: "number \<Rightarrow> number \<Rightarrow> number" where
  "num_rem a b =
     (if a = NaN \<or> b = NaN \<or> \<not> is_finite a \<or> (is_finite b \<and> num_val b = 0) then NaN
      else if \<not> is_finite b \<or> num_val a = 0 then a
      else round_signed (sign_neg a)
             (num_val a - num_val b * of_int (trunc_rat (num_val a / num_val b))))"

text \<open>
  Exponentiation.  ECMAScript fixes the special cases and leaves the remaining value to the
  implementation; the argument \<open>approx\<close> stands for that value.
\<close>

definition odd_integer :: "number \<Rightarrow> bool" where
  "odd_integer n = (is_finite n \<and> of_int \<lfloor>num_val n\<rfloor> = num_val n \<and> odd \<lfloor>num_val n\<rfloor>)"

definition num_pow :: "(number \<Rightarrow> number \<Rightarrow> number) \<Rightarrow> number \<Rightarrow> number \<Rightarrow> number" where
  "num_pow approx a b =
     (if b = NaN then NaN
      else if is_finite b \<and> num_val b = 0 then Fin 1
      else if a = NaN then NaN
      else if a = PInf then (if sign_neg b then Fin 0 else PInf)
      else if a = NInf then
        (if \<not> sign_neg b then (if odd_integer b then NInf else PInf)
         else (if odd_integer b then NZero else Fin 0))
      else if num_val a = 0 then
        (if \<not> sign_neg b then signed_zero (sign_neg a \<and> odd_integer b)
         else signed_inf (sign_neg a \<and> odd_integer b))
      else if \<not> is_finite b then
        (if \<bar>num_val a\<bar> = 1 then NaN
         else if (1 < \<bar>num_val a\<bar>) = (b = PInf) then PInf else Fin 0)
      else if num_val a < 0 \<and> of_int \<lfloor>num_val b\<rfloor> \<noteq> num_val b then NaN
      else approx a b)"

definition num_less :: "number \<Rightarrow> number \<Rightarrow> bool" where
  "num_less a b =
     (if a = NaN \<or> b = NaN then False
      else if a = PInf \<or> b = NInf then False
      else if a = NInf \<or> b = PInf then True
      else num_val a < num_val b)"

definition num_eq :: "number \<Rightarrow> number \<Rightarrow> bool" where
  "num_eq a b =
     (if a = NaN \<or> b = NaN then False
      else if is_finite a \<and> is_finite b then num_val a = num_val b
      else a = b)"

definition num_le :: "number \<Rightarrow> number \<Rightarrow> bool" where
  "num_le a b = (num_less a b \<or> num_eq a b)"

definition math_max :: "number \<Rightarrow> number \<Rightarrow> number" where
  "math_max a b =
     (if a = NaN \<or> b = NaN then NaN
      else if num_less a b then b
      else if num_less b a then a
      else if sign_neg a then b else a)"

definition math_min :: "number \<Rightarrow> number \<Rightarrow> number" where
  "math_min a b =
     (if a = NaN \<or> b = NaN then NaN
      else if num_less a b then a
      else if num_less b a then b
      else if sign_neg a then a else b)"

definition math_abs :: "number \<Rightarrow> number" where
  "math_abs n = (case n of NInf \<Rightarrow> PInf | NZero \<Rightarrow> Fin 0 | Fin x \<Rightarrow> Fin \<bar>x\<bar> | _ \<Rightarrow> n)"

definition math_floor :: "number \<Rightarrow> number" where
  "math_floor n = (case n of Fin x \<Rightarrow> Fin (of_int \<lfloor>x\<rfloor>) | _ \<Rightarrow> n)"

definition math_ceil :: "number \<Rightarrow> number" where
  "math_ceil n = (case n of
       Fin x \<Rightarrow> if \<lceil>x\<rceil> = 0 \<and> x < 0 then NZero else Fin (of_int \<lceil>x\<rceil>) | _ \<Rightarrow> n)"

section \<open>Rounding yields representable values\<close>

lemma binade_bounds:
  "0 < q \<Longrightarrow> 2 powi binade q \<le> q \<and> q < 2 powi (binade q + 1)"
proof (induction q rule: binade.induct)
  case (1 q)
  consider "2 \<le> q" | "q < 1" | "1 \<le> q" "q < 2" by linarith
  then show ?case
  proof cases
    case 1
    with "1.IH"(1) "1.prems" have "2 powi binade (q / 2) \<le> q / 2 \<and> q / 2 < 2 powi (binade (q / 2) + 1)"
      by simp
    with 1 show ?thesis
      by (simp add: binade.simps [of q] power_int_add)
  next
    case 2
    with "1.IH"(2) "1.prems" have "2 powi binade (q * 2) \<le> q * 2 \<and> q * 2 < 2 powi (binade (q * 2) + 1)"
      by simp
    with 2 "1.prems" show ?thesis
      by (simp add: binade.simps [of q] power_int_add power_int_diff)
  next
    case 3
    then show ?thesis by (simp add: binade.simps [of q])
  qed
qed

lemma binade_unique:
  assumes "0 < q" "2 powi e \<le> q" "q < 2 powi (e + 1)"
  shows "binade q = e"
proof (rule ccontr)
  assume ne: "binade q \<noteq> e"
  note b = binade_bounds [OF assms(1)]
  consider "binade q + 1 \<le> e" | "e + 1 \<le> binade q" using ne by linarith
  then show False
  proof cases
    case 1
    then have "(2::rat) powi (binade q + 1) \<le> 2 powi e" by (intro power_int_increasing) auto
    with b assms show False by linarith
  next
    case 2
    then have "(2::rat) powi (e + 1) \<le> 2 powi binade q" by (intro power_int_increasing) auto
    with b assms show False by linarith
  qed
qed

lemma round_half_even_int [simp]: "round_half_even (of_int k) = k"
  by (simp add: round_half_even_def)

lemma round_half_even_le: "q \<le> of_int k \<Longrightarrow> round_half_even q \<le> k"
proof -
  assume q: "q \<le> of_int k"
  show ?thesis
  proof (cases "q = of_int k")
    case True
    then show ?thesis by simp
  next
    case False
    with q have "q < of_int k" by simp
    then have "\<lfloor>q\<rfloor> < k" by (simp add: floor_less_iff)
    then show ?thesis by (auto simp: round_half_even_def Let_def)
  qed
qed

lemma round_half_even_ge: "of_int k \<le> q \<Longrightarrow> k \<le> round_half_even q"
proof -
  assume "of_int k \<le> q"
  then have "k \<le> \<lfloor>q\<rfloor>" by (simp add: le_floor_iff)
  then show ?thesis by (auto simp: round_half_even_def Let_def)
qed

lemma powi_pos_rat [simp]: "0 < (2::rat) powi e"
  by simp

lemma mantissa_bounds:
  assumes "0 < q"
  shows "round_half_even (q / 2 powi ulp_exp q) \<le> 2 ^ 53"
    and "0 \<le> round_half_even (q / 2 powi ulp_exp q)"
    and "- 1074 < ulp_exp q \<Longrightarrow> 2 ^ 52 \<le> round_half_even (q / 2 powi ulp_exp q)"
proof -
  let ?u = "ulp_exp q"
  note b = binade_bounds [OF assms]
  have "q < 2 powi (binade q + 1)" using b by simp
  also have "\<dots> \<le> 2 powi (53 + ?u)" by (intro power_int_increasing) (auto simp: ulp_exp_def)
  also have "\<dots> = 2 ^ 53 * 2 powi ?u" by (simp add: power_int_add)
  finally have "q / 2 powi ?u \<le> of_int (2 ^ 53)" by (simp add: field_simps)
  then show "round_half_even (q / 2 powi ?u) \<le> 2 ^ 53" by (rule round_half_even_le)
  have "of_int 0 \<le> q / 2 powi ?u" using assms by simp
  then show "0 \<le> round_half_even (q / 2 powi ?u)" by (rule round_half_even_ge)
  assume "- 1074 < ?u"
  then have u: "?u = binade q - 52" by (auto simp: ulp_exp_def)
  have "(2::rat) powi (52 + ?u) \<le> q" using b u by simp
  then have "of_int (2 ^ 52) \<le> q / 2 powi ?u" by (simp add: field_simps power_int_add)
  then show "2 ^ 52 \<le> round_half_even (q / 2 powi ?u)" by (rule round_half_even_ge)
qed

lemma representableI:
  "\<bar>m\<bar> < 2 ^ 53 \<Longrightarrow> - 1074 \<le> e \<Longrightarrow> e \<le> 971 \<Longrightarrow> representable (of_int m * 2 powi e)"
  unfolding representable_def by blast

lemma representable_uminus [simp]: "representable (- x) \<longleftrightarrow> representable x"
proof -
  have "representable x \<Longrightarrow> representable (- x)" for x
  proof -
    assume "representable x"
    then obtain m e where me: "x = of_int m * 2 powi e" "\<bar>m\<bar> < 2 ^ 53" "- 1074 \<le> e" "e \<le> 971"
      unfolding representable_def by blast
    then have "- x = of_int (- m) * 2 powi e" "\<bar>- m\<bar> < 2 ^ 53" by simp_all
    with me(3,4) show ?thesis unfolding representable_def by blast
  qed
  from this [of x] this [of "- x"] show ?thesis by auto
qed

lemma round_mag_representable:
  assumes q: "0 < q" and small: "round_mag q < 2 ^ 1024"
  shows "representable (round_mag q)"
proof -
  let ?u = "ulp_exp q" and ?m = "round_half_even (q / 2 powi ulp_exp q)"
  note mb = mantissa_bounds [OF q]
  have lo: "- 1074 \<le> ?u" by (simp add: ulp_exp_def)
  have up: "?u \<le> 971"
  proof (rule ccontr)
    assume "\<not> ?u \<le> 971"
    then have u: "972 \<le> ?u" by simp
    have "(2::rat) ^ 1024 = of_int (2 ^ 52) * 2 powi 972" by simp
    also have "\<dots> \<le> of_int ?m * 2 powi ?u"
      using mb(3) u by (intro mult_mono power_int_increasing) (auto simp: of_int_le_iff simp del: of_int_power)
    finally show False using small by (simp add: round_mag_def)
  qed
  show ?thesis
  proof (cases "?m = 2 ^ 53")
    case False
    with mb(1,2) have "\<bar>?m\<bar> < 2 ^ 53" by simp
    from representableI [OF this lo up] show ?thesis by (simp add: round_mag_def)
  next
    case True
    have r: "round_mag q = of_int (2 ^ 52) * 2 powi (?u + 1)"
      by (simp add: round_mag_def True power_int_add)
    have "?u \<noteq> 971"
    proof
      assume "?u = 971"
      then have "round_mag q = 2 ^ 1024" using r by simp
      with small show False by simp
    qed
    with up have "?u + 1 \<le> 971" by simp
    with lo show ?thesis unfolding r by (intro representableI) auto
  qed
qed

lemma wf_round_num [simp, intro]: "wf_number (round_num q)"
proof -
  have "representable 0" using representableI [of 0 0] by simp
  then show ?thesis
    using round_mag_representable [of "\<bar>q\<bar>"]
    by (auto simp: round_num_def wf_number_def Let_def)
qed

section \<open>Rounding is exact on representable values\<close>

lemma round_mag_exact:
  assumes x: "representable x" "0 < x"
  shows "round_mag x = x"
proof -
  from x(1) obtain m e where me: "x = of_int m * 2 powi e" "\<bar>m\<bar> < 2 ^ 53" "- 1074 \<le> e"
    unfolding representable_def by blast
  let ?u = "ulp_exp x"
  have "m < 2 ^ 53" using me(2) by simp
  then have "(of_int m :: rat) < 2 ^ 53" by (metis of_int_less_iff of_int_numeral of_int_power)
  then have "x < 2 powi (53 + e)" using me(1) by (simp add: power_int_add)
  moreover have "2 powi binade x \<le> x" using binade_bounds [OF x(2)] by simp
  ultimately have "(2::rat) powi binade x < 2 powi (53 + e)" by linarith
  then have "binade x < 53 + e"
    using power_int_increasing [of "53 + e" "binade x" "2::rat"] by (cases "53 + e \<le> binade x") auto
  then have ue: "?u \<le> e" using me(3) by (simp add: ulp_exp_def)
  have "x / 2 powi ?u = of_int m * 2 powi (e - ?u)" using me(1) by (simp add: power_int_diff)
  also have "\<dots> = of_int (m * 2 ^ nat (e - ?u))" using ue by (simp add: power_int_def)
  finally show ?thesis by (simp add: round_mag_def del: of_int_mult of_int_power) (simp add: field_simps)
qed

lemma representable_lt: "representable x \<Longrightarrow> \<bar>x\<bar> < 2 ^ 1024"
proof -
  assume "representable x"
  then obtain m e where me: "x = of_int m * 2 powi e" "\<bar>m\<bar> < 2 ^ 53" "e \<le> 971"
    unfolding representable_def by blast
  have m: "(of_int \<bar>m\<bar> :: rat) < 2 ^ 53" using me(2) by (metis of_int_less_iff of_int_numeral of_int_power)
  have "\<bar>x\<bar> = of_int \<bar>m\<bar> * 2 powi e" using me(1) by (simp add: abs_mult)
  also have "\<dots> < 2 ^ 53 * 2 powi e" using m by (intro mult_strict_right_mono) auto
  also have "\<dots> \<le> 2 ^ 53 * 2 powi 971" using me(3) by (intro mult_left_mono power_int_increasing) auto
  also have "\<dots> = 2 ^ 1024" by simp
  finally show ?thesis .
qed

lemma round_num_exact: "representable x \<Longrightarrow> round_num x = Fin x"
proof -
  assume r: "representable x"
  show ?thesis
  proof (cases "x = 0")
    case False
    then have "representable \<bar>x\<bar>" "0 < \<bar>x\<bar>" using r by (auto simp: abs_if)
    then have "round_mag \<bar>x\<bar> = \<bar>x\<bar>" by (rule round_mag_exact)
    with False representable_lt [OF r] show ?thesis by (auto simp: round_num_def Let_def)
  qed (simp add: round_num_def)
qed

lemma representable_int: "\<bar>k\<bar> \<le> 2 ^ 53 \<Longrightarrow> representable (of_int k)"
proof (cases "\<bar>k\<bar> = 2 ^ 53")
  case True
  then consider "k = 2 ^ 53" | "k = - (2 ^ 53)" by linarith
  then show ?thesis
    using representableI [of "2 ^ 52" 1] by cases simp_all
next
  case False
  moreover assume "\<bar>k\<bar> \<le> 2 ^ 53"
  ultimately show ?thesis using representableI [of k 0] by simp
qed

lemma round_num_int: "\<bar>k\<bar> \<le> 2 ^ 53 \<Longrightarrow> round_num (of_int k) = Fin (of_int k)"
  by (intro round_num_exact representable_int)

lemma round_num_numeral [simp, number_simps]:
  "(numeral k :: int) \<le> 2 ^ 53 \<Longrightarrow> round_num (numeral k) = Fin (numeral k)"
  "(numeral k :: int) \<le> 2 ^ 53 \<Longrightarrow> round_num (- numeral k) = Fin (- numeral k)"
  "round_num 0 = Fin 0" "round_num 1 = Fin 1" "round_num (- 1) = Fin (- 1)"
  using round_num_int [of "numeral k"] round_num_int [of "- numeral k"]
    round_num_int [of 0] round_num_int [of 1] round_num_int [of "- 1"]
  by simp_all

section \<open>Operations keep numbers representable\<close>

lemma representable_abs [simp]: "representable \<bar>x\<bar> \<longleftrightarrow> representable x"
  by (simp add: abs_if)

lemma representable_zero [simp]: "representable 0"
  using representable_int [of 0] by simp

lemma representable_one [simp]: "representable 1"
  using representable_int [of 1] by simp

text \<open>A representable value is an integer or smaller than \<open>2\<^sup>5\<^sup>3\<close>.\<close>

lemma representable_split:
  assumes "representable x"
  obtains k where "x = of_int k" | "\<bar>x\<bar> < 2 ^ 53"
proof -
  from assms obtain m e where me: "x = of_int m * 2 powi e" "\<bar>m\<bar> < 2 ^ 53"
    unfolding representable_def by blast
  show thesis
  proof (cases "0 \<le> e")
    case True
    then have "x = of_int (m * 2 ^ nat e)" using me(1) by (simp add: power_int_def)
    then show thesis by (rule that(1))
  next
    case False
    have m: "(of_int \<bar>m\<bar> :: rat) < 2 ^ 53" using me(2) by (metis of_int_less_iff of_int_numeral of_int_power)
    have "(2::rat) powi e \<le> 2 powi 0" using False by (intro power_int_increasing) auto
    then have "of_int \<bar>m\<bar> * (2::rat) powi e \<le> of_int \<bar>m\<bar> * 1" by (intro mult_left_mono) auto
    then have "\<bar>x\<bar> < 2 ^ 53" using m me(1) by (simp add: abs_mult)
    then show thesis by (rule that(2))
  qed
qed

lemma representable_floor:
  assumes "representable x"
  shows "representable (of_int \<lfloor>x\<rfloor>)"
  using assms
proof (rule representable_split)
  assume x: "\<bar>x\<bar> < 2 ^ 53"
  then have "of_int (- (2 ^ 53)) \<le> x" "x \<le> of_int (2 ^ 53)" by (auto simp: abs_if split: if_splits)
  then have "- (2 ^ 53) \<le> \<lfloor>x\<rfloor>" "\<lfloor>x\<rfloor> \<le> 2 ^ 53"
    using floor_mono [of x "of_int (2 ^ 53)"] by (auto simp: le_floor_iff)
  then have "\<bar>\<lfloor>x\<rfloor>\<bar> \<le> 2 ^ 53" by linarith
  then show ?thesis by (rule representable_int)
qed (use assms in simp)

lemma representable_ceiling: "representable x \<Longrightarrow> representable (of_int \<lceil>x\<rceil>)"
  using representable_floor [of "- x"] by (simp add: ceiling_def)

lemma wf_signed [simp]: "wf_number (signed_zero s)" "wf_number (signed_inf s)"
  by (simp_all add: signed_zero_def signed_inf_def wf_number_def)

lemma wf_round_signed [simp]: "wf_number (round_signed s q)"
  by (simp add: round_signed_def)

lemma wf_special [simp]: "wf_number NaN" "wf_number PInf" "wf_number NInf" "wf_number NZero"
    "wf_number (Fin x) \<longleftrightarrow> representable x"
  by (simp_all add: wf_number_def)

lemma wf_num_neg: "wf_number a \<Longrightarrow> wf_number (num_neg a)"
  by (auto simp: num_neg_def split: number.splits)

lemma wf_num_ops:
  assumes "wf_number a" "wf_number b"
  shows "wf_number (num_add a b)" "wf_number (num_sub a b)" "wf_number (num_mul a b)"
    "wf_number (num_div a b)" "wf_number (num_rem a b)" "wf_number (math_max a b)" "wf_number (math_min a b)"
  using assms wf_num_neg [OF assms(2)]
  by (simp_all add: num_add_def num_sub_def num_mul_def num_div_def num_rem_def math_max_def math_min_def Let_def)

lemma wf_num_pow: "(\<And>x y. wf_number (approx x y)) \<Longrightarrow> wf_number (num_pow approx a b)"
  by (simp add: num_pow_def)

lemma wf_math_unary:
  assumes "wf_number a"
  shows "wf_number (math_abs a)" "wf_number (math_floor a)" "wf_number (math_ceil a)"
  using assms
  by (auto simp: math_abs_def math_floor_def math_ceil_def wf_number_def representable_floor
      representable_ceiling split: number.splits)

section \<open>Exact operations\<close>

text \<open>\<open>denotes n q\<close>: the finite number \<open>n\<close> has the value \<open>q\<close> (either zero for 0).\<close>

definition denotes :: "number \<Rightarrow> rat \<Rightarrow> bool" where
  "denotes n q \<longleftrightarrow> is_finite n \<and> num_val n = q"

lemma denotes_simps [simp]: "denotes (Fin x) q \<longleftrightarrow> x = q" "denotes NZero q \<longleftrightarrow> q = 0"
  by (auto simp: denotes_def is_finite_def num_val_def)

lemma denotes_round_signed: "representable q \<Longrightarrow> denotes (round_signed s q) q"
  by (auto simp: round_signed_def signed_zero_def round_num_exact)

lemma denotes_not_special: "denotes a x \<Longrightarrow> a \<noteq> NaN \<and> a \<noteq> PInf \<and> a \<noteq> NInf \<and> is_finite a \<and> num_val a = x"
  by (auto simp: denotes_def is_finite_def)

lemma denotes_num_neg: "denotes a x \<Longrightarrow> denotes (num_neg a) (- x)"
  by (auto simp: num_neg_def denotes_def is_finite_def num_val_def split: number.splits)

lemma denotes_num_add:
  "denotes a x \<Longrightarrow> denotes b y \<Longrightarrow> representable (x + y) \<Longrightarrow> denotes (num_add a b) (x + y)"
  by (auto dest!: denotes_not_special simp: num_add_def denotes_round_signed)

lemma denotes_num_sub:
  "denotes a x \<Longrightarrow> denotes b y \<Longrightarrow> representable (x - y) \<Longrightarrow> denotes (num_sub a b) (x - y)"
  using denotes_num_add [OF _ denotes_num_neg, of a x b y] by (simp add: num_sub_def)

lemma denotes_num_mul:
  "denotes a x \<Longrightarrow> denotes b y \<Longrightarrow> representable (x * y) \<Longrightarrow> denotes (num_mul a b) (x * y)"
  by (auto dest!: denotes_not_special simp: num_mul_def denotes_round_signed Let_def)

lemma denotes_num_div:
  "denotes a x \<Longrightarrow> denotes b y \<Longrightarrow> y \<noteq> 0 \<Longrightarrow> representable (x / y) \<Longrightarrow> denotes (num_div a b) (x / y)"
  by (auto dest!: denotes_not_special simp: num_div_def denotes_round_signed Let_def)

lemma denotes_compare:
  assumes "denotes a x" "denotes b y"
  shows "num_less a b \<longleftrightarrow> x < y" "num_le a b \<longleftrightarrow> x \<le> y" "num_eq a b \<longleftrightarrow> x = y"
  using denotes_not_special [OF assms(1)] denotes_not_special [OF assms(2)]
  by (simp_all add: num_less_def num_le_def num_eq_def le_less)

lemma denotes_max_min:
  assumes "denotes a x" "denotes b y"
  shows "denotes (math_max a b) (max x y)" "denotes (math_min a b) (min x y)"
  using assms denotes_compare(1) [OF assms] denotes_compare(1) [OF assms(2,1)]
    denotes_not_special [OF assms(1)] denotes_not_special [OF assms(2)]
  by (auto simp: math_max_def math_min_def max_def min_def)

lemma denotes_rounding:
  assumes "denotes a x"
  shows "denotes (math_abs a) \<bar>x\<bar>" "denotes (math_floor a) (of_int \<lfloor>x\<rfloor>)" "denotes (math_ceil a) (of_int \<lceil>x\<rceil>)"
  using assms by (auto simp: math_abs_def math_floor_def math_ceil_def denotes_def is_finite_def num_val_def
      split: number.splits)

end
