(* ===== verification/JsString.thy ===== *)
theory JsString
  imports JsNumber
begin

text \<open>
  JavaScript strings as lists of UTF-16 code units (natural numbers), with the parts of the
  standard library that the web client uses: the white space set of \<open>\s\<close> and \<open>trim\<close>, prefix
  tests, relational comparison by code units, the conversion \<open>Number(s)\<close>, and the string form
  \<open>JSON.stringify(s)\<close>.  The lemmas show that the decimal scanner consumes a prefix and that
  \<open>Number\<close> of a scanned prefix is the rounded decimal value.
\<close>

type_synonym code_unit = nat
type_synonym jsstr = "code_unit list"

definition js :: "string \<Rightarrow> jsstr" where
  "js s = map of_char s"

lemma js_Nil [simp, js_simps]: "js [] = []"
  by (simp add: js_def)

lemma js_Cons [simp, js_simps]: "js (c # cs) = of_char c # js cs"
  by (simp add: js_def)

section \<open>Character classes\<close>

definition is_space :: "code_unit \<Rightarrow> bool" where
  "is_space c \<longleftrightarrow> c \<in> {9, 10, 11, 12, 13, 32, 160, 5760, 8232, 8233, 8239, 8287, 12288, 65279}
     \<or> (8192 \<le> c \<and> c \<le> 8202)"

definition is_digit :: "code_unit \<Rightarrow> bool" where
  "is_digit c \<longleftrightarrow> 48 \<le> c \<and> c \<le> 57"

definition is_hex :: "code_unit \<Rightarrow> bool" where
  "is_hex c \<longleftrightarrow> is_digit c \<or> (97 \<le> c \<and> c \<le> 102) \<or> (65 \<le> c \<and> c \<le> 70)"

definition digit_val :: "code_unit \<Rightarrow> nat" where
  "digit_val c = (if is_digit c then c - 48 else if 97 \<le> c then c - 87 else c - 55)"

definition val_in_base :: "nat \<Rightarrow> jsstr \<Rightarrow> nat" where
  "val_in_base b ds = foldl (\<lambda>n c. b * n + digit_val c) 0 ds"

section \<open>Trimming and comparison\<close>

definition trim_start :: "jsstr \<Rightarrow> jsstr" where
  "trim_start s = dropWhile is_space s"

definition js_trim :: "jsstr \<Rightarrow> jsstr" where
  "js_trim s = rev (trim_start (rev (trim_start s)))"

fun starts_with :: "jsstr \<Rightarrow> jsstr \<Rightarrow> bool" where
  "starts_with s [] = True"
| "starts_with [] (p # ps) = False"
| "starts_with (c # cs) (p # ps) = (c = p \<and> starts_with cs ps)"

fun js_less :: "jsstr \<Rightarrow> jsstr \<Rightarrow> bool" where
  "js_less _ [] = False"
| "js_less [] (y # ys) = True"
| "js_less (x # xs) (y # ys) = (x < y \<or> (x = y \<and> js_less xs ys))"

definition js_le :: "jsstr \<Rightarrow> jsstr \<Rightarrow> bool" where
  "js_le s t = (\<not> js_less t s)"

section \<open>Decimal literals and \<open>Number\<close>\<close>

record decimal =
  d_int :: jsstr
  d_dot :: bool
  d_frac :: jsstr
  d_exp :: jsstr

definition scan_sign :: "jsstr \<Rightarrow> jsstr" where
  "scan_sign s = (case s of [] \<Rightarrow> [] | d # _ \<Rightarrow> if d = 43 \<or> d = 45 then [d] else [])"

definition scan_exponent :: "jsstr \<Rightarrow> jsstr" where
  "scan_exponent s = (case s of [] \<Rightarrow> [] | c # cs \<Rightarrow>
     if c = 101 \<or> c = 69 then
       (let sg = scan_sign cs; ds = takeWhile is_digit (drop (length sg) cs)
        in if ds = [] then [] else c # sg @ ds)
     else [])"

definition scan_frac :: "jsstr \<Rightarrow> bool \<times> jsstr \<times> jsstr" where
  "scan_frac r = (case r of [] \<Rightarrow> (False, [], [])
     | c # cs \<Rightarrow> if c = 46 then (True, takeWhile is_digit cs, dropWhile is_digit cs)
                else (False, [], r))"

text \<open>The regular expression \<open>^(?:\d+\.?\d*|\.\d+)(?:[eE][+-]?\d+)?\<close>.\<close>

definition scan_decimal :: "jsstr \<Rightarrow> decimal option" where
  "scan_decimal s =
     (let ds = takeWhile is_digit s; (dot, fs, r) = scan_frac (dropWhile is_digit s)
      in if ds = [] \<and> fs = [] then None
         else Some \<lparr>d_int = ds, d_dot = dot, d_frac = fs, d_exp = scan_exponent r\<rparr>)"

definition decimal_text :: "decimal \<Rightarrow> jsstr" where
  "decimal_text d = d_int d @ (if d_dot d then [46] else []) @ d_frac d @ d_exp d"

definition exponent_val :: "jsstr \<Rightarrow> int" where
  "exponent_val s = (case s of
       _ # c # ds \<Rightarrow> if c = 45 then - int (val_in_base 10 ds)
                   else if c = 43 then int (val_in_base 10 ds)
                   else int (val_in_base 10 (c # ds))
     | _ \<Rightarrow> 0)"

definition decimal_val :: "decimal \<Rightarrow> rat" where
  "decimal_val d = of_nat (val_in_base 10 (d_int d @ d_frac d))
     * 10 powi (exponent_val (d_exp d) - int (length (d_frac d)))"

definition js_Number_unsigned :: "bool \<Rightarrow> jsstr \<Rightarrow> number" where
  "js_Number_unsigned neg t =
     (if t = js ''Infinity'' then signed_inf neg
      else case scan_decimal t of
        None \<Rightarrow> NaN
      | Some d \<Rightarrow> if decimal_text d = t
                  then round_signed neg (if neg then - decimal_val d else decimal_val d)
                  else NaN)"

definition radix_number :: "nat \<Rightarrow> (code_unit \<Rightarrow> bool) \<Rightarrow> jsstr \<Rightarrow> number" where
  "radix_number b ok ds =
     (if ds \<noteq> [] \<and> list_all ok ds then round_num (of_nat (val_in_base b ds)) else NaN)"

definition js_Number :: "jsstr \<Rightarrow> number" where
  "js_Number s =
     (case js_trim s of
        [] \<Rightarrow> Fin 0
      | c # cs \<Rightarrow>
          if c = 48 \<and> cs \<noteq> [] \<and> hd cs \<in> {120, 88} then radix_number 16 is_hex (tl cs)
          else if c = 48 \<and> cs \<noteq> [] \<and> hd cs \<in> {111, 79}
               then radix_number 8 (\<lambda>d. 48 \<le> d \<and> d \<le> 55) (tl cs)
          else if c = 48 \<and> cs \<noteq> [] \<and> hd cs \<in> {98, 66}
               then radix_number 2 (\<lambda>d. 48 \<le> d \<and> d \<le> 49) (tl cs)
          else if c = 43 then js_Number_unsigned False cs
          else if c = 45 then js_Number_unsigned True cs
          else js_Number_unsigned False (c # cs))"

section \<open>\<open>JSON.stringify\<close> of a string\<close>

definition hex_digit :: "nat \<Rightarrow> code_unit" where
  "hex_digit n = (if n < 10 then 48 + n else 87 + n)"

definition unicode_escape :: "code_unit \<Rightarrow> jsstr" where
  "unicode_escape c = [92, 117, hex_digit (c div 4096 mod 16), hex_digit (c div 256 mod 16),
     hex_digit (c div 16 mod 16), hex_digit (c mod 16)]"

definition is_lead :: "code_unit \<Rightarrow> bool" where
  "is_lead c \<longleftrightarrow> 55296 \<le> c \<and> c \<le> 56319"

definition is_trail :: "code_unit \<Rightarrow> bool" where
  "is_trail c \<longleftrightarrow> 56320 \<le> c \<and> c \<le> 57343"

definition json_escape_unit :: "code_unit \<Rightarrow> jsstr" where
  "json_escape_unit c =
     (if c = 8 then [92, 98] else if c = 9 then [92, 116] else if c = 10 then [92, 110]
      else if c = 12 then [92, 102] else if c = 13 then [92, 114]
      else if c = 34 then [92, 34] else if c = 92 then [92, 92]
      else if c < 32 \<or> is_lead c \<or> is_trail c then unicode_escape c else [c])"

text \<open>A surrogate pair is copied; a lone surrogate is escaped.\<close>

fun json_escape :: "jsstr \<Rightarrow> jsstr" where
  "json_escape [] = []"
| "json_escape [c] = json_escape_unit c"
| "json_escape (c # d # cs) =
     (if is_lead c \<and> is_trail d then c # d # json_escape cs
      else json_escape_unit c @ json_escape (d # cs))"

definition json_quote :: "jsstr \<Rightarrow> jsstr" where
  "json_quote s = 34 # json_escape s @ [34]"

section \<open>Facts about the scanner\<close>

lemma starts_with_iff: "starts_with s p \<longleftrightarrow> (\<exists>r. s = p @ r)"
  by (induction s p rule: starts_with.induct) auto

lemma js_less_irrefl [simp]: "\<not> js_less s s"
  by (induction s) auto

lemma js_less_Nil [simp]: "js_less [] t \<longleftrightarrow> t \<noteq> []"
  by (cases t) auto

lemma js_less_trans: "js_less s t \<Longrightarrow> js_less t u \<Longrightarrow> js_less s u"
proof (induction s t arbitrary: u rule: js_less.induct)
  case (2 y ys)
  then show ?case by (cases u) auto
next
  case (3 x xs y ys)
  then show ?case by (cases u) auto
qed simp

lemma js_less_linear: "js_less s t \<or> s = t \<or> js_less t s"
proof (induction s t rule: js_less.induct)
  case (1 s)
  then show ?case by (cases s) auto
qed auto

lemma not_space_digit: "is_digit c \<Longrightarrow> \<not> is_space c"
  by (auto simp: is_digit_def is_space_def)

lemma scan_sign_prefix: "scan_sign cs @ drop (length (scan_sign cs)) cs = cs"
  by (cases cs) (auto simp: scan_sign_def)

lemma scan_exponent_prefix: "\<exists>r. s = scan_exponent s @ r"
proof (cases s)
  case (Cons c cs)
  let ?t = "drop (length (scan_sign cs)) cs"
  have "s = (c # scan_sign cs @ takeWhile is_digit ?t) @ dropWhile is_digit ?t"
    using scan_sign_prefix [of cs] Cons by simp
  moreover have "scan_exponent s = c # scan_sign cs @ takeWhile is_digit ?t \<or> scan_exponent s = []"
    unfolding Cons scan_exponent_def Let_def list.case by simp
  ultimately show ?thesis by (metis append_Nil)
qed (simp add: scan_exponent_def)

lemma scan_frac_prefix:
  "scan_frac r = (dot, fs, r') \<Longrightarrow> r = (if dot then [46] else []) @ fs @ r'"
  by (cases r) (auto simp: scan_frac_def split: if_splits)

lemma scan_decimal_prefix:
  assumes "scan_decimal s = Some d"
  shows "\<exists>r. s = decimal_text d @ r"
proof -
  obtain dot fs r where f: "scan_frac (dropWhile is_digit s) = (dot, fs, r)"
    by (cases "scan_frac (dropWhile is_digit s)") auto
  with assms have d: "d = \<lparr>d_int = takeWhile is_digit s, d_dot = dot, d_frac = fs, d_exp = scan_exponent r\<rparr>"
    by (auto simp: scan_decimal_def Let_def split: if_splits)
  obtain r' where r': "r = scan_exponent r @ r'" using scan_exponent_prefix by blast
  have "s = takeWhile is_digit s @ dropWhile is_digit s" by simp
  also have "\<dots> = takeWhile is_digit s @ (if dot then [46] else []) @ fs @ scan_exponent r @ r'"
    using scan_frac_prefix [OF f] r' by metis
  finally show ?thesis by (auto simp: decimal_text_def d)
qed

lemma scan_decimal_nonempty: "scan_decimal s = Some d \<Longrightarrow> decimal_text d \<noteq> []"
  by (auto simp: scan_decimal_def decimal_text_def Let_def split: prod.splits if_splits)

text \<open>The scanner is idempotent: it recognises its own lexemes in full.\<close>

lemma digits_append:
  assumes "\<forall>c \<in> set ds. is_digit c" and "r = [] \<or> \<not> is_digit (hd r)"
  shows "takeWhile is_digit (ds @ r) = ds" and "dropWhile is_digit (ds @ r) = r"
  using assms by (cases r; simp)+

lemma takeWhile_digits: "\<forall>c \<in> set (takeWhile is_digit s). is_digit c"
  by (auto dest: set_takeWhileD)

lemma scan_exponent_hd:
  "scan_exponent s = [] \<or> (\<not> is_digit (hd (scan_exponent s)) \<and> hd (scan_exponent s) \<noteq> 46)"
  by (auto simp: scan_exponent_def is_digit_def Let_def split: list.splits)

lemma scan_exponent_idem: "scan_exponent (scan_exponent s) = scan_exponent s"
proof (cases "scan_exponent s = []")
  case True
  then show ?thesis by (simp add: scan_exponent_def)
next
  case False
  then obtain c cs where s: "s = c # cs" and c: "c = 101 \<or> c = 69"
    by (auto simp: scan_exponent_def split: list.splits if_splits)
  let ?ds = "takeWhile is_digit (drop (length (scan_sign cs)) cs)"
  have e: "scan_exponent s = c # scan_sign cs @ ?ds" and ds: "?ds \<noteq> []"
    using False s c by (auto simp: scan_exponent_def Let_def split: if_splits)
  have "scan_sign (scan_sign cs @ ?ds) = scan_sign cs"
  proof (cases cs)
    case (Cons x xs)
    have "x = 43 \<or> x = 45 \<or> (\<not> (x = 43 \<or> x = 45) \<and> hd ?ds \<noteq> 43 \<and> hd ?ds \<noteq> 45)"
      using ds Cons by (auto simp: scan_sign_def split: if_splits)
    then show ?thesis using ds Cons by (auto simp: scan_sign_def neq_Nil_conv split: list.splits if_splits)
  qed (use ds in \<open>auto simp: scan_sign_def\<close>)
  moreover have "takeWhile is_digit ?ds = ?ds"
    by simp
  ultimately show ?thesis
    unfolding e using c ds by (simp add: scan_exponent_def Let_def)
qed

lemma scan_decimal_idem:
  assumes "scan_decimal s = Some d"
  shows "scan_decimal (decimal_text d) = Some d"
proof -
  obtain dot fs r where f: "scan_frac (dropWhile is_digit s) = (dot, fs, r)"
    by (cases "scan_frac (dropWhile is_digit s)") auto
  with assms have d: "d = \<lparr>d_int = takeWhile is_digit s, d_dot = dot, d_frac = fs, d_exp = scan_exponent r\<rparr>"
    and ne: "\<not> (takeWhile is_digit s = [] \<and> fs = [])"
    by (auto simp: scan_decimal_def Let_def split: if_splits)
  let ?t = "(if dot then [46] else []) @ fs @ scan_exponent r"
  have fs: "\<forall>c \<in> set fs. is_digit c" "\<not> dot \<Longrightarrow> fs = []"
    using f takeWhile_digits by (auto simp: scan_frac_def split: list.splits if_splits)
  have e: "scan_exponent r = [] \<or> \<not> is_digit (hd (scan_exponent r))"
    "scan_exponent r = [] \<or> hd (scan_exponent r) \<noteq> 46"
    using scan_exponent_hd [of r] by auto
  have t: "?t = [] \<or> \<not> is_digit (hd ?t)"
    using e(1) fs by (auto simp: is_digit_def)
  have "scan_frac ?t = (dot, fs, scan_exponent r)"
  proof (cases dot)
    case True
    then show ?thesis using digits_append [OF fs(1) e(1)] by (simp add: scan_frac_def)
  next
    case False
    then show ?thesis using fs(2) e(2) by (cases "scan_exponent r") (auto simp: scan_frac_def)
  qed
  then show ?thesis
    using ne digits_append [OF takeWhile_digits t, of s]
    by (simp add: scan_decimal_def decimal_text_def d scan_exponent_idem Let_def)
qed

end
