(* ===== verification/BillingTokenizer.thy ===== *)
theory BillingTokenizer
  imports JsString
begin

text \<open>
  The lexer of billing expressions: \<open>BillingExpressionTokenizer\<close> of
  \<open>web/src/features/pricing/lib/billing-expression-evaluator.ts\<close>.  The lexer's cursor
  is the index together with the text from that index on.  The theorems show that
  a token stream is a segmentation of the source (only white space is dropped, positions are
  exact), that it ends in one end-of-input token, that its length is bounded, and that
  a string literal produced by \<open>JSON.stringify\<close> is read back unchanged.
\<close>

section \<open>Limits, tokens and errors\<close>

definition MAX_EXPRESSION_LENGTH :: nat where "MAX_EXPRESSION_LENGTH = 10000"
definition MAX_TOKENS :: nat where "MAX_TOKENS = 2048"
definition MAX_PARSE_DEPTH :: nat where "MAX_PARSE_DEPTH = 128"
definition MAX_EVALUATION_DEPTH :: nat where "MAX_EVALUATION_DEPTH = 256"

datatype token_type = TNumber | TString | TIdentifier | TSymbol | TEof

record token =
  tok_type :: token_type
  tok_value :: jsstr
  tok_pos :: nat

text \<open>One constructor per error message; positions are the one-based numbers of the messages.\<close>

datatype billing_error =
    ExpressionTooLong
  | TooComplex
  | UnexpectedCharacterAt nat
  | InvalidNumber nat
  | UnterminatedString nat
  | InvalidUnicodeEscape nat
  | InvalidStringEscape nat
  | UnexpectedCharacter code_unit nat
  | UnexpectedToken jsstr nat
  | ExpectedSymbol jsstr nat
  | NestingTooDeep
  | OutOfFuel
  | UndefinedToken
  | ResultNotNumeric
  | UnknownVariable jsstr
  | UnknownFunction jsstr
  | ConditionNotBoolean
  | UnaryRequiresBoolean
  | UnaryRequiresNumber jsstr
  | RequiresBooleans jsstr
  | ComparisonTypeMismatch
  | PlusRequiresMatching
  | RequiresNumbers jsstr
  | TierRequiresName
  | TierRequiresValue
  | RequiresNumericArguments jsstr
  | ArgumentCount jsstr nat
  | InvalidEstimatorValue jsstr
  | NegativeCost
  | NonFinite

section \<open>The lexer\<close>

record lexer =
  lx_index :: nat
  lx_rest :: jsstr

definition advance_lexer :: "nat \<Rightarrow> lexer \<Rightarrow> lexer" where
  "advance_lexer n s = \<lparr>lx_index = lx_index s + n, lx_rest = drop n (lx_rest s)\<rparr>"

definition isDigit :: "code_unit option \<Rightarrow> bool" where
  "isDigit ch = (case ch of None \<Rightarrow> False | Some c \<Rightarrow> 48 \<le> c \<and> c \<le> 57)"

definition isIdentifierStart :: "code_unit option \<Rightarrow> bool" where
  "isIdentifierStart ch = (case ch of None \<Rightarrow> False
     | Some c \<Rightarrow> (97 \<le> c \<and> c \<le> 122) \<or> (65 \<le> c \<and> c \<le> 90) \<or> c = 95)"

definition isIdentifierPart :: "code_unit option \<Rightarrow> bool" where
  "isIdentifierPart ch = (isIdentifierStart ch \<or> isDigit ch)"

definition char_at :: "nat \<Rightarrow> jsstr \<Rightarrow> code_unit option" where
  "char_at n s = (if n < length s then Some (s ! n) else None)"

definition skipWhitespace :: "lexer \<Rightarrow> lexer" where
  "skipWhitespace s = advance_lexer (length (takeWhile is_space (lx_rest s))) s"

definition readNumber :: "lexer \<Rightarrow> (billing_error, token \<times> lexer) result" where
  "readNumber s =
     (let position = lx_index s in
      case scan_decimal (lx_rest s) of
        None \<Rightarrow> Inl (InvalidNumber (position + 1))
      | Some d \<Rightarrow>
          (let lexm = decimal_text d; s' = advance_lexer (length lexm) s in
           if \<not> is_finite (js_Number lexm) then Inl (InvalidNumber (position + 1))
           else Inr (\<lparr>tok_type = TNumber, tok_value = lexm, tok_pos = position\<rparr>, s')))"

definition simpleEscapes :: "code_unit \<Rightarrow> code_unit option" where
  "simpleEscapes c =
     (if c = 34 then Some 34 else if c = 39 then Some 39 else if c = 92 then Some 92
      else if c = 47 then Some 47 else if c = 98 then Some 8 else if c = 102 then Some 12
      else if c = 110 then Some 10 else if c = 114 then Some 13 else if c = 116 then Some 9
      else None)"

text \<open>
  The loop of \<open>readString\<close>: \<open>i\<close> and \<open>cs\<close> are the index and the text from it on, \<open>v\<close> the value
  read so far.
\<close>

function readString_loop ::
  "code_unit \<Rightarrow> nat \<Rightarrow> nat \<Rightarrow> jsstr \<Rightarrow> jsstr \<Rightarrow> (billing_error, token \<times> lexer) result" where
  "readString_loop quote position i cs v =
     (case cs of
        [] \<Rightarrow> Inl (UnterminatedString (position + 1))
      | c # cs' \<Rightarrow>
          if c = quote then
            Inr (\<lparr>tok_type = TString, tok_value = v, tok_pos = position\<rparr>,
                 \<lparr>lx_index = i + 1, lx_rest = cs'\<rparr>)
          else if c = 10 \<or> c = 13 then Inl (UnterminatedString (position + 1))
          else if c \<noteq> 92 then readString_loop quote position (i + 1) cs' (v @ [c])
          else (case cs' of
                  [] \<Rightarrow> Inl (UnterminatedString (position + 1))
                | escaped # cs'' \<Rightarrow>
                    (case simpleEscapes escaped of
                       Some x \<Rightarrow> readString_loop quote position (i + 2) cs'' (v @ [x])
                     | None \<Rightarrow>
                         if escaped = 117 then
                           (let hex = take 4 cs'' in
                            if length hex = 4 \<and> list_all is_hex hex
                            then readString_loop quote position (i + 6) (drop 4 cs'')
                                   (v @ [val_in_base 16 hex])
                            else Inl (InvalidUnicodeEscape (i + 3)))
                         else Inl (InvalidStringEscape (i + 2)))))"
  by pat_completeness auto
termination
  by (relation "measure (\<lambda>(_, _, _, cs, _). length cs)") auto

declare readString_loop.simps [simp del]

definition readString :: "lexer \<Rightarrow> (billing_error, token \<times> lexer) result" where
  "readString s =
     readString_loop (hd (lx_rest s)) (lx_index s) (lx_index s + 1) (tl (lx_rest s)) []"

definition readIdentifier :: "lexer \<Rightarrow> (billing_error, token \<times> lexer) result" where
  "readIdentifier s =
     (let n = 1 + length (takeWhile (\<lambda>c. isIdentifierPart (Some c)) (tl (lx_rest s))) in
      Inr (\<lparr>tok_type = TIdentifier, tok_value = take n (lx_rest s), tok_pos = lx_index s\<rparr>,
           advance_lexer n s))"

definition two_character_symbols :: "jsstr list" where
  "two_character_symbols = map js [''&&'', ''||'', ''=='', ''!='', ''<='', ''>='', ''**'']"

definition one_character_symbols :: jsstr where
  "one_character_symbols = js ''+-*/%<>()?:,!''"

definition readSymbol :: "lexer \<Rightarrow> (billing_error, token \<times> lexer) result" where
  "readSymbol s =
     (let position = lx_index s; twoCharacter = take 2 (lx_rest s) in
      if twoCharacter \<in> set two_character_symbols then
        Inr (\<lparr>tok_type = TSymbol, tok_value = twoCharacter, tok_pos = position\<rparr>, advance_lexer 2 s)
      else if hd (lx_rest s) \<in> set one_character_symbols then
        Inr (\<lparr>tok_type = TSymbol, tok_value = [hd (lx_rest s)], tok_pos = position\<rparr>, advance_lexer 1 s)
      else Inl (UnexpectedCharacter (hd (lx_rest s)) (position + 1)))"

definition read_token :: "lexer \<Rightarrow> (billing_error, token \<times> lexer) result" where
  "read_token s =
     (let char = char_at 0 (lx_rest s) in
      if isDigit char \<or> (char = Some 46 \<and> isDigit (char_at 1 (lx_rest s))) then readNumber s
      else if char = Some 34 \<or> char = Some 39 then readString s
      else if isIdentifierStart char then readIdentifier s
      else readSymbol s)"

section \<open>What a token stream has to be: a segmentation of the source\<close>

text \<open>The body of a string literal between its quotes, and the value it denotes.\<close>

inductive string_body :: "code_unit \<Rightarrow> jsstr \<Rightarrow> jsstr \<Rightarrow> bool" for q where
  body_end: "string_body q [] []"
| body_char: "c \<notin> {q, 10, 13, 92} \<Longrightarrow> string_body q b v \<Longrightarrow> string_body q (c # b) (c # v)"
| body_simple: "simpleEscapes e = Some x \<Longrightarrow> string_body q b v \<Longrightarrow> string_body q (92 # e # b) (x # v)"
| body_unicode: "length h = 4 \<Longrightarrow> list_all is_hex h \<Longrightarrow> string_body q b v \<Longrightarrow>
     string_body q (92 # 117 # h @ b) (val_in_base 16 h # v)"

definition lexeme :: "token \<Rightarrow> jsstr \<Rightarrow> bool" where
  "lexeme t l = (case tok_type t of
       TNumber \<Rightarrow> l = tok_value t \<and> (\<exists>d. scan_decimal l = Some d \<and> decimal_text d = l)
                   \<and> is_finite (js_Number l)
     | TString \<Rightarrow> \<exists>q b. q \<in> {34, 39} \<and> l = q # b @ [q] \<and> string_body q b (tok_value t)
     | TIdentifier \<Rightarrow> l = tok_value t \<and> l \<noteq> [] \<and> isIdentifierStart (Some (hd l))
                   \<and> list_all (\<lambda>c. isIdentifierPart (Some c)) (tl l)
     | TSymbol \<Rightarrow> l = tok_value t \<and> (l \<in> set two_character_symbols
                   \<or> (\<exists>c \<in> set one_character_symbols. l = [c]))
     | TEof \<Rightarrow> False)"

definition eof_token :: "nat \<Rightarrow> token" where
  "eof_token n = \<lparr>tok_type = TEof, tok_value = [], tok_pos = n\<rparr>"

inductive segments :: "nat \<Rightarrow> jsstr \<Rightarrow> token list \<Rightarrow> bool" where
  seg_end: "list_all is_space w \<Longrightarrow> segments i w [eof_token (i + length w)]"
| seg_token: "list_all is_space w \<Longrightarrow> lexeme t l \<Longrightarrow> l \<noteq> [] \<Longrightarrow> tok_pos t = i + length w \<Longrightarrow>
     segments (i + length w + length l) s ts \<Longrightarrow> segments i (w @ l @ s) (t # ts)"

section \<open>Every read consumes one lexeme\<close>

definition consumes :: "lexer \<Rightarrow> jsstr \<Rightarrow> lexer \<Rightarrow> bool" where
  "consumes s l s' \<longleftrightarrow> lx_rest s = l @ lx_rest s' \<and> lx_index s' = lx_index s + length l"

lemma consumes_advance: "lx_rest s = l @ r \<Longrightarrow> consumes s l (advance_lexer (length l) s)"
  by (simp add: consumes_def advance_lexer_def)

lemma skipWhitespace_consumes:
  "consumes s (takeWhile is_space (lx_rest s)) (skipWhitespace s)"
  "list_all is_space (takeWhile is_space (lx_rest s))"
proof -
  show "consumes s (takeWhile is_space (lx_rest s)) (skipWhitespace s)"
    unfolding skipWhitespace_def
    by (rule consumes_advance [of s _ "dropWhile is_space (lx_rest s)"]) simp
  show "list_all is_space (takeWhile is_space (lx_rest s))"
    by (auto simp: list_all_iff dest: set_takeWhileD)
qed

lemma readNumber_reads:
  assumes "readNumber s = Inr (t, s')"
  shows "\<exists>l. l \<noteq> [] \<and> consumes s l s' \<and> lexeme t l \<and> tok_pos t = lx_index s"
proof -
  from assms obtain d where d: "scan_decimal (lx_rest s) = Some d"
    and fin: "is_finite (js_Number (decimal_text d))"
    and t: "t = \<lparr>tok_type = TNumber, tok_value = decimal_text d, tok_pos = lx_index s\<rparr>"
    and s': "s' = advance_lexer (length (decimal_text d)) s"
    by (auto simp: readNumber_def Let_def split: option.splits if_splits)
  obtain r where "lx_rest s = decimal_text d @ r" using scan_decimal_prefix [OF d] by blast
  then have "consumes s (decimal_text d) s'" unfolding s' by (rule consumes_advance)
  then show ?thesis
    using scan_decimal_nonempty [OF d] scan_decimal_idem [OF d] fin
    by (intro exI [of _ "decimal_text d"]) (auto simp: lexeme_def t)
qed

lemma readString_loop_reads:
  "readString_loop q p i cs v = Inr (t, s') \<Longrightarrow>
     \<exists>b w. cs = b @ q # lx_rest s' \<and> string_body q b w \<and> lx_index s' = i + length b + 1 \<and>
       t = \<lparr>tok_type = TString, tok_value = v @ w, tok_pos = p\<rparr>"
proof (induction q p i cs v rule: readString_loop.induct)
  case (1 q p i cs v)
  note step = "1.prems" [unfolded readString_loop.simps [of q p i cs v]]
  obtain c cs' where cs: "cs = c # cs'" using step by (cases cs) auto
  consider (quote) "c = q" | (plain) "c \<noteq> q" "c \<notin> {10, 13, 92}" | (escape) "c \<noteq> q" "c = 92"
    using step cs by (auto split: if_splits)
  then show ?case
  proof cases
    case quote
    with step cs show ?thesis
      by (intro exI [of _ "[]"]) (auto intro: string_body.intros)
  next
    case plain
    with step cs have "readString_loop q p (i + 1) cs' (v @ [c]) = Inr (t, s')" by simp
    from "1.IH"(1) [OF cs plain(1) _ _ this] plain obtain b w where
      "cs' = b @ q # lx_rest s'" "string_body q b w" "lx_index s' = i + 1 + length b + 1"
      "t = \<lparr>tok_type = TString, tok_value = (v @ [c]) @ w, tok_pos = p\<rparr>" by auto
    with cs plain show ?thesis
      by (intro exI [of _ "c # b"] exI [of _ "c # w"]) (auto intro: string_body.intros)
  next
    case escape
    with step cs obtain e cs'' where cs': "cs' = e # cs''" by (cases cs') (auto split: if_splits)
    show ?thesis
    proof (cases "simpleEscapes e")
      case (Some x)
      with step cs cs' escape have "readString_loop q p (i + 2) cs'' (v @ [x]) = Inr (t, s')" by simp
      from "1.IH"(3) [OF cs escape(1) _ _ cs' Some this] escape obtain b w where
        "cs'' = b @ q # lx_rest s'" "string_body q b w" "lx_index s' = i + 2 + length b + 1"
        "t = \<lparr>tok_type = TString, tok_value = (v @ [x]) @ w, tok_pos = p\<rparr>" by auto
      with cs cs' escape Some show ?thesis
        by (intro exI [of _ "92 # e # b"] exI [of _ "x # w"]) (auto intro: string_body.intros)
    next
      case None
      with step cs cs' escape have e: "e = 117" and h: "length (take 4 cs'') = 4" "list_all is_hex (take 4 cs'')"
        and rec: "readString_loop q p (i + 6) (drop 4 cs'') (v @ [val_in_base 16 (take 4 cs'')]) = Inr (t, s')"
        by (auto simp: Let_def split: if_splits)
      from "1.IH"(2) [OF cs escape(1) _ _ cs' None e refl _ rec] h escape obtain b w where
        "drop 4 cs'' = b @ q # lx_rest s'" "string_body q b w" "lx_index s' = i + 6 + length b + 1"
        "t = \<lparr>tok_type = TString, tok_value = (v @ [val_in_base 16 (take 4 cs'')]) @ w, tok_pos = p\<rparr>" by auto
      moreover from this(1) have "cs'' = take 4 cs'' @ b @ q # lx_rest s'" by (metis append_take_drop_id)
      ultimately show ?thesis
        using cs cs' escape e h string_body.body_unicode [OF h, of q b w]
        by (intro exI [of _ "92 # 117 # take 4 cs'' @ b"] exI [of _ "val_in_base 16 (take 4 cs'') # w"]) auto
    qed
  qed
qed

lemma readString_loop_step:
  "c \<notin> {q, 10, 13, 92} \<Longrightarrow>
     readString_loop q p i (c # cs) v = readString_loop q p (i + 1) cs (v @ [c])"
  "q \<noteq> 92 \<Longrightarrow> simpleEscapes e = Some x \<Longrightarrow>
     readString_loop q p i (92 # e # cs) v = readString_loop q p (i + 2) cs (v @ [x])"
  "q \<noteq> 92 \<Longrightarrow> length h = 4 \<Longrightarrow> list_all is_hex h \<Longrightarrow>
     readString_loop q p i (92 # 117 # h @ cs) v
       = readString_loop q p (i + 6) cs (v @ [val_in_base 16 h])"
  by (simp_all add: readString_loop.simps [of q p i] simpleEscapes_def [of 117])

lemma readString_loop_complete:
  assumes "string_body q b w" and q: "q \<in> {34, 39}"
  shows "readString_loop q p i (b @ q # r) v =
    Inr (\<lparr>tok_type = TString, tok_value = v @ w, tok_pos = p\<rparr>,
         \<lparr>lx_index = i + length b + 1, lx_rest = r\<rparr>)"
  using assms(1)
proof (induction arbitrary: i v rule: string_body.induct)
  case body_end
  then show ?case by (simp add: readString_loop.simps)
next
  case (body_char c b w)
  then show ?case by (simp add: readString_loop_step(1))
next
  case (body_simple e x b w)
  then show ?case using q by (auto simp: readString_loop_step(2))
next
  case (body_unicode h b w)
  then show ?case using q by (auto simp: readString_loop_step(3))
qed

lemma readString_reads:
  assumes "readString s = Inr (t, s')" "lx_rest s \<noteq> []" "hd (lx_rest s) \<in> {34, 39}"
  shows "\<exists>l. l \<noteq> [] \<and> consumes s l s' \<and> lexeme t l \<and> tok_pos t = lx_index s"
proof -
  obtain q cs where s: "lx_rest s = q # cs" using assms(2) by (cases "lx_rest s") auto
  from assms(1) s have "readString_loop q (lx_index s) (lx_index s + 1) cs [] = Inr (t, s')"
    by (simp add: readString_def)
  from readString_loop_reads [OF this] obtain b w where "cs = b @ q # lx_rest s'" "string_body q b w"
    "lx_index s' = lx_index s + 1 + length b + 1"
    "t = \<lparr>tok_type = TString, tok_value = w, tok_pos = lx_index s\<rparr>" by auto
  with s assms(3) show ?thesis
    by (intro exI [of _ "q # b @ [q]"]) (auto simp: consumes_def lexeme_def)
qed

lemma readIdentifier_reads:
  assumes "readIdentifier s = Inr (t, s')" "lx_rest s = c # cs" "isIdentifierStart (Some c)"
  shows "\<exists>l. l \<noteq> [] \<and> consumes s l s' \<and> lexeme t l \<and> tok_pos t = lx_index s"
proof -
  let ?ident = "takeWhile (\<lambda>c. isIdentifierPart (Some c)) cs"
  have "cs = ?ident @ dropWhile (\<lambda>c. isIdentifierPart (Some c)) cs" by simp
  then have "consumes s (c # ?ident) s'" "tok_value t = c # ?ident" "tok_type t = TIdentifier"
    "tok_pos t = lx_index s"
    using assms(1,2)
    by (auto simp: readIdentifier_def Let_def consumes_def advance_lexer_def takeWhile_eq_take [symmetric]
        dropWhile_eq_drop [symmetric])
  then show ?thesis
    using assms(3)
    by (intro exI [of _ "c # ?ident"]) (auto simp: lexeme_def list_all_iff dest: set_takeWhileD)
qed

lemma two_character_symbols_length: "l \<in> set two_character_symbols \<Longrightarrow> length l = 2"
  by (auto simp: two_character_symbols_def)

lemma readSymbol_reads:
  assumes "readSymbol s = Inr (t, s')" "lx_rest s = c # cs"
  shows "\<exists>l. l \<noteq> [] \<and> consumes s l s' \<and> lexeme t l \<and> tok_pos t = lx_index s"
proof (cases "take 2 (lx_rest s) \<in> set two_character_symbols")
  case True
  have "lx_rest s = take 2 (lx_rest s) @ drop 2 (lx_rest s)" by simp
  from consumes_advance [OF this] have "consumes s (take 2 (lx_rest s)) (advance_lexer 2 s)"
    using two_character_symbols_length [OF True] by simp
  with True assms show ?thesis
    using two_character_symbols_length [OF True]
    by (intro exI [of _ "take 2 (lx_rest s)"]) (auto simp: readSymbol_def lexeme_def)
next
  case False
  have "consumes s [c] (advance_lexer 1 s)"
    using consumes_advance [of s "[c]" cs] assms(2) by simp
  with False assms show ?thesis
    by (intro exI [of _ "[c]"]) (auto simp: readSymbol_def lexeme_def Let_def split: if_splits)
qed

lemma read_token_reads:
  assumes "read_token s = Inr (t, s')" "lx_rest s \<noteq> []"
  shows "\<exists>l. l \<noteq> [] \<and> consumes s l s' \<and> lexeme t l \<and> tok_pos t = lx_index s"
proof -
  obtain c cs where s: "lx_rest s = c # cs" using assms(2) by (cases "lx_rest s") auto
  have c: "char_at 0 (lx_rest s) = Some c" by (simp add: s char_at_def)
  consider "readNumber s = Inr (t, s')" | "c \<in> {34, 39}" "readString s = Inr (t, s')"
    | "isIdentifierStart (Some c)" "readIdentifier s = Inr (t, s')" | "readSymbol s = Inr (t, s')"
    using assms(1) c by (auto simp: read_token_def Let_def split: if_splits)
  then show ?thesis
    using s readString_reads readNumber_reads readIdentifier_reads readSymbol_reads
    by cases auto
qed

lemma read_token_shrinks:
  "read_token s = Inr (t, s') \<Longrightarrow> lx_rest s \<noteq> [] \<Longrightarrow> length (lx_rest s') < length (lx_rest s)"
  by (drule (1) read_token_reads) (auto simp: consumes_def)

lemma skipWhitespace_shrinks: "length (lx_rest (skipWhitespace s)) \<le> length (lx_rest s)"
  by (simp add: skipWhitespace_def advance_lexer_def)

section \<open>The main loop\<close>

function tokenize_loop :: "lexer \<Rightarrow> token list \<Rightarrow> (billing_error, token list) result" where
  "tokenize_loop s tokens =
     (if lx_rest s = [] then Inr (tokens @ [eof_token (lx_index s)])
      else let s1 = skipWhitespace s in
        if lx_rest s1 = [] then Inr (tokens @ [eof_token (lx_index s1)])
        else rbind (read_token s1) (\<lambda>(tok, s2).
          let tokens' = tokens @ [tok] in
          if MAX_TOKENS < length tokens' then Inl TooComplex
          else if lx_index s2 = lx_index s1 then Inl (UnexpectedCharacterAt (lx_index s2 + 1))
          else tokenize_loop s2 tokens'))"
  by pat_completeness auto
termination
proof (relation "measure (\<lambda>(s, _). length (lx_rest s))")
  fix s tokens x x' tok s2 tokens'
  assume "x = skipWhitespace s" "lx_rest x \<noteq> []" "read_token x = Inr x'" "(tok, s2) = x'"
  then have "length (lx_rest s2) < length (lx_rest x)" "length (lx_rest x) \<le> length (lx_rest s)"
    using read_token_shrinks [of x tok s2] skipWhitespace_shrinks [of s] by auto
  then show "((s2, tokens'), s, tokens) \<in> measure (\<lambda>(s, _). length (lx_rest s))" by simp
qed simp

declare tokenize_loop.simps [simp del]

definition tokenize :: "jsstr \<Rightarrow> (billing_error, token list) result" where
  "tokenize source = tokenize_loop \<lparr>lx_index = 0, lx_rest = source\<rparr> []"

section \<open>Properties\<close>

lemma tokenize_loop_segments:
  "tokenize_loop s tokens = Inr ts \<Longrightarrow>
     \<exists>ts'. ts = tokens @ ts' \<and> segments (lx_index s) (lx_rest s) ts'"
proof (induction s tokens rule: tokenize_loop.induct)
  case (1 s tokens)
  let ?w = "takeWhile is_space (lx_rest s)" and ?s1 = "skipWhitespace s"
  have w: "consumes s ?w ?s1" "list_all is_space ?w" by (rule skipWhitespace_consumes)+
  show ?case
  proof (cases "lx_rest ?s1 = []")
    case True
    with w have "lx_rest s = ?w" "lx_index ?s1 = lx_index s + length ?w" by (auto simp: consumes_def)
    with True w "1.prems" show ?thesis
      using segments.seg_end [OF w(2), of "lx_index s"]
      by (auto simp: tokenize_loop.simps [of s tokens] Let_def split: if_splits)
  next
    case False
    then have ne: "lx_rest s \<noteq> []" using w(1) by (auto simp: consumes_def)
    with False "1.prems" obtain t s2 where rt: "read_token ?s1 = Inr (t, s2)"
      and rec: "tokenize_loop s2 (tokens @ [t]) = Inr ts"
      and len: "\<not> MAX_TOKENS < length (tokens @ [t])" "lx_index s2 \<noteq> lx_index ?s1"
      by (auto simp: tokenize_loop.simps [of s tokens] Let_def split: if_splits)
    from "1.IH" [OF ne refl False rt refl refl len rec] obtain ts'
      where ts': "ts = tokens @ t # ts'" "segments (lx_index s2) (lx_rest s2) ts'" by auto
    from read_token_reads [OF rt False] obtain l where
      l: "l \<noteq> []" "consumes ?s1 l s2" "lexeme t l" "tok_pos t = lx_index ?s1" by blast
    have "segments (lx_index s) (?w @ l @ lx_rest s2) (t # ts')"
      using w l ts'(2) by (intro segments.seg_token) (auto simp: consumes_def)
    moreover have "lx_rest s = ?w @ l @ lx_rest s2" using w(1) l(2) by (auto simp: consumes_def)
    ultimately show ?thesis using ts'(1) by auto
  qed
qed

lemma tokenize_loop_length:
  "tokenize_loop s tokens = Inr ts \<Longrightarrow> length tokens \<le> MAX_TOKENS \<Longrightarrow> length ts \<le> MAX_TOKENS + 1"
proof (induction s tokens rule: tokenize_loop.induct)
  case (1 s tokens)
  show ?case
  proof (cases "lx_rest (skipWhitespace s) = [] \<or> lx_rest s = []")
    case True
    with "1.prems" show ?thesis by (auto simp: tokenize_loop.simps [of s tokens] Let_def split: if_splits)
  next
    case False
    with "1.prems" obtain t s2 where rt: "read_token (skipWhitespace s) = Inr (t, s2)"
      and rec: "tokenize_loop s2 (tokens @ [t]) = Inr ts"
      and len: "\<not> MAX_TOKENS < length (tokens @ [t])" "lx_index s2 \<noteq> lx_index (skipWhitespace s)"
      by (auto simp: tokenize_loop.simps [of s tokens] Let_def split: if_splits)
    with False show ?thesis using "1.IH" [OF _ refl _ rt refl refl len rec] by auto
  qed
qed

text \<open>What the parser relies on: one end-of-input token, in last position.\<close>

definition eof_terminated :: "token list \<Rightarrow> bool" where
  "eof_terminated ts \<longleftrightarrow> ts \<noteq> [] \<and> tok_type (last ts) = TEof \<and> tok_value (last ts) = []
     \<and> list_all (\<lambda>t. tok_type t \<noteq> TEof) (butlast ts)"

lemma lexeme_not_eof: "lexeme t l \<Longrightarrow> tok_type t \<noteq> TEof"
  by (auto simp: lexeme_def)

lemma segments_eof_terminated: "segments i s ts \<Longrightarrow> eof_terminated ts"
  by (induction rule: segments.induct)
    (auto simp: eof_terminated_def eof_token_def dest: lexeme_not_eof)

lemma segments_last_pos: "segments i s ts \<Longrightarrow> tok_pos (last ts) = i + length s"
  by (induction rule: segments.induct) (auto simp: eof_token_def elim: segments.cases)

lemma segments_pos_ge: "segments i s ts \<Longrightarrow> t \<in> set ts \<Longrightarrow> i \<le> tok_pos t"
  by (induction rule: segments.induct) (auto simp: eof_token_def)

lemma segments_sorted: "segments i s ts \<Longrightarrow> sorted_wrt (<) (map tok_pos ts)"
proof (induction rule: segments.induct)
  case (seg_token w t l i s ts)
  have "tok_pos t < tok_pos u" if "u \<in> set ts" for u
  proof -
    have "i + length w + length l \<le> tok_pos u" using segments_pos_ge [OF seg_token(5) that] .
    moreover have "0 < length l" using seg_token by simp
    ultimately show ?thesis using seg_token(4) by linarith
  qed
  with seg_token show ?case by simp
qed simp

lemma tokenize_eof_terminated: "tokenize src = Inr ts \<Longrightarrow> eof_terminated ts"
  using tokenize_loop_segments [of "\<lparr>lx_index = 0, lx_rest = src\<rparr>" "[]" ts] segments_eof_terminated
  by (auto simp: tokenize_def)

text \<open>
  C8. A successful run of the lexer cuts the source into white space and the exact text of each
  token: nothing else is skipped, positions increase strictly, the stream ends in one
  end-of-input token placed at the length of the source, and there are at most
  \<open>MAX_TOKENS\<close> tokens before it.
\<close>

theorem tokenize_segmentation:
  assumes "tokenize src = Inr ts"
  shows "segments 0 src ts \<and> sorted_wrt (<) (map tok_pos ts) \<and> eof_terminated ts
    \<and> tok_pos (last ts) = length src \<and> length ts \<le> MAX_TOKENS + 1"
proof (intro conjI)
  show seg: "segments 0 src ts"
    using tokenize_loop_segments [of "\<lparr>lx_index = 0, lx_rest = src\<rparr>" "[]" ts] assms
    by (auto simp: tokenize_def)
  show "sorted_wrt (<) (map tok_pos ts)" by (rule segments_sorted [OF seg])
  show "eof_terminated ts" by (rule segments_eof_terminated [OF seg])
  show "tok_pos (last ts) = length src" using segments_last_pos [OF seg] by simp
  show "length ts \<le> MAX_TOKENS + 1"
    using tokenize_loop_length [of _ "[]"] assms by (simp add: tokenize_def)
qed

lemmas lex_eval = tokenize_loop.simps skipWhitespace_def advance_lexer_def read_token_def
  char_at_def isDigit_def isIdentifierStart_def isIdentifierPart_def readNumber_def readString_def
  readString_loop.simps readIdentifier_def readSymbol_def two_character_symbols_def
  one_character_symbols_def eof_token_def MAX_TOKENS_def Let_def is_space_def is_digit_def

lemmas number_eval = scan_decimal_def scan_frac_def scan_exponent_def scan_sign_def decimal_text_def
  decimal_val_def exponent_val_def val_in_base_def digit_val_def js_Number_def js_Number_unsigned_def
  js_trim_def trim_start_def round_signed_def signed_zero_def signed_inf_def is_finite_def

lemma tokenize_sample:
  "tokenize (js ''p*2'') = Inr
     [\<lparr>tok_type = TIdentifier, tok_value = js ''p'', tok_pos = 0\<rparr>,
      \<lparr>tok_type = TSymbol, tok_value = js ''*'', tok_pos = 1\<rparr>,
      \<lparr>tok_type = TNumber, tok_value = js ''2'', tok_pos = 2\<rparr>,
      \<lparr>tok_type = TEof, tok_value = [], tok_pos = 3\<rparr>]"
  by (simp add: tokenize_def lex_eval number_eval)

theorem tokenize_segmentation_witness:
  "\<exists>ts. tokenize (js ''p*2'') = Inr ts \<and> segments 0 (js ''p*2'') ts \<and> length ts = 4"
  using tokenize_sample tokenize_segmentation [OF tokenize_sample] by auto

section \<open>String literals written by \<open>JSON.stringify\<close>\<close>

lemma is_hex_hex_digit: "n < 16 \<Longrightarrow> is_hex (hex_digit n)"
  by (auto simp: is_hex_def hex_digit_def is_digit_def)

lemma digit_val_hex_digit: "n < 16 \<Longrightarrow> digit_val (hex_digit n) = n"
  by (auto simp: digit_val_def hex_digit_def is_digit_def)

lemma val_hex_digits:
  "a < 16 \<Longrightarrow> b < 16 \<Longrightarrow> d < 16 \<Longrightarrow> e < 16 \<Longrightarrow>
     val_in_base 16 [hex_digit a, hex_digit b, hex_digit d, hex_digit e] = 16 * (16 * (16 * a + b) + d) + e"
  by (simp add: val_in_base_def digit_val_hex_digit)

lemma val_unicode_escape:
  assumes "c < 65536"
  shows "val_in_base 16 [hex_digit (c div 4096 mod 16), hex_digit (c div 256 mod 16),
    hex_digit (c div 16 mod 16), hex_digit (c mod 16)] = c"
proof -
  have "16 * (16 * (16 * (c div 4096 mod 16) + c div 256 mod 16) + c div 16 mod 16) + c mod 16 = c"
  proof -
    have "c div 256 = c div 16 div 16" "c div 4096 = c div 16 div 16 div 16"
      by (simp_all add: div_mult2_eq [symmetric])
    moreover have "c div 4096 mod 16 = c div 4096" using assms by (simp add: less_mult_imp_div_less)
    moreover have "16 * (c div 16) + c mod 16 = c" "16 * (c div 16 div 16) + c div 16 mod 16 = c div 16"
      "16 * (c div 16 div 16 div 16) + c div 16 div 16 mod 16 = c div 16 div 16" by simp_all
    ultimately show ?thesis by simp
  qed
  moreover have lt: "x mod 16 < 16" for x :: nat by simp
  ultimately show ?thesis by (simp only: val_hex_digits [OF lt lt lt lt])
qed

lemma string_body_escape_unit:
  assumes "c < 65536" "string_body 34 b v"
  shows "string_body 34 (json_escape_unit c @ b) (c # v)"
proof -
  have esc: "string_body 34 (unicode_escape c @ b) (c # v)"
    using string_body.body_unicode [OF _ _ assms(2), of "drop 2 (unicode_escape c)"]
      val_unicode_escape [OF assms(1)] by (simp add: unicode_escape_def is_hex_hex_digit)
  have simple: "string_body 34 (92 # e # b) (x # v)" if "simpleEscapes e = Some x" for e x
    using that assms(2) by (rule string_body.body_simple)
  have "c \<notin> {34, 10, 13, 92} \<Longrightarrow> string_body 34 (c # b) (c # v)"
    using assms(2) by (intro string_body.body_char) auto
  with esc simple show ?thesis
    by (auto simp: json_escape_unit_def simpleEscapes_def)
qed

lemma string_body_json_escape:
  "\<forall>c \<in> set v. c < 65536 \<Longrightarrow> string_body 34 (json_escape v) v"
proof (induction v rule: json_escape.induct)
  case 1
  then show ?case by (simp add: string_body.body_end)
next
  case (2 c)
  then show ?case using string_body_escape_unit [of c "[]" "[]"] by (simp add: string_body.body_end)
next
  case (3 c d cs)
  show ?case
  proof (cases "is_lead c \<and> is_trail d")
    case True
    with "3.IH"(1) "3.prems" show ?thesis
      by (auto intro!: string_body.body_char simp: is_lead_def is_trail_def)
  next
    case False
    with "3.IH"(2) "3.prems" have "string_body 34 (json_escape (d # cs)) (d # cs)" by auto
    with False "3.prems" show ?thesis by (auto simp: string_body_escape_unit)
  qed
qed

text \<open>
  C10. The lexer inverts \<open>JSON.stringify\<close> on strings: for every string of code units the quoted and
  escaped form is read as a single string token whose value is the original string.  The pricing
  editor writes tier names and request-rule operands in exactly this form.
\<close>

theorem tokenize_json_quote:
  assumes "\<forall>c \<in> set v. c < 65536"
  shows "tokenize (json_quote v) = Inr
    [\<lparr>tok_type = TString, tok_value = v, tok_pos = 0\<rparr>, eof_token (length (json_quote v))]"
proof -
  have "readString_loop 34 0 1 (json_escape v @ [34]) [] =
    Inr (\<lparr>tok_type = TString, tok_value = v, tok_pos = 0\<rparr>,
         \<lparr>lx_index = 1 + length (json_escape v) + 1, lx_rest = []\<rparr>)"
    using readString_loop_complete [OF string_body_json_escape [OF assms], of 0 1 "[]" "[]"] by simp
  then have "read_token \<lparr>lx_index = 0, lx_rest = json_quote v\<rparr> =
    Inr (\<lparr>tok_type = TString, tok_value = v, tok_pos = 0\<rparr>,
         \<lparr>lx_index = length (json_quote v), lx_rest = []\<rparr>)"
    by (simp add: read_token_def json_quote_def char_at_def isDigit_def readString_def Let_def)
  moreover have "skipWhitespace \<lparr>lx_index = 0, lx_rest = json_quote v\<rparr> = \<lparr>lx_index = 0, lx_rest = json_quote v\<rparr>"
    by (simp add: skipWhitespace_def advance_lexer_def json_quote_def is_space_def)
  moreover have "json_quote v \<noteq> []" by (simp add: json_quote_def)
  ultimately show ?thesis
    by (simp add: tokenize_def tokenize_loop.simps MAX_TOKENS_def Let_def)
qed

theorem tokenize_json_quote_witness:
  "tokenize (json_quote [97, 34, 10, 20013]) = Inr
    [\<lparr>tok_type = TString, tok_value = [97, 34, 10, 20013], tok_pos = 0\<rparr>,
     eof_token (length (json_quote [97, 34, 10, 20013]))]
   \<and> json_quote [97, 34, 10, 20013] = [34, 97, 92, 34, 92, 110, 20013, 34]"
  using tokenize_json_quote [of "[97, 34, 10, 20013]"]
  by (simp add: json_quote_def json_escape_unit_def is_lead_def is_trail_def)

end
