(* ===== verification/BillingParser.thy ===== *)
theory BillingParser
  imports BillingTokenizer
begin

text \<open>
  The recursive-descent parser of billing expressions: \<open>BillingExpressionParser\<close> of
  \<open>web/src/features/pricing/lib/billing-expression-evaluator.ts\<close>.  The parser's state is
  the list of tokens from the current index on and the nesting depth.  A read past the end of the
  token list (where the code would dereference \<open>undefined\<close>) is the error \<open>UndefinedToken\<close>.
  Recursion is bounded by fuel; \<open>parse\<close> supplies ten units per token, and the theorems show that
  this is always enough, that the end of the list is never passed on a lexer's output, and
  that an accepted expression is derived by the operator-precedence grammar.
\<close>

section \<open>Syntax trees\<close>

datatype expr_value = VNum number | VStr jsstr | VBool bool

datatype unary_op = UPlus | UMinus | UNot

datatype binary_op =
    BAdd | BSub | BMul | BPow | BDiv | BMod
  | BLt | BLe | BGt | BGe | BEq | BNe | BAnd | BOr

datatype expr =
    Literal expr_value
  | Identifier jsstr
  | Unary unary_op expr
  | Binary binary_op expr expr
  | Conditional expr expr expr
  | Call jsstr "expr list"

section \<open>Parser state and token access\<close>

record parser =
  ps_rest :: "token list"
  ps_depth :: nat

type_synonym 'a parse_fun = "parser \<Rightarrow> (billing_error, 'a \<times> parser) result"

definition current :: "parser \<Rightarrow> (billing_error, token) result" where
  "current st = (case ps_rest st of [] \<Rightarrow> Inl UndefinedToken | t # _ \<Rightarrow> Inr t)"

definition advance :: "token parse_fun" where
  "advance st = rbind (current st) (\<lambda>t.
     Inr (t, if tok_type t \<noteq> TEof then st\<lparr>ps_rest := tl (ps_rest st)\<rparr> else st))"

definition check :: "jsstr \<Rightarrow> parser \<Rightarrow> (billing_error, bool) result" where
  "check v st = rbind (current st) (\<lambda>t. Inr (tok_value t = v))"

definition consume :: "jsstr \<Rightarrow> bool parse_fun" where
  "consume v st = rbind (check v st) (\<lambda>b.
     if \<not> b then Inr (False, st) else rbind (advance st) (\<lambda>(_, st'). Inr (True, st')))"

definition expect :: "jsstr \<Rightarrow> unit parse_fun" where
  "expect v st = rbind (consume v st) (\<lambda>(b, st').
     if b then Inr ((), st')
     else rbind (current st') (\<lambda>t. Inl (ExpectedSymbol v (tok_pos t + 1))))"

definition withDepth :: "'a parse_fun \<Rightarrow> 'a parse_fun" where
  "withDepth p st =
     (let d = ps_depth st + 1 in
      if MAX_PARSE_DEPTH < d then Inl NestingTooDeep
      else rbind (p (st\<lparr>ps_depth := d\<rparr>)) (\<lambda>(x, st'). Inr (x, st'\<lparr>ps_depth := ps_depth st' - 1\<rparr>)))"

lemma withDepth_cong [fundef_cong]:
  "st = st' \<Longrightarrow> (\<And>s. p s = q s) \<Longrightarrow> withDepth p st = withDepth q st'"
  by (simp add: withDepth_def)

section \<open>Operators of each level\<close>

definition or_op :: "jsstr \<Rightarrow> binary_op option" where
  "or_op v = (if v = js ''||'' then Some BOr else None)"

definition and_op :: "jsstr \<Rightarrow> binary_op option" where
  "and_op v = (if v = js ''&&'' then Some BAnd else None)"

definition equality_op :: "jsstr \<Rightarrow> binary_op option" where
  "equality_op v = (if v = js ''=='' then Some BEq else if v = js ''!='' then Some BNe else None)"

definition comparison_op :: "jsstr \<Rightarrow> binary_op option" where
  "comparison_op v = (if v = js ''<'' then Some BLt else if v = js ''<='' then Some BLe
     else if v = js ''>'' then Some BGt else if v = js ''>='' then Some BGe else None)"

definition additive_op :: "jsstr \<Rightarrow> binary_op option" where
  "additive_op v = (if v = js ''+'' then Some BAdd else if v = js ''-'' then Some BSub else None)"

definition multiplicative_op :: "jsstr \<Rightarrow> binary_op option" where
  "multiplicative_op v = (if v = js ''*'' then Some BMul else if v = js ''/'' then Some BDiv
     else if v = js ''%'' then Some BMod else None)"

definition unary_op_of :: "jsstr \<Rightarrow> unary_op option" where
  "unary_op_of v = (if v = js ''+'' then Some UPlus else if v = js ''-'' then Some UMinus
     else if v = js ''!'' then Some UNot else None)"

text \<open>
  The loop shared by the left-associative levels: while the current token spells an operator of
  the level, take it, parse one more operand and extend the tree to the left.
\<close>

fun binary_loop ::
  "nat \<Rightarrow> (jsstr \<Rightarrow> binary_op option) \<Rightarrow> expr parse_fun \<Rightarrow> expr \<Rightarrow> expr parse_fun" where
  "binary_loop 0 ops operand e st = Inl OutOfFuel"
| "binary_loop (Suc n) ops operand e st =
     rbind (current st) (\<lambda>t.
       case ops (tok_value t) of
         None \<Rightarrow> Inr (e, st)
       | Some operator \<Rightarrow>
           rbind (advance st) (\<lambda>(_, st1).
           rbind (operand st1) (\<lambda>(r, st2).
           binary_loop n ops operand (Binary operator e r) st2)))"

lemma binary_loop_cong [fundef_cong]:
  assumes "n = m" "ops = ops'" "e = e'" "st = st'" "\<And>s. operand s = operand' s"
  shows "binary_loop n ops operand e st = binary_loop m ops' operand' e' st'"
proof -
  have "operand = operand'" using assms(5) by auto
  with assms show ?thesis by simp
qed

text \<open>The \<open>do ... while (consume(','))\<close> loop that reads call arguments.\<close>

fun argument_loop :: "nat \<Rightarrow> expr parse_fun \<Rightarrow> expr list \<Rightarrow> (expr list) parse_fun" where
  "argument_loop 0 p acc st = Inl OutOfFuel"
| "argument_loop (Suc n) p acc st =
     rbind (p st) (\<lambda>(e, st1).
     rbind (consume (js '','') st1) (\<lambda>(more, st2).
     if more then argument_loop n p (acc @ [e]) st2 else Inr (acc @ [e], st2)))"

lemma argument_loop_cong [fundef_cong]:
  assumes "n = m" "acc = acc'" "st = st'" "\<And>s. p s = p' s"
  shows "argument_loop n p acc st = argument_loop m p' acc' st'"
proof -
  have "p = p'" using assms(4) by auto
  with assms show ?thesis by simp
qed

section \<open>Recursive descent\<close>

fun parseConditional :: "nat \<Rightarrow> expr parse_fun"
  and parseLogicalOr :: "nat \<Rightarrow> expr parse_fun"
  and parseLogicalAnd :: "nat \<Rightarrow> expr parse_fun"
  and parseEquality :: "nat \<Rightarrow> expr parse_fun"
  and parseComparison :: "nat \<Rightarrow> expr parse_fun"
  and parseAdditive :: "nat \<Rightarrow> expr parse_fun"
  and parseMultiplicative :: "nat \<Rightarrow> expr parse_fun"
  and parseUnary :: "nat \<Rightarrow> expr parse_fun"
  and parseExponentiation :: "nat \<Rightarrow> expr parse_fun"
  and parsePrimary :: "nat \<Rightarrow> expr parse_fun"
where
  "parseConditional n st =
     (case n of 0 \<Rightarrow> Inl OutOfFuel | Suc m \<Rightarrow>
      rbind (parseLogicalOr m st) (\<lambda>(condition, st1).
      rbind (consume (js ''?'') st1) (\<lambda>(q, st2).
      if \<not> q then Inr (condition, st2)
      else withDepth (\<lambda>s.
        rbind (parseConditional m s) (\<lambda>(consequent, s1).
        rbind (expect (js '':'') s1) (\<lambda>(_, s2).
        rbind (parseConditional m s2) (\<lambda>(alternate, s3).
        Inr (Conditional condition consequent alternate, s3))))) st2)))"
| "parseLogicalOr n st =
     (case n of 0 \<Rightarrow> Inl OutOfFuel | Suc m \<Rightarrow>
      rbind (parseLogicalAnd m st) (\<lambda>(e, st1). binary_loop m or_op (\<lambda>s. parseLogicalAnd m s) e st1))"
| "parseLogicalAnd n st =
     (case n of 0 \<Rightarrow> Inl OutOfFuel | Suc m \<Rightarrow>
      rbind (parseEquality m st) (\<lambda>(e, st1). binary_loop m and_op (\<lambda>s. parseEquality m s) e st1))"
| "parseEquality n st =
     (case n of 0 \<Rightarrow> Inl OutOfFuel | Suc m \<Rightarrow>
      rbind (parseComparison m st) (\<lambda>(e, st1). binary_loop m equality_op (\<lambda>s. parseComparison m s) e st1))"
| "parseComparison n st =
     (case n of 0 \<Rightarrow> Inl OutOfFuel | Suc m \<Rightarrow>
      rbind (parseAdditive m st) (\<lambda>(e, st1). binary_loop m comparison_op (\<lambda>s. parseAdditive m s) e st1))"
| "parseAdditive n st =
     (case n of 0 \<Rightarrow> Inl OutOfFuel | Suc m \<Rightarrow>
      rbind (parseMultiplicative m st) (\<lambda>(e, st1).
        binary_loop m additive_op (\<lambda>s. parseMultiplicative m s) e st1))"
| "parseMultiplicative n st =
     (case n of 0 \<Rightarrow> Inl OutOfFuel | Suc m \<Rightarrow>
      rbind (parseUnary m st) (\<lambda>(e, st1). binary_loop m multiplicative_op (\<lambda>s. parseUnary m s) e st1))"
| "parseUnary n st =
     (case n of 0 \<Rightarrow> Inl OutOfFuel | Suc m \<Rightarrow>
      rbind (current st) (\<lambda>t.
      case unary_op_of (tok_value t) of
        Some operator \<Rightarrow>
          rbind (advance st) (\<lambda>(_, st1).
          withDepth (\<lambda>s. rbind (parseUnary m s) (\<lambda>(e, s1). Inr (Unary operator e, s1))) st1)
      | None \<Rightarrow> parseExponentiation m st))"
| "parseExponentiation n st =
     (case n of 0 \<Rightarrow> Inl OutOfFuel | Suc m \<Rightarrow>
      rbind (parsePrimary m st) (\<lambda>(e, st1).
      rbind (consume (js ''**'') st1) (\<lambda>(b, st2).
      if \<not> b then Inr (e, st2)
      else withDepth (\<lambda>s. rbind (parseUnary m s) (\<lambda>(r, s1). Inr (Binary BPow e r, s1))) st2)))"
| "parsePrimary n st =
     (case n of 0 \<Rightarrow> Inl OutOfFuel | Suc m \<Rightarrow>
      rbind (advance st) (\<lambda>(t, st1).
      if tok_type t = TNumber then Inr (Literal (VNum (js_Number (tok_value t))), st1)
      else if tok_type t = TString then Inr (Literal (VStr (tok_value t)), st1)
      else if tok_type t = TIdentifier then
        (if tok_value t = js ''true'' \<or> tok_value t = js ''false''
         then Inr (Literal (VBool (tok_value t = js ''true'')), st1)
         else rbind (consume (js ''('') st1) (\<lambda>(b, st2).
           if \<not> b then Inr (Identifier (tok_value t), st2)
           else withDepth (\<lambda>s.
             rbind (check (js '')'') s) (\<lambda>closed.
             rbind (if closed then Inr ([], s) else argument_loop m (\<lambda>s. parseConditional m s) [] s)
               (\<lambda>(argumentsList, s1).
             rbind (expect (js '')'') s1) (\<lambda>(_, s2).
             Inr (Call (tok_value t) argumentsList, s2))))) st2))
      else if tok_value t = js ''('' then
        withDepth (\<lambda>s.
          rbind (parseConditional m s) (\<lambda>(e, s1).
          rbind (expect (js '')'') s1) (\<lambda>(_, s2). Inr (e, s2)))) st1
      else Inl (UnexpectedToken
                 (if tok_type t = TEof then js ''end of expression'' else tok_value t)
                 (tok_pos t + 1))))"

lemmas parse_unfold =
  parseConditional.simps parseLogicalOr.simps parseLogicalAnd.simps parseEquality.simps
  parseComparison.simps parseAdditive.simps parseMultiplicative.simps parseUnary.simps
  parseExponentiation.simps parsePrimary.simps

declare parse_unfold [simp del]

definition parse_fuel :: "token list \<Rightarrow> nat" where
  "parse_fuel tokens = 10 * length tokens"

definition parse :: "token list \<Rightarrow> (billing_error, expr) result" where
  "parse tokens =
     rbind (parseConditional (parse_fuel tokens) \<lparr>ps_rest = tokens, ps_depth = 0\<rparr>) (\<lambda>(expression, st).
     rbind (current st) (\<lambda>trailing.
     if tok_type trailing \<noteq> TEof
     then Inl (UnexpectedToken (tok_value trailing) (tok_pos trailing + 1))
     else Inr expression))"

section \<open>Termination: the fuel is enough and the token list is never overrun\<close>

text \<open>
  \<open>stays k r\<close>: the result \<open>r\<close> is no fuel or overrun error, and a successful one leaves at most
  \<open>k\<close> tokens, still ending in one end-of-input token.  \<open>good L p\<close>: on at most \<open>L\<close> remaining
  tokens \<open>p\<close> behaves so and consumes at least one token.
\<close>

definition stays :: "nat \<Rightarrow> (billing_error, 'a \<times> parser) result \<Rightarrow> bool" where
  "stays k r = (case r of
       Inl e \<Rightarrow> e \<noteq> OutOfFuel \<and> e \<noteq> UndefinedToken
     | Inr (_, st') \<Rightarrow> eof_terminated (ps_rest st') \<and> length (ps_rest st') \<le> k)"

definition good :: "nat \<Rightarrow> 'a parse_fun \<Rightarrow> bool" where
  "good L p \<longleftrightarrow> (\<forall>st. eof_terminated (ps_rest st) \<longrightarrow> length (ps_rest st) \<le> L \<longrightarrow>
     stays (length (ps_rest st) - 1) (p st))"

lemma stays_Inl [simp]: "stays k (Inl e) \<longleftrightarrow> e \<noteq> OutOfFuel \<and> e \<noteq> UndefinedToken"
  by (simp add: stays_def)

lemma stays_Inr [simp]:
  "stays k (Inr (x, st')) \<longleftrightarrow> eof_terminated (ps_rest st') \<and> length (ps_rest st') \<le> k"
  by (simp add: stays_def)

lemma stays_bind:
  assumes "stays k m"
    and "\<And>x st'. m = Inr (x, st') \<Longrightarrow> eof_terminated (ps_rest st') \<Longrightarrow> length (ps_rest st') \<le> k \<Longrightarrow>
      stays j (f (x, st'))"
  shows "stays j (rbind m f)"
  using assms by (cases m) auto

lemma stays_mono: "stays k r \<Longrightarrow> k \<le> j \<Longrightarrow> stays j r"
  by (cases r) auto

lemma goodD:
  "good L p \<Longrightarrow> eof_terminated (ps_rest st) \<Longrightarrow> length (ps_rest st) \<le> L \<Longrightarrow>
     length (ps_rest st) \<le> Suc k \<Longrightarrow> stays k (p st)"
  unfolding good_def by (rule stays_mono [of "length (ps_rest st) - 1"]) auto

lemma goodI:
  "(\<And>st. eof_terminated (ps_rest st) \<Longrightarrow> length (ps_rest st) \<le> L \<Longrightarrow>
     stays (length (ps_rest st) - 1) (p st)) \<Longrightarrow> good L p"
  by (simp add: good_def)

lemma good_0: "good 0 p"
  by (auto simp: good_def eof_terminated_def)

lemma eof_terminated_current: "eof_terminated (ps_rest st) \<Longrightarrow> \<exists>t. current st = Inr t"
  by (cases "ps_rest st") (auto simp: eof_terminated_def current_def)

lemma stays_advance: "eof_terminated (ps_rest st) \<Longrightarrow> stays (length (ps_rest st)) (advance st)"
  by (cases "ps_rest st") (auto simp: advance_def current_def eof_terminated_def split: if_splits)

lemma advance_shrinks:
  "eof_terminated (ps_rest st) \<Longrightarrow> advance st = Inr (t, st') \<Longrightarrow> tok_type t \<noteq> TEof \<Longrightarrow>
     length (ps_rest st') < length (ps_rest st)"
  by (cases "ps_rest st") (auto simp: advance_def current_def split: if_splits)

lemma stays_consume: "eof_terminated (ps_rest st) \<Longrightarrow> stays (length (ps_rest st)) (consume v st)"
  using eof_terminated_current [of st]
  by (auto simp: consume_def check_def intro!: stays_bind [OF stays_advance])

lemma stays_expect: "eof_terminated (ps_rest st) \<Longrightarrow> stays (length (ps_rest st)) (expect v st)"
  unfolding expect_def
  by (rule stays_bind [OF stays_consume]) (auto dest: eof_terminated_current)

lemma stays_withDepth:
  "stays k (p (st\<lparr>ps_depth := ps_depth st + 1\<rparr>)) \<Longrightarrow> stays k (withDepth p st)"
  unfolding withDepth_def Let_def by (auto intro: stays_bind)

lemma stays_binary_loop:
  assumes "good L operand"
  shows "eof_terminated (ps_rest st) \<Longrightarrow> length (ps_rest st) \<le> L \<Longrightarrow> length (ps_rest st) \<le> n \<Longrightarrow>
    stays (length (ps_rest st)) (binary_loop n ops operand e st)"
proof (induction n arbitrary: e st)
  case 0
  then show ?case by (simp add: eof_terminated_def)
next
  case (Suc n)
  obtain t where t: "current st = Inr t" using eof_terminated_current Suc.prems by blast
  show ?case
  proof (cases "ops (tok_value t)")
    case None
    with t Suc.prems show ?thesis by simp
  next
    case (Some operator)
    have "stays (length (ps_rest st)) (rbind (advance st) (\<lambda>(_, st1).
        rbind (operand st1) (\<lambda>(r, st2). binary_loop n ops operand (Binary operator e r) st2)))"
    proof (rule stays_bind [OF stays_advance [OF Suc.prems(1)]], clarsimp)
      fix st1 :: parser assume st1: "eof_terminated (ps_rest st1)" "length (ps_rest st1) \<le> length (ps_rest st)"
      show "stays (length (ps_rest st)) (rbind (operand st1)
          (\<lambda>(r, st2). binary_loop n ops operand (Binary operator e r) st2))"
      proof (rule stays_bind [of "length (ps_rest st1) - 1"])
        show "stays (length (ps_rest st1) - 1) (operand st1)"
          using assms st1 Suc.prems by (intro goodD [of L]) auto
        fix r and st2 :: parser assume "eof_terminated (ps_rest st2)" "length (ps_rest st2) \<le> length (ps_rest st1) - 1"
        moreover from this st1 Suc.prems have "length (ps_rest st2) \<le> L" "length (ps_rest st2) \<le> n"
          "length (ps_rest st2) \<le> length (ps_rest st)" by linarith+
        ultimately show "stays (length (ps_rest st))
            ((\<lambda>(r, st2). binary_loop n ops operand (Binary operator e r) st2) (r, st2))"
          using Suc.IH [of st2] by (auto intro: stays_mono)
      qed
    qed
    with t Some show ?thesis by simp
  qed
qed

lemma stays_argument_loop:
  assumes "good L p"
  shows "eof_terminated (ps_rest st) \<Longrightarrow> length (ps_rest st) \<le> L \<Longrightarrow> length (ps_rest st) \<le> n \<Longrightarrow>
    stays (length (ps_rest st) - 1) (argument_loop n p acc st)"
proof (induction n arbitrary: acc st)
  case 0
  then show ?case by (simp add: eof_terminated_def)
next
  case (Suc n)
  show ?case unfolding argument_loop.simps
  proof (rule stays_bind [of "length (ps_rest st) - 1"], goal_cases)
    case 1
    then show ?case using assms Suc.prems by (intro goodD [of L]) auto
  next
    case (2 e st1)
    show ?case unfolding prod.case
    proof (rule stays_bind [OF stays_consume [OF 2(2)]], clarsimp)
      fix more and st2 :: parser
      assume st2: "eof_terminated (ps_rest st2)" "length (ps_rest st2) \<le> length (ps_rest st1)"
      then have "length (ps_rest st2) \<le> L" "length (ps_rest st2) \<le> n"
        "length (ps_rest st2) - 1 \<le> length (ps_rest st) - 1" "length (ps_rest st2) \<le> length (ps_rest st) - 1"
        using 2 Suc.prems by linarith+
      with st2 Suc.IH [of st2 "acc @ [e]"]
      show "(more \<longrightarrow> stays (length (ps_rest st) - Suc 0) (argument_loop n p (acc @ [e]) st2)) \<and>
            (\<not> more \<longrightarrow> length (ps_rest st2) \<le> length (ps_rest st) - Suc 0)"
        by (auto intro: stays_mono)
    qed
  qed
qed

text \<open>The fuel a level needs on \<open>L\<close> tokens: ten units per token, less one per level below the top.\<close>

lemma good_binary_level:
  assumes operand: "good L operand" and n: "L \<le> m"
    and p: "\<And>st. p st = rbind (operand st) (\<lambda>(e, st1). binary_loop m ops operand e st1)"
  shows "good L p"
proof (rule goodI)
  fix st :: parser assume st: "eof_terminated (ps_rest st)" "length (ps_rest st) \<le> L"
  show "stays (length (ps_rest st) - 1) (p st)" unfolding p
  proof (rule stays_bind [of "length (ps_rest st) - 1"], goal_cases)
    case 1
    then show ?case using operand st by (intro goodD [of L]) auto
  next
    case (2 e st1)
    then have "stays (length (ps_rest st1)) (binary_loop m ops operand e st1)"
      using st n by (intro stays_binary_loop [OF operand]) auto
    with 2 show ?case by (auto intro: stays_mono)
  qed
qed

lemma advance_eof_value:
  "eof_terminated (ps_rest st) \<Longrightarrow> advance st = Inr (t, st') \<Longrightarrow> tok_type t = TEof \<Longrightarrow> tok_value t = []"
  by (cases "ps_rest st") (auto simp: advance_def current_def eof_terminated_def split: if_splits)

lemma stays_paren:
  assumes cond: "good L (\<lambda>s. parseConditional m s)"
    and st: "eof_terminated (ps_rest st)" "length (ps_rest st) \<le> L"
  shows "stays (length (ps_rest st)) (withDepth (\<lambda>s. rbind (parseConditional m s) (\<lambda>(e, s1).
    rbind (expect v s1) (\<lambda>(_, s2). Inr (f e, s2)))) st)"
proof (rule stays_withDepth, rule stays_bind [of "length (ps_rest st)"], goal_cases)
  case 1
  then show ?case using st by (intro goodD [OF cond]) auto
next
  case (2 e s1)
  then show ?case by (auto intro!: stays_bind [OF stays_expect])
qed

lemma stays_call:
  assumes cond: "good L (\<lambda>s. parseConditional m s)" and m: "L \<le> m"
    and st: "eof_terminated (ps_rest st)" "length (ps_rest st) \<le> L"
  shows "stays (length (ps_rest st)) (withDepth (\<lambda>s.
    rbind (check v s) (\<lambda>closed.
    rbind (if closed then Inr ([], s) else argument_loop m (\<lambda>s. parseConditional m s) [] s) (\<lambda>(args, s1).
    rbind (expect w s1) (\<lambda>(_, s2). Inr (f args, s2))))) st)"
proof (rule stays_withDepth)
  let ?s = "st\<lparr>ps_depth := ps_depth st + 1\<rparr>"
  obtain t where t: "current ?s = Inr t" using eof_terminated_current [of ?s] st by auto
  have "stays (length (ps_rest st))
      (if c then Inr ([], ?s) else argument_loop m (\<lambda>s. parseConditional m s) [] ?s)" for c
    using stays_argument_loop [OF cond, of ?s m "[]"] st m by (auto intro: stays_mono)
  then show "stays (length (ps_rest st)) (rbind (check v ?s) (\<lambda>closed.
    rbind (if closed then Inr ([], ?s) else argument_loop m (\<lambda>s. parseConditional m s) [] ?s) (\<lambda>(args, s1).
    rbind (expect w s1) (\<lambda>(_, s2). Inr (f args, s2)))))"
    unfolding check_def t rbind_Inr
    by (rule stays_bind) (auto intro!: stays_bind [OF stays_expect])
qed

lemma good_primary:
  assumes cond: "good L (\<lambda>s. parseConditional m s)" and m: "L \<le> m"
  shows "good (Suc L) (\<lambda>s. parsePrimary (Suc m) s)"
proof (rule goodI)
  fix st :: parser assume st: "eof_terminated (ps_rest st)" "length (ps_rest st) \<le> Suc L"
  show "stays (length (ps_rest st) - 1) (parsePrimary (Suc m) st)"
    unfolding parsePrimary.simps nat.case
  proof (rule stays_bind [OF stays_advance [OF st(1)]], goal_cases)
    case (1 t st1)
    show ?case
    proof (cases "tok_type t = TEof")
      case True
      with advance_eof_value [OF st(1) 1(1)] show ?thesis by simp
    next
      case False
      then have len: "length (ps_rest st1) \<le> length (ps_rest st) - 1" "length (ps_rest st1) \<le> L"
        using advance_shrinks [OF st(1) 1(1)] st by auto
      have paren: "stays (length (ps_rest st) - 1) (withDepth (\<lambda>s. rbind (parseConditional m s) (\<lambda>(e, s1).
          rbind (expect (js '')'') s1) (\<lambda>(_, s2). Inr (e, s2)))) st1)"
        using stays_paren [OF cond 1(2) len(2)] len(1) by (rule stays_mono)
      have call: "stays (length (ps_rest st) - 1) (withDepth (\<lambda>s.
          rbind (check (js '')'') s) (\<lambda>closed.
          rbind (if closed then Inr ([], s) else argument_loop m (\<lambda>s. parseConditional m s) [] s) (\<lambda>(args, s1).
          rbind (expect (js '')'') s1) (\<lambda>(_, s2). Inr (Call (tok_value t) args, s2))))) st2)"
        if "eof_terminated (ps_rest st2)" "length (ps_rest st2) \<le> length (ps_rest st1)" for st2 :: parser
        by (rule stays_mono [OF stays_call [OF cond m that(1)]]) (use that len in linarith)+
      show ?thesis
        using 1 len paren call False unfolding prod.case
        by (auto intro!: stays_bind [OF stays_consume] simp del: js_Cons js_Nil)
    qed
  qed
qed

lemma good_exponentiation:
  assumes primary: "good (Suc L) (\<lambda>s. parsePrimary m s)" and unary: "good L (\<lambda>s. parseUnary m s)"
  shows "good (Suc L) (\<lambda>s. parseExponentiation (Suc m) s)"
proof (rule goodI)
  fix st :: parser assume st: "eof_terminated (ps_rest st)" "length (ps_rest st) \<le> Suc L"
  show "stays (length (ps_rest st) - 1) (parseExponentiation (Suc m) st)"
    unfolding parseExponentiation.simps nat.case
  proof (rule stays_bind [of "length (ps_rest st) - 1"], goal_cases)
    case 1
    then show ?case using primary st by (intro goodD [of "Suc L"]) auto
  next
    case (2 e st1)
    then have len: "length (ps_rest st1) \<le> L" using st by simp
    show ?case unfolding prod.case
    proof (rule stays_bind [OF stays_consume [OF 2(2)]], goal_cases)
      case (1 b st2)
      have "stays (length (ps_rest st) - 1)
          (rbind (parseUnary m (st2\<lparr>ps_depth := ps_depth st2 + 1\<rparr>)) (\<lambda>(r, s1). Inr (Binary BPow e r, s1)))"
        by (rule stays_bind, rule goodD [OF unary]) (use 1 2 len in auto)
      then show ?case using 1 2 by (auto intro!: stays_withDepth)
    qed
  qed
qed

lemma good_unary:
  assumes expo: "good (Suc L) (\<lambda>s. parseExponentiation m s)" and unary: "good L (\<lambda>s. parseUnary m s)"
  shows "good (Suc L) (\<lambda>s. parseUnary (Suc m) s)"
proof (rule goodI)
  fix st :: parser assume st: "eof_terminated (ps_rest st)" "length (ps_rest st) \<le> Suc L"
  obtain t where t: "current st = Inr t" using eof_terminated_current st by blast
  show "stays (length (ps_rest st) - 1) (parseUnary (Suc m) st)"
  proof (cases "unary_op_of (tok_value t)")
    case None
    then show ?thesis using t expo st
      by (auto simp: parseUnary.simps [of "Suc m"] intro!: goodD [of "Suc L"])
  next
    case (Some operator)
    have "stays (length (ps_rest st) - 1) (rbind (advance st) (\<lambda>(_, st1).
        withDepth (\<lambda>s. rbind (parseUnary m s) (\<lambda>(e, s1). Inr (Unary operator e, s1))) st1))"
    proof (rule stays_bind [OF stays_advance [OF st(1)]], goal_cases)
      case (1 u st1)
      have "tok_type u \<noteq> TEof" using advance_eof_value [OF st(1) 1(1)] Some t 1(1)
        by (auto simp: advance_def unary_op_of_def)
      from advance_shrinks [OF st(1) 1(1) this]
      have len: "length (ps_rest st1) \<le> L" "length (ps_rest st1) \<le> length (ps_rest st) - 1" using st by auto
      have "stays (length (ps_rest st) - 1)
          (rbind (parseUnary m (st1\<lparr>ps_depth := ps_depth st1 + 1\<rparr>)) (\<lambda>(e, s1). Inr (Unary operator e, s1)))"
        by (rule stays_bind, rule goodD [OF unary]) (use 1 len in auto)
      then show ?case by (auto intro!: stays_withDepth)
    qed
    with t Some show ?thesis by (simp add: parseUnary.simps [of "Suc m"])
  qed
qed

lemma good_level:
  assumes operand: "\<And>m. 10 * L \<le> m + Suc k \<Longrightarrow> good L (operand m)"
    and p: "\<And>m s. p (Suc m) s = rbind (operand m s) (\<lambda>(e, st1). binary_loop m ops (\<lambda>s. operand m s) e st1)"
    and n: "10 * L \<le> n + k" "k \<le> 6"
  shows "good L (p n)"
proof (cases L)
  case 0
  then show ?thesis by (simp add: good_0)
next
  case (Suc L')
  with n obtain m where m: "n = Suc m" by (cases n) auto
  have "good L (operand m)" by (rule operand) (use n m in simp)
  moreover have "L \<le> m" using n m by linarith
  ultimately show ?thesis unfolding m by (rule good_binary_level) (rule p)
qed

lemma good_conditional:
  assumes orl: "good (Suc L) (\<lambda>s. parseLogicalOr m s)" and cond: "good L (\<lambda>s. parseConditional m s)"
  shows "good (Suc L) (\<lambda>s. parseConditional (Suc m) s)"
proof (rule goodI)
  fix st :: parser assume st: "eof_terminated (ps_rest st)" "length (ps_rest st) \<le> Suc L"
  have branch: "stays (length (ps_rest st2)) (withDepth (\<lambda>s.
      rbind (parseConditional m s) (\<lambda>(consequent, s1).
      rbind (expect (js '':'') s1) (\<lambda>(_, s2).
      rbind (parseConditional m s2) (\<lambda>(alternate, s3).
      Inr (Conditional c consequent alternate, s3))))) st2)"
    if st2: "eof_terminated (ps_rest st2)" "length (ps_rest st2) \<le> L" for c and st2 :: parser
  proof (rule stays_withDepth, rule stays_bind [of "length (ps_rest st2)"], goal_cases)
    case 1
    show ?case using st2 by (intro goodD [OF cond]) auto
  next
    case (2 a s1)
    show ?case unfolding prod.case
    proof (rule stays_bind [OF stays_expect [OF 2(2)]], goal_cases)
      case (1 u s2)
      then have "stays (length (ps_rest st2)) (parseConditional m s2)"
        using 2 st2 by (intro goodD [OF cond]) auto
      then show ?case unfolding prod.case by (rule stays_bind) auto
    qed
  qed
  show "stays (length (ps_rest st) - 1) (parseConditional (Suc m) st)"
    unfolding parseConditional.simps [of "Suc m" st] nat.case
  proof (rule stays_bind [of "length (ps_rest st) - 1"], goal_cases)
    case 1
    show ?case using orl st by (intro goodD [of "Suc L"]) auto
  next
    case (2 c st1)
    show ?case unfolding prod.case
    proof (rule stays_bind [OF stays_consume [OF 2(2)]], goal_cases)
      case (1 q st2)
      then have "length (ps_rest st2) \<le> L" "length (ps_rest st2) \<le> length (ps_rest st) - 1"
        using 2 st by auto
      then show ?case unfolding prod.case
        using stays_mono [OF branch [OF 1(2)]] 1 by (cases q) (simp_all del: js_Cons js_Nil)
    qed
  qed
qed

lemma parse_levels_good:
  "(\<forall>n. 10 * L \<le> n \<longrightarrow> good L (\<lambda>s. parseConditional n s))
   \<and> (\<forall>n. 10 * L \<le> n + 7 \<longrightarrow> good L (\<lambda>s. parseUnary n s))"
proof (induction L)
  case 0
  then show ?case by (simp add: good_0)
next
  case (Suc L)
  have cond: "good L (\<lambda>s. parseConditional n s)" if "10 * L \<le> n" for n using Suc that by blast
  have unary: "good L (\<lambda>s. parseUnary n s)" if "10 * L \<le> n + 7" for n using Suc that by blast
  have prim: "good (Suc L) (\<lambda>s. parsePrimary n s)" if "10 * Suc L \<le> n + 9" for n
    using that good_primary [OF cond, of "n - 1"] by (cases n) auto
  have expo: "good (Suc L) (\<lambda>s. parseExponentiation n s)" if "10 * Suc L \<le> n + 8" for n
    using that good_exponentiation [OF prim unary, of "n - 1"] by (cases n) auto
  have un: "good (Suc L) (\<lambda>s. parseUnary n s)" if "10 * Suc L \<le> n + 7" for n
    using that good_unary [OF expo unary, of "n - 1"] by (cases n) auto
  have mul: "good (Suc L) (parseMultiplicative n)" if "10 * Suc L \<le> n + 6" for n
    by (rule good_level [of "Suc L" _ parseUnary _ multiplicative_op, OF _ _ that])
      (use un in \<open>simp_all add: parseMultiplicative.simps [of "Suc _"]\<close>)
  have add: "good (Suc L) (parseAdditive n)" if "10 * Suc L \<le> n + 5" for n
    by (rule good_level [of "Suc L" _ parseMultiplicative _ additive_op, OF _ _ that])
      (use mul in \<open>simp_all add: parseAdditive.simps [of "Suc _"]\<close>)
  have cmp: "good (Suc L) (parseComparison n)" if "10 * Suc L \<le> n + 4" for n
    by (rule good_level [of "Suc L" _ parseAdditive _ comparison_op, OF _ _ that])
      (use add in \<open>simp_all add: parseComparison.simps [of "Suc _"]\<close>)
  have eq: "good (Suc L) (parseEquality n)" if "10 * Suc L \<le> n + 3" for n
    by (rule good_level [of "Suc L" _ parseComparison _ equality_op, OF _ _ that])
      (use cmp in \<open>simp_all add: parseEquality.simps [of "Suc _"]\<close>)
  have conj: "good (Suc L) (parseLogicalAnd n)" if "10 * Suc L \<le> n + 2" for n
    by (rule good_level [of "Suc L" _ parseEquality _ and_op, OF _ _ that])
      (use eq in \<open>simp_all add: parseLogicalAnd.simps [of "Suc _"]\<close>)
  have disj: "good (Suc L) (parseLogicalOr n)" if "10 * Suc L \<le> n + 1" for n
    by (rule good_level [of "Suc L" _ parseLogicalAnd _ or_op, OF _ _ that])
      (use conj in \<open>simp_all add: parseLogicalOr.simps [of "Suc _"]\<close>)
  have "good (Suc L) (\<lambda>s. parseConditional n s)" if n: "10 * Suc L \<le> n" for n
  proof (cases n)
    case (Suc m)
    with n show ?thesis using good_conditional [OF disj cond, of m] by simp
  qed (use n in simp)
  with un show ?case by blast
qed

lemma parse_no_overrun:
  assumes "eof_terminated ts"
  shows "parse ts \<noteq> Inl OutOfFuel \<and> parse ts \<noteq> Inl UndefinedToken"
proof -
  let ?st = "\<lparr>ps_rest = ts, ps_depth = 0\<rparr>"
  have "good (length ts) (\<lambda>s. parseConditional (parse_fuel ts) s)"
    using parse_levels_good [of "length ts"] by (simp add: parse_fuel_def)
  then have st: "stays (length ts) (parseConditional (parse_fuel ts) ?st)"
    using assms by (intro goodD [of "length ts"]) auto
  show ?thesis
  proof (cases "parseConditional (parse_fuel ts) ?st")
    case (Inl e)
    with st show ?thesis by (simp add: parse_def)
  next
    case (Inr r)
    obtain e st' where r: "r = (e, st')" by (cases r)
    with Inr st obtain t where "current st' = Inr t" using eof_terminated_current by force
    with Inr r show ?thesis by (simp add: parse_def)
  qed
qed

text \<open>
  C11. The parser terminates on every source the lexer accepts: ten units of fuel per token are
  enough, and no token is read past the end of the stream, so the outcome is a syntax tree or
  one of the parser's own syntax errors.
\<close>

theorem parse_terminates:
  assumes "tokenize src = Inr ts"
  shows "parse ts \<noteq> Inl OutOfFuel \<and> parse ts \<noteq> Inl UndefinedToken"
  using parse_no_overrun [OF tokenize_eof_terminated [OF assms]] .

theorem parse_terminates_witness:
  "\<exists>ts. tokenize (js ''p*2'') = Inr ts \<and> parse ts \<noteq> Inl OutOfFuel \<and> parse ts \<noteq> Inl UndefinedToken"
  using parse_terminates [OF tokenize_sample] tokenize_sample by blast

section \<open>The grammar\<close>

datatype nonterm =
  NConditional | NOr | NAnd | NEquality | NComparison | NAdditive | NMultiplicative
  | NUnary | NExponentiation | NPrimary

text \<open>The operators of a left-associative level and the level of its operands.\<close>

fun binary_level :: "nonterm \<Rightarrow> ((jsstr \<Rightarrow> binary_op option) \<times> nonterm) option" where
  "binary_level NOr = Some (or_op, NAnd)"
| "binary_level NAnd = Some (and_op, NEquality)"
| "binary_level NEquality = Some (equality_op, NComparison)"
| "binary_level NComparison = Some (comparison_op, NAdditive)"
| "binary_level NAdditive = Some (additive_op, NMultiplicative)"
| "binary_level NMultiplicative = Some (multiplicative_op, NUnary)"
| "binary_level _ = None"

definition symbol :: "token \<Rightarrow> jsstr \<Rightarrow> bool" where
  "symbol t v \<longleftrightarrow> tok_type t = TSymbol \<and> tok_value t = v"

inductive derives :: "nonterm \<Rightarrow> token list \<Rightarrow> expr \<Rightarrow> bool"
  and derives_args :: "token list \<Rightarrow> expr list \<Rightarrow> bool"
where
  conditional_or: "derives NOr ts e \<Longrightarrow> derives NConditional ts e"
| conditional: "derives NOr c ec \<Longrightarrow> symbol q (js ''?'') \<Longrightarrow> derives NConditional a ea \<Longrightarrow>
     symbol k (js '':'') \<Longrightarrow> derives NConditional b eb \<Longrightarrow>
     derives NConditional (c @ q # a @ k # b) (Conditional ec ea eb)"
| level_operand: "binary_level n = Some (ops, m) \<Longrightarrow> derives m ts e \<Longrightarrow> derives n ts e"
| level_binary: "binary_level n = Some (ops, m) \<Longrightarrow> derives n l el \<Longrightarrow> tok_type t = TSymbol \<Longrightarrow>
     ops (tok_value t) = Some operator \<Longrightarrow> derives m r er \<Longrightarrow>
     derives n (l @ t # r) (Binary operator el er)"
| unary_exponentiation: "derives NExponentiation ts e \<Longrightarrow> derives NUnary ts e"
| unary: "tok_type t = TSymbol \<Longrightarrow> unary_op_of (tok_value t) = Some operator \<Longrightarrow> derives NUnary ts e \<Longrightarrow>
     derives NUnary (t # ts) (Unary operator e)"
| exponentiation_primary: "derives NPrimary ts e \<Longrightarrow> derives NExponentiation ts e"
| exponentiation: "derives NPrimary l el \<Longrightarrow> symbol t (js ''**'') \<Longrightarrow> derives NUnary r er \<Longrightarrow>
     derives NExponentiation (l @ t # r) (Binary BPow el er)"
| number_literal: "tok_type t = TNumber \<Longrightarrow> derives NPrimary [t] (Literal (VNum (js_Number (tok_value t))))"
| string_literal: "tok_type t = TString \<Longrightarrow> derives NPrimary [t] (Literal (VStr (tok_value t)))"
| boolean_literal: "tok_type t = TIdentifier \<Longrightarrow> tok_value t \<in> {js ''true'', js ''false''} \<Longrightarrow>
     derives NPrimary [t] (Literal (VBool (tok_value t = js ''true'')))"
| variable: "tok_type t = TIdentifier \<Longrightarrow> tok_value t \<notin> {js ''true'', js ''false''} \<Longrightarrow>
     derives NPrimary [t] (Identifier (tok_value t))"
| call: "tok_type t = TIdentifier \<Longrightarrow> tok_value t \<notin> {js ''true'', js ''false''} \<Longrightarrow> symbol p (js ''('') \<Longrightarrow>
     derives_args ts es \<Longrightarrow> symbol q (js '')'') \<Longrightarrow>
     derives NPrimary (t # p # ts @ [q]) (Call (tok_value t) es)"
| empty_call: "tok_type t = TIdentifier \<Longrightarrow> tok_value t \<notin> {js ''true'', js ''false''} \<Longrightarrow> symbol p (js ''('') \<Longrightarrow>
     symbol q (js '')'') \<Longrightarrow> derives NPrimary [t, p, q] (Call (tok_value t) [])"
| parenthesis: "symbol p (js ''('') \<Longrightarrow> derives NConditional ts e \<Longrightarrow> symbol q (js '')'') \<Longrightarrow>
     derives NPrimary (p # ts @ [q]) e"
| args_one: "derives NConditional ts e \<Longrightarrow> derives_args ts [e]"
| args_more: "derives_args ts es \<Longrightarrow> symbol c (js '','') \<Longrightarrow> derives NConditional us e \<Longrightarrow>
     derives_args (ts @ c # us) (es @ [e])"

text \<open>A token stream in which no string literal spells an operator or a bracket.\<close>

definition symbol_values :: "jsstr list" where
  "symbol_values = two_character_symbols @ map (\<lambda>c. [c]) one_character_symbols"

definition plain_token :: "token \<Rightarrow> bool" where
  "plain_token t \<longleftrightarrow> (tok_value t \<in> set symbol_values \<longrightarrow> tok_type t = TSymbol)
     \<and> (tok_type t = TEof \<longrightarrow> tok_value t = [])"

definition sound :: "('a \<Rightarrow> token list \<Rightarrow> bool) \<Rightarrow> 'a parse_fun \<Rightarrow> bool" where
  "sound D p \<longleftrightarrow> (\<forall>st x st'. list_all plain_token (ps_rest st) \<longrightarrow> p st = Inr (x, st') \<longrightarrow>
     (\<exists>ts. ps_rest st = ts @ ps_rest st' \<and> D x ts))"

lemma soundD:
  "sound D p \<Longrightarrow> list_all plain_token (ps_rest st) \<Longrightarrow> p st = Inr (x, st') \<Longrightarrow>
     \<exists>ts. ps_rest st = ts @ ps_rest st' \<and> D x ts \<and> list_all plain_token (ps_rest st')"
  unfolding sound_def by (metis list_all_append)

lemma soundI:
  "(\<And>st x st'. list_all plain_token (ps_rest st) \<Longrightarrow> p st = Inr (x, st') \<Longrightarrow>
     \<exists>ts. ps_rest st = ts @ ps_rest st' \<and> D x ts) \<Longrightarrow> sound D p"
  by (simp add: sound_def)

lemma advance_symbol:
  assumes "list_all plain_token (ps_rest st)" "current st = Inr t" "tok_value t \<in> set symbol_values"
  shows "tok_type t = TSymbol \<and> (\<exists>st'. advance st = Inr (t, st') \<and> ps_rest st = t # ps_rest st'
    \<and> list_all plain_token (ps_rest st'))"
proof -
  obtain ts where ts: "ps_rest st = t # ts" using assms(2) by (cases "ps_rest st") (auto simp: current_def)
  then have "tok_type t = TSymbol" using assms by (simp add: plain_token_def)
  with ts assms show ?thesis by (simp add: advance_def)
qed

lemma consume_sound:
  assumes "list_all plain_token (ps_rest st)" "consume v st = Inr (b, st')" "v \<in> set symbol_values"
  shows "(b \<longrightarrow> (\<exists>t. symbol t v \<and> ps_rest st = t # ps_rest st')) \<and> (\<not> b \<longrightarrow> st' = st)
    \<and> list_all plain_token (ps_rest st')"
proof -
  obtain t where t: "current st = Inr t" using assms(2) by (cases "current st") (auto simp: consume_def check_def)
  show ?thesis
  proof (cases "tok_value t = v")
    case True
    with advance_symbol [OF assms(1) t] assms(3) obtain st1 where
      "tok_type t = TSymbol" "advance st = Inr (t, st1)" "ps_rest st = t # ps_rest st1"
      "list_all plain_token (ps_rest st1)" by auto
    with True t assms(2) show ?thesis by (auto simp: consume_def check_def symbol_def)
  next
    case False
    with t assms(1,2) show ?thesis by (auto simp: consume_def check_def)
  qed
qed

lemma symbol_values_members:
  "js ''?'' \<in> set symbol_values" "js '':'' \<in> set symbol_values" "js ''('' \<in> set symbol_values"
  "js '')'' \<in> set symbol_values" "js '','' \<in> set symbol_values" "js ''**'' \<in> set symbol_values"
  by (simp_all add: symbol_values_def two_character_symbols_def one_character_symbols_def)

lemma expect_sound:
  assumes "list_all plain_token (ps_rest st)" "expect v st = Inr (u, st')" "v \<in> set symbol_values"
  shows "\<exists>t. symbol t v \<and> ps_rest st = t # ps_rest st' \<and> list_all plain_token (ps_rest st')"
proof -
  from assms(2) have "consume v st = Inr (True, st')"
    by (auto simp: expect_def split: if_splits)
  from consume_sound [OF assms(1) this assms(3)] show ?thesis by simp
qed

lemma sound_withDepth:
  assumes "sound D p" shows "sound D (withDepth p)"
proof (rule soundI)
  fix st x and st' :: parser
  assume st: "list_all plain_token (ps_rest st)" "withDepth p st = Inr (x, st')"
  then obtain s' where "p (st\<lparr>ps_depth := ps_depth st + 1\<rparr>) = Inr (x, s')" "ps_rest st' = ps_rest s'"
    by (auto simp: withDepth_def Let_def split: if_splits)
  with soundD [OF assms _ this(1)] st(1) show "\<exists>ts. ps_rest st = ts @ ps_rest st' \<and> D x ts" by auto
qed

lemmas operator_defs = or_op_def and_op_def equality_op_def comparison_op_def additive_op_def
  multiplicative_op_def unary_op_of_def

lemma operator_symbol:
  "binary_level n = Some (ops, m) \<Longrightarrow> ops v = Some b \<Longrightarrow> v \<in> set symbol_values"
  by (cases n)
    (auto simp: operator_defs symbol_values_def two_character_symbols_def one_character_symbols_def
      split: if_splits)

lemma unary_symbol: "unary_op_of v = Some u \<Longrightarrow> v \<in> set symbol_values"
  by (auto simp: unary_op_of_def symbol_values_def two_character_symbols_def one_character_symbols_def
      split: if_splits)

lemma binary_loop_sound:
  assumes level: "binary_level N = Some (ops, M)" and operand: "sound (\<lambda>e ts. derives M ts e) operand"
  shows "list_all plain_token (ps_rest st) \<Longrightarrow> binary_loop n ops operand e st = Inr (x, st') \<Longrightarrow>
    derives N l e \<Longrightarrow> \<exists>ts. ps_rest st = ts @ ps_rest st' \<and> derives N (l @ ts) x"
proof (induction n arbitrary: e st l)
  case (Suc n)
  obtain t where t: "current st = Inr t" using Suc.prems(2) by (cases "current st") auto
  show ?case
  proof (cases "ops (tok_value t)")
    case None
    with Suc.prems t show ?thesis by auto
  next
    case (Some operator)
    from advance_symbol [OF Suc.prems(1) t operator_symbol [OF level Some]] obtain st1 where
      st1: "tok_type t = TSymbol" "advance st = Inr (t, st1)" "ps_rest st = t # ps_rest st1"
      "list_all plain_token (ps_rest st1)" by auto
    with Suc.prems(2) t Some obtain r st2 where r: "operand st1 = Inr (r, st2)"
      and rec: "binary_loop n ops operand (Binary operator e r) st2 = Inr (x, st')" by auto
    from soundD [OF operand st1(4) r] obtain ts where ts: "ps_rest st1 = ts @ ps_rest st2" "derives M ts r"
      "list_all plain_token (ps_rest st2)" by auto
    have "derives N (l @ t # ts) (Binary operator e r)"
      using derives_derives_args.level_binary [OF level Suc.prems(3) st1(1) Some ts(2)] .
    from Suc.IH [OF ts(3) rec this] st1(3) ts(1) show ?thesis by auto
  qed
qed simp

lemma sound_level:
  assumes level: "binary_level N = Some (ops, M)" and operand: "sound (\<lambda>e ts. derives M ts e) operand"
    and p: "\<And>s. p s = rbind (operand s) (\<lambda>(e, st1). binary_loop m ops operand e st1)"
  shows "sound (\<lambda>e ts. derives N ts e) p"
proof (rule soundI)
  fix st x and st' :: parser
  assume st: "list_all plain_token (ps_rest st)" "p st = Inr (x, st')"
  then obtain e st1 where e: "operand st = Inr (e, st1)" and l: "binary_loop m ops operand e st1 = Inr (x, st')"
    by (auto simp: p)
  from soundD [OF operand st(1) e] obtain ts where ts: "ps_rest st = ts @ ps_rest st1" "derives M ts e"
    "list_all plain_token (ps_rest st1)" by auto
  from binary_loop_sound [OF level operand ts(3) l derives_derives_args.level_operand [OF level ts(2)]] ts(1)
  show "\<exists>ts. ps_rest st = ts @ ps_rest st' \<and> derives N ts x" by auto
qed

lemma argument_loop_sound:
  assumes p: "sound (\<lambda>e ts. derives NConditional ts e) p"
  shows "list_all plain_token (ps_rest st) \<Longrightarrow> argument_loop n p acc st = Inr (es, st') \<Longrightarrow>
    (acc = [] \<and> l = []) \<or> (\<exists>l0 c. l = l0 @ [c] \<and> derives_args l0 acc \<and> symbol c (js '','')) \<Longrightarrow>
    \<exists>ts. ps_rest st = ts @ ps_rest st' \<and> derives_args (l @ ts) es"
proof (induction n arbitrary: acc st l)
  case (Suc n)
  then obtain e st1 more st2 where e: "p st = Inr (e, st1)" and c: "consume (js '','') st1 = Inr (more, st2)"
    and rest: "if more then argument_loop n p (acc @ [e]) st2 = Inr (es, st') else (es, st') = (acc @ [e], st2)"
    by (auto split: if_splits simp del: js_Cons js_Nil)
  from soundD [OF p Suc.prems(1) e] obtain ts where ts: "ps_rest st = ts @ ps_rest st1" "derives NConditional ts e"
    "list_all plain_token (ps_rest st1)" by auto
  have args: "derives_args (l @ ts) (acc @ [e])"
    using Suc.prems(3) ts(2) derives_derives_args.args_one [OF ts(2)] derives_derives_args.args_more [OF _ _ ts(2)]
    by auto
  note cs = consume_sound [OF ts(3) c symbol_values_members(5)]
  show ?case
  proof (cases more)
    case True
    with cs obtain t where t: "symbol t (js '','')" "ps_rest st1 = t # ps_rest st2"
      "list_all plain_token (ps_rest st2)" by auto
    from Suc.IH [OF t(3), of "acc @ [e]" "(l @ ts) @ [t]"] True rest args t(1) obtain us where
      "ps_rest st2 = us @ ps_rest st'" "derives_args (((l @ ts) @ [t]) @ us) es" by auto
    with ts(1) t(2) show ?thesis by auto
  next
    case False
    with cs rest args ts(1) show ?thesis by auto
  qed
qed simp

abbreviation sound_at :: "nonterm \<Rightarrow> expr parse_fun \<Rightarrow> bool" where
  "sound_at N p \<equiv> sound (\<lambda>e ts. derives N ts e) p"

lemma sound_paren:
  assumes cond: "sound_at NConditional (\<lambda>s. parseConditional m s)"
  shows "sound (\<lambda>e ts. \<exists>us q. ts = us @ [q] \<and> derives NConditional us e \<and> symbol q (js '')''))
    (withDepth (\<lambda>s. rbind (parseConditional m s) (\<lambda>(e, s1). rbind (expect (js '')'') s1) (\<lambda>(_, s2). Inr (e, s2)))))"
proof (intro sound_withDepth soundI)
  fix st x and st' :: parser
  assume st: "list_all plain_token (ps_rest st)"
    "rbind (parseConditional m st) (\<lambda>(e, s1). rbind (expect (js '')'') s1) (\<lambda>(_, s2). Inr (e, s2))) = Inr (x, st')"
  then obtain s1 u where e: "parseConditional m st = Inr (x, s1)" "expect (js '')'') s1 = Inr (u, st')"
    by (auto simp del: js_Cons js_Nil)
  from soundD [OF cond st(1) e(1)] obtain ts where ts: "ps_rest st = ts @ ps_rest s1" "derives NConditional ts x"
    "list_all plain_token (ps_rest s1)" by auto
  from expect_sound [OF ts(3) e(2) symbol_values_members(4)] ts
  show "\<exists>ts. ps_rest st = ts @ ps_rest st' \<and> (\<exists>us q. ts = us @ [q] \<and> derives NConditional us x \<and> symbol q (js '')''))"
    by auto
qed

lemma sound_call:
  assumes cond: "sound_at NConditional (\<lambda>s. parseConditional m s)"
  shows "sound (\<lambda>e ts. \<exists>us q es. e = Call v es \<and> ts = us @ [q] \<and> (us = [] \<and> es = [] \<or> derives_args us es) \<and> symbol q (js '')''))
    (withDepth (\<lambda>s. rbind (check (js '')'') s) (\<lambda>closed.
      rbind (if closed then Inr ([], s) else argument_loop m (\<lambda>s. parseConditional m s) [] s) (\<lambda>(args, s1).
      rbind (expect (js '')'') s1) (\<lambda>(_, s2). Inr (Call v args, s2))))))"
proof (intro sound_withDepth soundI)
  fix st x and st' :: parser
  assume st: "list_all plain_token (ps_rest st)"
    "rbind (check (js '')'') st) (\<lambda>closed.
      rbind (if closed then Inr ([], st) else argument_loop m (\<lambda>s. parseConditional m s) [] st) (\<lambda>(args, s1).
      rbind (expect (js '')'') s1) (\<lambda>(_, s2). Inr (Call v args, s2)))) = Inr (x, st')"
  then obtain closed args s1 u where
    a: "(if closed then Inr ([], st) else argument_loop m (\<lambda>s. parseConditional m s) [] st) = Inr (args, s1)"
    and e: "expect (js '')'') s1 = Inr (u, st')" and x: "x = Call v args"
    by (auto simp del: js_Cons js_Nil)
  have "\<exists>us. ps_rest st = us @ ps_rest s1 \<and> (us = [] \<and> args = [] \<or> derives_args us args)"
    using a argument_loop_sound [OF cond st(1), of m "[]" args s1 "[]"] by (auto split: if_splits)
  then obtain us where us: "ps_rest st = us @ ps_rest s1" "us = [] \<and> args = [] \<or> derives_args us args" by auto
  then have "list_all plain_token (ps_rest s1)" using st(1) by simp
  from expect_sound [OF this e symbol_values_members(4)] us x
  show "\<exists>ts. ps_rest st = ts @ ps_rest st' \<and> (\<exists>us q es. x = Call v es \<and> ts = us @ [q] \<and>
      (us = [] \<and> es = [] \<or> derives_args us es) \<and> symbol q (js '')''))" by auto
qed

lemma advance_splits:
  assumes "advance st = Inr (t, st1)" "tok_type t \<noteq> TEof"
  shows "ps_rest st = t # ps_rest st1"
  using assms by (cases "ps_rest st") (auto simp: advance_def current_def split: if_splits)

lemma advance_plain_eof:
  "list_all plain_token (ps_rest st) \<Longrightarrow> advance st = Inr (t, st1) \<Longrightarrow> tok_type t = TEof \<Longrightarrow> tok_value t = []"
  by (cases "ps_rest st") (simp_all add: advance_def current_def plain_token_def)

lemma sound_primary:
  assumes cond: "sound_at NConditional (\<lambda>s. parseConditional m s)"
  shows "sound_at NPrimary (\<lambda>s. parsePrimary (Suc m) s)"
proof (rule soundI)
  fix st x and st' :: parser
  assume plain: "list_all plain_token (ps_rest st)" and run: "parsePrimary (Suc m) st = Inr (x, st')"
  from run obtain t st1 where t: "advance st = Inr (t, st1)"
    unfolding parsePrimary.simps nat.case rbind_eq_Inr by auto
  note step = run [unfolded parsePrimary.simps nat.case t rbind_Inr prod.case]
  have eof: "tok_type t \<noteq> TEof"
  proof
    assume "tok_type t = TEof"
    with advance_plain_eof [OF plain t] step show False by simp
  qed
  note rest = advance_splits [OF t eof]
  then have plain1: "list_all plain_token (ps_rest st1)" using plain by simp
  consider (num) "tok_type t = TNumber" | (str) "tok_type t = TString" | (ident) "tok_type t = TIdentifier"
    | (sym) "tok_type t = TSymbol" using eof by (cases "tok_type t") auto
  then show "\<exists>ts. ps_rest st = ts @ ps_rest st' \<and> derives NPrimary ts x"
  proof cases
    case num
    with step rest show ?thesis by (intro exI [of _ "[t]"]) (auto intro: derives_derives_args.intros)
  next
    case str
    with step rest show ?thesis by (intro exI [of _ "[t]"]) (auto intro: derives_derives_args.intros)
  next
    case sym
    then have v: "tok_value t = js ''(''" using step by (auto split: if_splits)
    with step sym have "withDepth (\<lambda>s. rbind (parseConditional m s) (\<lambda>(e, s1).
        rbind (expect (js '')'') s1) (\<lambda>(_, s2). Inr (e, s2)))) st1 = Inr (x, st')"
      by (simp del: js_Cons js_Nil)
    from soundD [OF sound_paren [OF cond] plain1 this] obtain us q where
      "ps_rest st1 = (us @ [q]) @ ps_rest st'" "derives NConditional us x" "symbol q (js '')'')" by auto
    with rest sym v show ?thesis
      by (intro exI [of _ "t # us @ [q]"]) (auto simp: symbol_def intro!: derives_derives_args.parenthesis)
  next
    case ident
    show ?thesis
    proof (cases "tok_value t \<in> {js ''true'', js ''false''}")
      case True
      with step ident have "x = Literal (VBool (tok_value t = js ''true''))" "st' = st1" by auto
      with rest ident True show ?thesis
        by (intro exI [of _ "[t]"]) (auto intro: derives_derives_args.boolean_literal simp del: js_Cons js_Nil)
    next
      case False
      with step ident obtain b st2 where b: "consume (js ''('') st1 = Inr (b, st2)"
        and more: "(if \<not> b then Inr (Identifier (tok_value t), st2) else withDepth (\<lambda>s. rbind (check (js '')'') s) (\<lambda>closed.
          rbind (if closed then Inr ([], s) else argument_loop m (\<lambda>s. parseConditional m s) [] s) (\<lambda>(args, s1).
          rbind (expect (js '')'') s1) (\<lambda>(_, s2). Inr (Call (tok_value t) args, s2))))) st2) = Inr (x, st')"
        by (auto simp del: js_Cons js_Nil)
      note cs = consume_sound [OF plain1 b symbol_values_members(3)]
      show ?thesis
      proof (cases b)
        case bt: True
        with cs obtain p where p: "symbol p (js ''('')" "ps_rest st1 = p # ps_rest st2"
          "list_all plain_token (ps_rest st2)" by auto
        from more bt soundD [OF sound_call [OF cond, of "tok_value t"] p(3)] obtain us q es where
          u: "ps_rest st2 = (us @ [q]) @ ps_rest st'" "x = Call (tok_value t) es"
          "us = [] \<and> es = [] \<or> derives_args us es" "symbol q (js '')'')" by fastforce
        with rest p ident False show ?thesis
          by (intro exI [of _ "t # p # us @ [q]"])
            (auto intro: derives_derives_args.call derives_derives_args.empty_call simp del: js_Cons js_Nil)
      next
        case bf: False
        with cs more rest ident False show ?thesis
          by (intro exI [of _ "[t]"]) (auto intro: derives_derives_args.variable simp del: js_Cons js_Nil)
      qed
    qed
  qed
qed

lemma sound_exponentiation:
  assumes primary: "sound_at NPrimary (\<lambda>s. parsePrimary m s)" and unary: "sound_at NUnary (\<lambda>s. parseUnary m s)"
  shows "sound_at NExponentiation (\<lambda>s. parseExponentiation (Suc m) s)"
proof (rule soundI)
  fix st x and st' :: parser
  assume plain: "list_all plain_token (ps_rest st)" and run: "parseExponentiation (Suc m) st = Inr (x, st')"
  from run obtain e st1 b st2 where e: "parsePrimary m st = Inr (e, st1)" and c: "consume (js ''**'') st1 = Inr (b, st2)"
    and more: "(if \<not> b then Inr (e, st2)
      else withDepth (\<lambda>s. rbind (parseUnary m s) (\<lambda>(r, s1). Inr (Binary BPow e r, s1))) st2) = Inr (x, st')"
    unfolding parseExponentiation.simps nat.case by (auto simp del: js_Cons js_Nil)
  from soundD [OF primary plain e] obtain ts where ts: "ps_rest st = ts @ ps_rest st1" "derives NPrimary ts e"
    "list_all plain_token (ps_rest st1)" by auto
  note cs = consume_sound [OF ts(3) c symbol_values_members(6)]
  show "\<exists>ts. ps_rest st = ts @ ps_rest st' \<and> derives NExponentiation ts x"
  proof (cases b)
    case True
    with cs obtain t where t: "symbol t (js ''**'')" "ps_rest st1 = t # ps_rest st2"
      "list_all plain_token (ps_rest st2)" by auto
    have "sound (\<lambda>x us. \<exists>r. x = Binary BPow e r \<and> derives NUnary us r)
        (\<lambda>s. rbind (parseUnary m s) (\<lambda>(r, s1). Inr (Binary BPow e r, s1)))"
      using unary by (fastforce simp: sound_def)
    from soundD [OF sound_withDepth [OF this] t(3)] more True obtain us r where
      "ps_rest st2 = us @ ps_rest st'" "x = Binary BPow e r" "derives NUnary us r" by fastforce
    with ts t show ?thesis
      by (intro exI [of _ "ts @ t # us"]) (auto intro: derives_derives_args.exponentiation simp del: js_Cons js_Nil)
  next
    case False
    with cs more ts show ?thesis by (auto intro: derives_derives_args.exponentiation_primary)
  qed
qed

lemma sound_unary:
  assumes expo: "sound_at NExponentiation (\<lambda>s. parseExponentiation m s)" and unary: "sound_at NUnary (\<lambda>s. parseUnary m s)"
  shows "sound_at NUnary (\<lambda>s. parseUnary (Suc m) s)"
proof (rule soundI)
  fix st x and st' :: parser
  assume plain: "list_all plain_token (ps_rest st)" and run: "parseUnary (Suc m) st = Inr (x, st')"
  note step = run [unfolded parseUnary.simps [of "Suc m" st] nat.case]
  then obtain t where t: "current st = Inr t" by auto
  show "\<exists>ts. ps_rest st = ts @ ps_rest st' \<and> derives NUnary ts x"
  proof (cases "unary_op_of (tok_value t)")
    case None
    with step t have "parseExponentiation m st = Inr (x, st')" by simp
    from soundD [OF expo plain this] show ?thesis by (auto intro: derives_derives_args.unary_exponentiation)
  next
    case (Some operator)
    from advance_symbol [OF plain t unary_symbol [OF Some]] obtain st1 where
      st1: "tok_type t = TSymbol" "advance st = Inr (t, st1)" "ps_rest st = t # ps_rest st1"
      "list_all plain_token (ps_rest st1)" by auto
    have "sound (\<lambda>x us. \<exists>r. x = Unary operator r \<and> derives NUnary us r)
        (\<lambda>s. rbind (parseUnary m s) (\<lambda>(r, s1). Inr (Unary operator r, s1)))"
      using unary by (fastforce simp: sound_def)
    from soundD [OF sound_withDepth [OF this] st1(4)] step t Some st1(2) obtain us r where
      "ps_rest st1 = us @ ps_rest st'" "x = Unary operator r" "derives NUnary us r" by fastforce
    with st1 Some show ?thesis
      by (intro exI [of _ "t # us"]) (auto intro: derives_derives_args.unary)
  qed
qed

lemma sound_conditional:
  assumes orl: "sound_at NOr (\<lambda>s. parseLogicalOr m s)" and cond: "sound_at NConditional (\<lambda>s. parseConditional m s)"
  shows "sound_at NConditional (\<lambda>s. parseConditional (Suc m) s)"
proof (rule soundI)
  fix st x and st' :: parser
  assume plain: "list_all plain_token (ps_rest st)" and run: "parseConditional (Suc m) st = Inr (x, st')"
  let ?branches = "\<lambda>c s. rbind (parseConditional m s) (\<lambda>(a, s1). rbind (expect (js '':'') s1) (\<lambda>(_, s2).
      rbind (parseConditional m s2) (\<lambda>(b, s3). Inr (Conditional c a b, s3))))"
  from run obtain c st1 q st2 where c: "parseLogicalOr m st = Inr (c, st1)" and q: "consume (js ''?'') st1 = Inr (q, st2)"
    and more: "(if \<not> q then Inr (c, st2) else withDepth (?branches c) st2) = Inr (x, st')"
    unfolding parseConditional.simps [of "Suc m" st] nat.case by (auto simp del: js_Cons js_Nil)
  from soundD [OF orl plain c] obtain ts where ts: "ps_rest st = ts @ ps_rest st1" "derives NOr ts c"
    "list_all plain_token (ps_rest st1)" by auto
  note cs = consume_sound [OF ts(3) q symbol_values_members(1)]
  show "\<exists>ts. ps_rest st = ts @ ps_rest st' \<and> derives NConditional ts x"
  proof (cases q)
    case True
    with cs obtain t where t: "symbol t (js ''?'')" "ps_rest st1 = t # ps_rest st2"
      "list_all plain_token (ps_rest st2)" by auto
    have "sound (\<lambda>x us. \<exists>a b k va vb. x = Conditional c a b \<and> us = va @ k # vb \<and> derives NConditional va a
        \<and> symbol k (js '':'') \<and> derives NConditional vb b) (?branches c)"
    proof (rule soundI)
      fix s x and s' :: parser assume s: "list_all plain_token (ps_rest s)" "?branches c s = Inr (x, s')"
      then obtain a s1 u s2 b where r: "parseConditional m s = Inr (a, s1)" "expect (js '':'') s1 = Inr (u, s2)"
        "parseConditional m s2 = Inr (b, s')" "x = Conditional c a b" by (auto simp del: js_Cons js_Nil)
      from soundD [OF cond s(1) r(1)] obtain va where va: "ps_rest s = va @ ps_rest s1" "derives NConditional va a"
        "list_all plain_token (ps_rest s1)" by auto
      from expect_sound [OF va(3) r(2) symbol_values_members(2)] obtain k where
        k: "symbol k (js '':'')" "ps_rest s1 = k # ps_rest s2" "list_all plain_token (ps_rest s2)" by auto
      from soundD [OF cond k(3) r(3)] obtain vb where vb: "ps_rest s2 = vb @ ps_rest s'" "derives NConditional vb b"
        by auto
      have "ps_rest s = (va @ k # vb) @ ps_rest s'" using va(1) k(2) vb(1) by simp
      with va(2) k(1) vb(2) r(4)
      show "\<exists>ts. ps_rest s = ts @ ps_rest s' \<and> (\<exists>a b k va vb. x = Conditional c a b \<and> ts = va @ k # vb
          \<and> derives NConditional va a \<and> symbol k (js '':'') \<and> derives NConditional vb b)" by blast
    qed
    from soundD [OF sound_withDepth [OF this] t(3)] more True obtain a b k va vb where
      "ps_rest st2 = (va @ k # vb) @ ps_rest st'" "x = Conditional c a b" "derives NConditional va a"
      "symbol k (js '':'')" "derives NConditional vb b" by fastforce
    with ts t show ?thesis
      by (intro exI [of _ "ts @ t # va @ k # vb"]) (auto intro: derives_derives_args.conditional simp del: js_Cons js_Nil)
  next
    case False
    with cs more ts show ?thesis by (auto intro: derives_derives_args.conditional_or)
  qed
qed

lemma sound_zero:
  "sound D (\<lambda>s. parseConditional 0 s)" "sound D (\<lambda>s. parseLogicalOr 0 s)" "sound D (\<lambda>s. parseLogicalAnd 0 s)"
  "sound D (\<lambda>s. parseEquality 0 s)" "sound D (\<lambda>s. parseComparison 0 s)" "sound D (\<lambda>s. parseAdditive 0 s)"
  "sound D (\<lambda>s. parseMultiplicative 0 s)" "sound D (\<lambda>s. parseUnary 0 s)"
  "sound D (\<lambda>s. parseExponentiation 0 s)" "sound D (\<lambda>s. parsePrimary 0 s)"
  by (simp_all add: sound_def parseConditional.simps [of 0] parseLogicalOr.simps [of 0]
      parseLogicalAnd.simps [of 0] parseEquality.simps [of 0] parseComparison.simps [of 0]
      parseAdditive.simps [of 0] parseMultiplicative.simps [of 0] parseUnary.simps [of 0]
      parseExponentiation.simps [of 0] parsePrimary.simps [of 0])

lemma parse_levels_sound:
  "sound_at NConditional (\<lambda>s. parseConditional n s) \<and> sound_at NOr (\<lambda>s. parseLogicalOr n s)
   \<and> sound_at NAnd (\<lambda>s. parseLogicalAnd n s) \<and> sound_at NEquality (\<lambda>s. parseEquality n s)
   \<and> sound_at NComparison (\<lambda>s. parseComparison n s) \<and> sound_at NAdditive (\<lambda>s. parseAdditive n s)
   \<and> sound_at NMultiplicative (\<lambda>s. parseMultiplicative n s) \<and> sound_at NUnary (\<lambda>s. parseUnary n s)
   \<and> sound_at NExponentiation (\<lambda>s. parseExponentiation n s) \<and> sound_at NPrimary (\<lambda>s. parsePrimary n s)"
proof (induction n)
  case 0
  show ?case by (simp only: sound_zero simp_thms)
next
  case (Suc n)
  have unfold_levels:
    "\<And>s. parseLogicalOr (Suc n) s = rbind (parseLogicalAnd n s) (\<lambda>(e, st1). binary_loop n or_op (\<lambda>s. parseLogicalAnd n s) e st1)"
    "\<And>s. parseLogicalAnd (Suc n) s = rbind (parseEquality n s) (\<lambda>(e, st1). binary_loop n and_op (\<lambda>s. parseEquality n s) e st1)"
    "\<And>s. parseEquality (Suc n) s = rbind (parseComparison n s) (\<lambda>(e, st1). binary_loop n equality_op (\<lambda>s. parseComparison n s) e st1)"
    "\<And>s. parseComparison (Suc n) s = rbind (parseAdditive n s) (\<lambda>(e, st1). binary_loop n comparison_op (\<lambda>s. parseAdditive n s) e st1)"
    "\<And>s. parseAdditive (Suc n) s = rbind (parseMultiplicative n s) (\<lambda>(e, st1). binary_loop n additive_op (\<lambda>s. parseMultiplicative n s) e st1)"
    "\<And>s. parseMultiplicative (Suc n) s = rbind (parseUnary n s) (\<lambda>(e, st1). binary_loop n multiplicative_op (\<lambda>s. parseUnary n s) e st1)"
    by (simp_all add: parseLogicalOr.simps [of "Suc n"] parseLogicalAnd.simps [of "Suc n"]
        parseEquality.simps [of "Suc n"] parseComparison.simps [of "Suc n"]
        parseAdditive.simps [of "Suc n"] parseMultiplicative.simps [of "Suc n"])
  note IH = Suc.IH
  show ?case
  proof (intro conjI)
    show "sound_at NConditional (\<lambda>s. parseConditional (Suc n) s)" using IH by (intro sound_conditional) blast+
    show "sound_at NOr (\<lambda>s. parseLogicalOr (Suc n) s)"
      by (rule sound_level [OF _ _ unfold_levels(1)]) (use IH in auto)
    show "sound_at NAnd (\<lambda>s. parseLogicalAnd (Suc n) s)"
      by (rule sound_level [OF _ _ unfold_levels(2)]) (use IH in auto)
    show "sound_at NEquality (\<lambda>s. parseEquality (Suc n) s)"
      by (rule sound_level [OF _ _ unfold_levels(3)]) (use IH in auto)
    show "sound_at NComparison (\<lambda>s. parseComparison (Suc n) s)"
      by (rule sound_level [OF _ _ unfold_levels(4)]) (use IH in auto)
    show "sound_at NAdditive (\<lambda>s. parseAdditive (Suc n) s)"
      by (rule sound_level [OF _ _ unfold_levels(5)]) (use IH in auto)
    show "sound_at NMultiplicative (\<lambda>s. parseMultiplicative (Suc n) s)"
      by (rule sound_level [OF _ _ unfold_levels(6)]) (use IH in auto)
    show "sound_at NUnary (\<lambda>s. parseUnary (Suc n) s)" using IH by (intro sound_unary) blast+
    show "sound_at NExponentiation (\<lambda>s. parseExponentiation (Suc n) s)" using IH by (intro sound_exponentiation) blast+
    show "sound_at NPrimary (\<lambda>s. parsePrimary (Suc n) s)" using IH by (intro sound_primary) blast
  qed
qed

lemma parse_sound_plain:
  assumes "list_all plain_token ts" "eof_terminated ts" "parse ts = Inr e"
  shows "derives NConditional (butlast ts) e"
proof -
  from assms(3) obtain st t where run: "parseConditional (parse_fuel ts) \<lparr>ps_rest = ts, ps_depth = 0\<rparr> = Inr (e, st)"
    and t: "current st = Inr t" "tok_type t = TEof" by (auto simp: parse_def split: if_splits)
  have "sound_at NConditional (\<lambda>s. parseConditional (parse_fuel ts) s)" using parse_levels_sound by blast
  from soundD [OF this _ run] assms(1) obtain us where us: "ts = us @ ps_rest st" "derives NConditional us e"
    by auto
  obtain vs where vs: "ps_rest st = t # vs" using t(1) by (cases "ps_rest st") (auto simp: current_def)
  have "vs = []"
  proof (rule ccontr)
    assume "vs \<noteq> []"
    then have "t \<in> set (butlast ts)" using us(1) vs by (simp add: butlast_append)
    then show False using assms(2) t(2) by (auto simp: eof_terminated_def list_all_iff)
  qed
  with us vs show ?thesis by simp
qed

text \<open>On the lexer's output only a string literal can carry an operator's spelling without being one.\<close>

definition operator_strings :: "token list \<Rightarrow> bool" where
  "operator_strings ts = list_ex (\<lambda>t. tok_type t = TString \<and> tok_value t \<in> set symbol_values) ts"

lemma symbol_not_number: "l \<in> set symbol_values \<Longrightarrow> scan_decimal l = None"
  by (auto simp: symbol_values_def two_character_symbols_def one_character_symbols_def scan_decimal_def
      scan_frac_def is_digit_def)

lemma symbol_not_identifier: "l \<in> set symbol_values \<Longrightarrow> \<not> isIdentifierStart (Some (hd l))"
  by (auto simp: symbol_values_def two_character_symbols_def one_character_symbols_def isIdentifierStart_def)

lemma segments_plain:
  "segments i s ts \<Longrightarrow> \<not> operator_strings ts \<Longrightarrow> list_all plain_token ts"
proof (induction rule: segments.induct)
  case (seg_end w i)
  then show ?case
    by (simp add: plain_token_def eof_token_def symbol_values_def two_character_symbols_def one_character_symbols_def)
next
  case (seg_token w t l i s ts)
  have "plain_token t"
    using seg_token(2) seg_token.prems symbol_not_number [of l] symbol_not_identifier [of l]
    by (cases "tok_type t") (auto simp: lexeme_def plain_token_def operator_strings_def)
  with seg_token show ?case by (simp add: operator_strings_def)
qed

text \<open>
  C5. An accepted expression means what the precedence grammar says: when no string literal of the
  source spells an operator or bracket, the syntax tree returned is derived from exactly the tokens
  read, with \<open>?:\<close> below \<open>||\<close> below \<open>&&\<close> below equality, comparison, additive and multiplicative
  operators (all left-associative), prefix operators, and right-associative \<open>**\<close> binding tightest.
\<close>

theorem parse_sound:
  assumes "tokenize src = Inr ts" "\<not> operator_strings ts" "parse ts = Inr e"
  shows "derives NConditional (butlast ts) e"
proof -
  have "segments 0 src ts"
    using tokenize_loop_segments [of "\<lparr>lx_index = 0, lx_rest = src\<rparr>" "[]" ts] assms(1)
    by (auto simp: tokenize_def)
  from segments_plain [OF this assms(2)] show ?thesis
    using parse_sound_plain tokenize_eof_terminated [OF assms(1)] assms(3) by blast
qed

lemma binary_loop_numeral:
  "binary_loop (numeral k) ops operand e st =
     rbind (current st) (\<lambda>t.
       case ops (tok_value t) of
         None \<Rightarrow> Inr (e, st)
       | Some operator \<Rightarrow>
           rbind (advance st) (\<lambda>(_, st1).
           rbind (operand st1) (\<lambda>(r, st2).
           binary_loop (pred_numeral k) ops operand (Binary operator e r) st2)))"
  by (simp add: numeral_eq_Suc)

lemma argument_loop_numeral:
  "argument_loop (numeral k) p acc st =
     rbind (p st) (\<lambda>(e, st1).
     rbind (consume (js '','') st1) (\<lambda>(more, st2).
     if more then argument_loop (pred_numeral k) p (acc @ [e]) st2 else Inr (acc @ [e], st2)))"
  by (simp add: numeral_eq_Suc)

lemmas parse_eval = binary_loop_numeral argument_loop_numeral parse_def parse_fuel_def parse_unfold current_def advance_def check_def consume_def
  expect_def withDepth_def MAX_PARSE_DEPTH_def operator_defs Let_def

lemma parse_sample:
  "parse [\<lparr>tok_type = TIdentifier, tok_value = js ''p'', tok_pos = 0\<rparr>,
      \<lparr>tok_type = TSymbol, tok_value = js ''*'', tok_pos = 1\<rparr>,
      \<lparr>tok_type = TNumber, tok_value = js ''2'', tok_pos = 2\<rparr>,
      \<lparr>tok_type = TEof, tok_value = [], tok_pos = 3\<rparr>]
   = Inr (Binary BMul (Identifier (js ''p'')) (Literal (VNum (Fin 2))))"
  by (simp add: parse_eval number_eval is_digit_def is_space_def)

theorem parse_sound_witness:
  "\<exists>ts. tokenize (js ''p*2'') = Inr ts \<and> \<not> operator_strings ts
     \<and> derives NConditional (butlast ts) (Binary BMul (Identifier (js ''p'')) (Literal (VNum (Fin 2))))"
proof -
  have "\<not> operator_strings [\<lparr>tok_type = TIdentifier, tok_value = js ''p'', tok_pos = 0\<rparr>,
      \<lparr>tok_type = TSymbol, tok_value = js ''*'', tok_pos = 1\<rparr>,
      \<lparr>tok_type = TNumber, tok_value = js ''2'', tok_pos = 2\<rparr>,
      \<lparr>tok_type = TEof, tok_value = [], tok_pos = 3\<rparr>]" by (simp add: operator_strings_def)
  from parse_sound [OF tokenize_sample this parse_sample] this tokenize_sample show ?thesis by blast
qed

text \<open>
  Token access compares spellings only, so a string literal that spells an operator is taken for
  that operator: the source \<open>1"+"2\<close>, which contains no symbol token at all, is parsed as
  the sum of 1 and 2 instead of being rejected.
\<close>

lemma string_literal_taken_for_operator:
  "\<exists>ts. tokenize (js ''1\"+\"2'') = Inr ts \<and> list_all (\<lambda>t. tok_type t \<noteq> TSymbol) ts
     \<and> parse ts = Inr (Binary BAdd (Literal (VNum (Fin 1))) (Literal (VNum (Fin 2))))"
  by (simp add: tokenize_def lex_eval number_eval parse_eval)

end
