(* ===== verification/BillingValidator.thy ===== *)
theory BillingValidator
  imports BillingParser
begin

text \<open>
  The static check of billing expressions: \<open>BillingExpressionValidator\<close> of
  \<open>web/src/features/pricing/lib/billing-expression-evaluator.ts\<close>.  Static types form
  a gradual system: \<open>TyUnknown\<close> is the type of an expression whose branches disagree.  The recursive
  calls of \<open>validateUnary\<close>, \<open>validateBinary\<close> and \<open>validateCall\<close> are made in \<open>validateNode\<close>, which
  passes them the static types of the operands.
\<close>

datatype static_type = TyNumber | TyString | TyBoolean | TyUnknown

type_synonym environment = "(jsstr \<times> number) list"

definition has_own :: "environment \<Rightarrow> jsstr \<Rightarrow> bool" where
  "has_own env name = (map_of env name \<noteq> None)"

fun unary_text :: "unary_op \<Rightarrow> jsstr" where
  "unary_text UPlus = js ''+''"
| "unary_text UMinus = js ''-''"
| "unary_text UNot = js ''!''"

fun binary_text :: "binary_op \<Rightarrow> jsstr" where
  "binary_text BAdd = js ''+''"
| "binary_text BSub = js ''-''"
| "binary_text BMul = js ''*''"
| "binary_text BPow = js ''**''"
| "binary_text BDiv = js ''/''"
| "binary_text BMod = js ''%''"
| "binary_text BLt = js ''<''"
| "binary_text BLe = js ''<=''"
| "binary_text BGt = js ''>''"
| "binary_text BGe = js ''>=''"
| "binary_text BEq = js ''==''"
| "binary_text BNe = js ''!=''"
| "binary_text BAnd = js ''&&''"
| "binary_text BOr = js ''||''"

definition literal_type :: "expr_value \<Rightarrow> static_type" where
  "literal_type v = (case v of VNum _ \<Rightarrow> TyNumber | VStr _ \<Rightarrow> TyString | VBool _ \<Rightarrow> TyBoolean)"

definition validateUnary :: "unary_op \<Rightarrow> static_type \<Rightarrow> (billing_error, static_type) result" where
  "validateUnary operator operand =
     (if operator = UNot then
        (if operand \<noteq> TyBoolean \<and> operand \<noteq> TyUnknown then Inl UnaryRequiresBoolean else Inr TyBoolean)
      else if operand \<noteq> TyNumber \<and> operand \<noteq> TyUnknown then Inl (UnaryRequiresNumber (unary_text operator))
      else Inr TyNumber)"

definition validateBinary ::
  "binary_op \<Rightarrow> static_type \<Rightarrow> static_type \<Rightarrow> (billing_error, static_type) result" where
  "validateBinary operator left right =
     (if operator = BAnd \<or> operator = BOr then
        (if (left \<noteq> TyBoolean \<and> left \<noteq> TyUnknown) \<or> (right \<noteq> TyBoolean \<and> right \<noteq> TyUnknown)
         then Inl (RequiresBooleans (binary_text operator)) else Inr TyBoolean)
      else if operator = BEq \<or> operator = BNe then
        (if left \<noteq> TyUnknown \<and> right \<noteq> TyUnknown \<and> left \<noteq> right
         then Inl ComparisonTypeMismatch else Inr TyBoolean)
      else if operator = BLt \<or> operator = BLe \<or> operator = BGt \<or> operator = BGe then
        (if left \<noteq> TyUnknown \<and> right \<noteq> TyUnknown
            \<and> (left \<noteq> right \<or> (left \<noteq> TyNumber \<and> left \<noteq> TyString))
         then Inl ComparisonTypeMismatch else Inr TyBoolean)
      else if operator = BAdd then
        (if left = right \<and> (left = TyNumber \<or> left = TyString) then Inr left
         else if left = TyUnknown \<or> right = TyUnknown then Inr TyUnknown
         else Inl PlusRequiresMatching)
      else if (left \<noteq> TyNumber \<and> left \<noteq> TyUnknown) \<or> (right \<noteq> TyNumber \<and> right \<noteq> TyUnknown)
      then Inl (RequiresNumbers (binary_text operator))
      else Inr TyNumber)"

definition requireArgumentCount :: "jsstr \<Rightarrow> 'a list \<Rightarrow> nat \<Rightarrow> (billing_error, unit) result" where
  "requireArgumentCount name args expected =
     (if length args \<noteq> expected then Inl (ArgumentCount name expected) else Inr ())"

definition validateCall :: "jsstr \<Rightarrow> static_type list \<Rightarrow> (billing_error, static_type) result" where
  "validateCall name argumentTypes =
     (if name = js ''tier'' then
        rbind (requireArgumentCount name argumentTypes 2) (\<lambda>_.
        if argumentTypes ! 0 \<noteq> TyString \<and> argumentTypes ! 0 \<noteq> TyUnknown then Inl TierRequiresName
        else if argumentTypes ! 1 \<noteq> TyNumber \<and> argumentTypes ! 1 \<noteq> TyUnknown then Inl TierRequiresValue
        else Inr TyNumber)
      else if name = js ''max'' \<or> name = js ''min'' then
        rbind (requireArgumentCount name argumentTypes 2) (\<lambda>_.
        if list_ex (\<lambda>t. t \<noteq> TyNumber \<and> t \<noteq> TyUnknown) argumentTypes
        then Inl (RequiresNumericArguments name) else Inr TyNumber)
      else if name = js ''abs'' \<or> name = js ''ceil'' \<or> name = js ''floor'' then
        rbind (requireArgumentCount name argumentTypes 1) (\<lambda>_.
        if argumentTypes ! 0 \<noteq> TyNumber \<and> argumentTypes ! 0 \<noteq> TyUnknown
        then Inl (RequiresNumericArguments name) else Inr TyNumber)
      else Inl (UnknownFunction name))"

fun validateNode :: "environment \<Rightarrow> expr \<Rightarrow> nat \<Rightarrow> (billing_error, static_type) result" where
  "validateNode env (Literal v) depth =
     (if MAX_EVALUATION_DEPTH < depth then Inl TooComplex else Inr (literal_type v))"
| "validateNode env (Identifier name) depth =
     (if MAX_EVALUATION_DEPTH < depth then Inl TooComplex
      else if \<not> has_own env name then Inl (UnknownVariable name) else Inr TyNumber)"
| "validateNode env (Unary operator operand) depth =
     (if MAX_EVALUATION_DEPTH < depth then Inl TooComplex
      else rbind (validateNode env operand (depth + 1)) (validateUnary operator))"
| "validateNode env (Binary operator left right) depth =
     (if MAX_EVALUATION_DEPTH < depth then Inl TooComplex
      else rbind (validateNode env left (depth + 1)) (\<lambda>tl.
           rbind (validateNode env right (depth + 1)) (\<lambda>tr. validateBinary operator tl tr)))"
| "validateNode env (Conditional condition consequent alternate) depth =
     (if MAX_EVALUATION_DEPTH < depth then Inl TooComplex
      else rbind (validateNode env condition (depth + 1)) (\<lambda>tc.
           rbind (validateNode env consequent (depth + 1)) (\<lambda>ta.
           rbind (validateNode env alternate (depth + 1)) (\<lambda>tb.
           if tc \<noteq> TyBoolean \<and> tc \<noteq> TyUnknown then Inl ConditionNotBoolean
           else Inr (if ta = tb then ta else TyUnknown)))))"
| "validateNode env (Call name args) depth =
     (if MAX_EVALUATION_DEPTH < depth then Inl TooComplex
      else rbind (rmap (\<lambda>a. validateNode env a (depth + 1)) args) (validateCall name))"

definition validate :: "environment \<Rightarrow> expr \<Rightarrow> (billing_error, unit) result" where
  "validate env expression =
     rbind (validateNode env expression 0) (\<lambda>t.
     if t \<noteq> TyNumber \<and> t \<noteq> TyUnknown then Inl ResultNotNumeric else Inr ())"

end
