(* ===== verification/BillingEvaluator.thy ===== *)
theory BillingEvaluator
  imports BillingValidator
begin

text \<open>
  The evaluator of billing expressions and the entry point \<open>evaluateBillingExpression\<close> of
  \<open>web/src/features/pricing/lib/billing-expression-evaluator.ts\<close>.  The mutable field
  \<open>matchedTier\<close> is threaded through the evaluation.  Arithmetic is that of binary64 numbers; the
  argument \<open>approx\<close> is the value that ECMAScript leaves to the implementation for \<open>**\<close>.
  The theorems relate the static check to the evaluation (preservation, progress, which errors
  remain), and state what a returned cost satisfies.
\<close>

record billing_result =
  cost :: number
  matchedTier :: jsstr

section \<open>Value helpers\<close>

definition ensureFinite :: "number \<Rightarrow> (billing_error, number) result" where
  "ensureFinite n = (if \<not> is_finite n then Inl NonFinite else Inr n)"

definition expectNumber :: "expr_value \<Rightarrow> (billing_error, number) result" where
  "expectNumber v = (case v of VNum n \<Rightarrow> ensureFinite n | _ \<Rightarrow> Inl ResultNotNumeric)"

definition expectBoolean :: "expr_value \<Rightarrow> (billing_error, bool) result" where
  "expectBoolean v = (case v of VBool b \<Rightarrow> Inr b | _ \<Rightarrow> Inl ConditionNotBoolean)"

definition strict_equals :: "expr_value \<Rightarrow> expr_value \<Rightarrow> bool" where
  "strict_equals a b = (case (a, b) of
       (VNum x, VNum y) \<Rightarrow> num_eq x y
     | (VStr x, VStr y) \<Rightarrow> x = y
     | (VBool x, VBool y) \<Rightarrow> x = y
     | _ \<Rightarrow> False)"

definition compareValues :: "binary_op \<Rightarrow> expr_value \<Rightarrow> expr_value \<Rightarrow> (billing_error, bool) result" where
  "compareValues operator left right = (case (left, right) of
       (VNum x, VNum y) \<Rightarrow> Inr (if operator = BLt then num_less x y
          else if operator = BLe then num_le x y
          else if operator = BGt then num_less y x
          else num_le y x)
     | (VStr x, VStr y) \<Rightarrow> Inr (if operator = BLt then js_less x y
          else if operator = BLe then js_le x y
          else if operator = BGt then js_less y x
          else js_le y x)
     | _ \<Rightarrow> Inl ComparisonTypeMismatch)"

section \<open>Operators and calls on evaluated operands\<close>

definition evaluateUnary :: "unary_op \<Rightarrow> expr_value \<Rightarrow> (billing_error, expr_value) result" where
  "evaluateUnary operator operand =
     (if operator = UNot then rbind (expectBoolean operand) (\<lambda>b. Inr (VBool (\<not> b)))
      else rbind (expectNumber operand) (\<lambda>n.
           rbind (ensureFinite (if operator = UMinus then num_neg n else n)) (\<lambda>r. Inr (VNum r))))"

definition arithmetic ::
  "(number \<Rightarrow> number \<Rightarrow> number) \<Rightarrow> binary_op \<Rightarrow> number \<Rightarrow> number \<Rightarrow> number" where
  "arithmetic approx operator a b = (case operator of
       BSub \<Rightarrow> num_sub a b
     | BMul \<Rightarrow> num_mul a b
     | BPow \<Rightarrow> num_pow approx a b
     | BDiv \<Rightarrow> num_div a b
     | _ \<Rightarrow> num_rem a b)"

text \<open>The part of \<open>evaluateBinary\<close> after both operands are evaluated (lines 739 to 775).\<close>

definition evaluateBinary ::
  "(number \<Rightarrow> number \<Rightarrow> number) \<Rightarrow> binary_op \<Rightarrow> expr_value \<Rightarrow> expr_value \<Rightarrow> (billing_error, expr_value) result" where
  "evaluateBinary approx operator left right =
     (if operator = BEq then Inr (VBool (strict_equals left right))
      else if operator = BNe then Inr (VBool (\<not> strict_equals left right))
      else if operator = BLt \<or> operator = BLe \<or> operator = BGt \<or> operator = BGe
      then rbind (compareValues operator left right) (\<lambda>b. Inr (VBool b))
      else if operator = BAdd then
        (case (left, right) of
           (VStr x, VStr y) \<Rightarrow> Inr (VStr (x @ y))
         | (VNum x, VNum y) \<Rightarrow> rbind (ensureFinite (num_add x y)) (\<lambda>r. Inr (VNum r))
         | _ \<Rightarrow> Inl PlusRequiresMatching)
      else rbind (expectNumber left) (\<lambda>a.
           rbind (expectNumber right) (\<lambda>b.
           rbind (ensureFinite (arithmetic approx operator a b)) (\<lambda>r. Inr (VNum r)))))"

definition evaluateCall ::
  "jsstr \<Rightarrow> expr_value list \<Rightarrow> jsstr \<Rightarrow> (billing_error, expr_value \<times> jsstr) result" where
  "evaluateCall name args tier =
     (if name = js ''tier'' then
        rbind (requireArgumentCount name args 2) (\<lambda>_.
        case args ! 0 of
          VStr label \<Rightarrow> rbind (expectNumber (args ! 1)) (\<lambda>n. Inr (VNum n, label))
        | _ \<Rightarrow> Inl TierRequiresName)
      else if name = js ''max'' \<or> name = js ''min'' then
        rbind (requireArgumentCount name args 2) (\<lambda>_.
        rbind (expectNumber (args ! 0)) (\<lambda>a.
        rbind (expectNumber (args ! 1)) (\<lambda>b.
        Inr (VNum (if name = js ''max'' then math_max a b else math_min a b), tier))))
      else if name = js ''abs'' \<or> name = js ''ceil'' \<or> name = js ''floor'' then
        rbind (requireArgumentCount name args 1) (\<lambda>_.
        rbind (expectNumber (args ! 0)) (\<lambda>a.
        Inr (VNum (if name = js ''abs'' then math_abs a
                   else if name = js ''ceil'' then math_ceil a else math_floor a), tier)))
      else Inl (UnknownFunction name))"

section \<open>Evaluation\<close>

fun evaluateNode ::
  "(number \<Rightarrow> number \<Rightarrow> number) \<Rightarrow> environment \<Rightarrow> expr \<Rightarrow> nat \<Rightarrow> jsstr
     \<Rightarrow> (billing_error, expr_value \<times> jsstr) result" where
  "evaluateNode approx env (Literal v) depth tier =
     (if MAX_EVALUATION_DEPTH < depth then Inl TooComplex else Inr (v, tier))"
| "evaluateNode approx env (Identifier name) depth tier =
     (if MAX_EVALUATION_DEPTH < depth then Inl TooComplex
      else case map_of env name of
        None \<Rightarrow> Inl (UnknownVariable name)
      | Some n \<Rightarrow> Inr (VNum n, tier))"
| "evaluateNode approx env (Unary operator operand) depth tier =
     (if MAX_EVALUATION_DEPTH < depth then Inl TooComplex
      else rbind (evaluateNode approx env operand (depth + 1) tier) (\<lambda>(v, tier1).
           rbind (evaluateUnary operator v) (\<lambda>r. Inr (r, tier1))))"
| "evaluateNode approx env (Binary operator left right) depth tier =
     (if MAX_EVALUATION_DEPTH < depth then Inl TooComplex
      else if operator = BAnd \<or> operator = BOr then
        rbind (evaluateNode approx env left (depth + 1) tier) (\<lambda>(l, tier1).
        rbind (expectBoolean l) (\<lambda>b.
        if b = (operator = BAnd)
        then rbind (evaluateNode approx env right (depth + 1) tier1) (\<lambda>(r, tier2).
             rbind (expectBoolean r) (\<lambda>c. Inr (VBool c, tier2)))
        else Inr (VBool b, tier1)))
      else
        rbind (evaluateNode approx env left (depth + 1) tier) (\<lambda>(l, tier1).
        rbind (evaluateNode approx env right (depth + 1) tier1) (\<lambda>(r, tier2).
        rbind (evaluateBinary approx operator l r) (\<lambda>v. Inr (v, tier2)))))"
| "evaluateNode approx env (Conditional condition consequent alternate) depth tier =
     (if MAX_EVALUATION_DEPTH < depth then Inl TooComplex
      else rbind (evaluateNode approx env condition (depth + 1) tier) (\<lambda>(c, tier1).
           rbind (expectBoolean c) (\<lambda>b.
           if b then evaluateNode approx env consequent (depth + 1) tier1
           else evaluateNode approx env alternate (depth + 1) tier1)))"
| "evaluateNode approx env (Call name args) depth tier =
     (if MAX_EVALUATION_DEPTH < depth then Inl TooComplex
      else rbind (rmap_st (\<lambda>a t. evaluateNode approx env a (depth + 1) t) args tier) (\<lambda>(vs, tier1).
           evaluateCall name vs tier1))"

fun check_environment :: "environment \<Rightarrow> (billing_error, unit) result" where
  "check_environment [] = Inr ()"
| "check_environment ((name, n) # env) =
     (if \<not> is_finite n \<or> num_less n (Fin 0) then Inl (InvalidEstimatorValue name)
      else check_environment env)"

definition evaluate ::
  "(number \<Rightarrow> number \<Rightarrow> number) \<Rightarrow> environment \<Rightarrow> expr \<Rightarrow> (billing_error, billing_result) result" where
  "evaluate approx env expression =
     rbind (check_environment env) (\<lambda>_.
     rbind (evaluateNode approx env expression 0 []) (\<lambda>(v, tier).
     rbind (expectNumber v) (\<lambda>n.
     if num_less n (Fin 0) then Inl NegativeCost
     else Inr \<lparr>cost = n, matchedTier = tier\<rparr>)))"

definition evaluateBillingExpression ::
  "(number \<Rightarrow> number \<Rightarrow> number) \<Rightarrow> jsstr \<Rightarrow> environment \<Rightarrow> (billing_error, billing_result) result" where
  "evaluateBillingExpression approx expression env =
     (if MAX_EXPRESSION_LENGTH < length expression then Inl ExpressionTooLong
      else
        let body = (if starts_with expression (js ''v1:'') then drop 3 expression else expression) in
        rbind (tokenize body) (\<lambda>tokens.
        rbind (parse tokens) (\<lambda>syntaxTree.
        rbind (validate env syntaxTree) (\<lambda>_.
        evaluate approx env syntaxTree))))"

section \<open>Preservation: values have their static types\<close>

definition has_type :: "expr_value \<Rightarrow> static_type \<Rightarrow> bool" where
  "has_type v t \<longleftrightarrow> t = TyUnknown \<or> literal_type v = t"

lemmas helper_defs = ensureFinite_def expectNumber_def expectBoolean_def requireArgumentCount_def

lemma validateUnary_preserves:
  "validateUnary operator s = Inr t \<Longrightarrow> evaluateUnary operator v = Inr w \<Longrightarrow> has_type w t"
  by (auto simp: validateUnary_def evaluateUnary_def has_type_def literal_type_def helper_defs
      split: if_splits expr_value.splits)

lemma validateBinary_preserves:
  "validateBinary operator s1 s2 = Inr t \<Longrightarrow> has_type v1 s1 \<Longrightarrow> has_type v2 s2 \<Longrightarrow>
     operator \<noteq> BAnd \<Longrightarrow> operator \<noteq> BOr \<Longrightarrow> evaluateBinary approx operator v1 v2 = Inr w \<Longrightarrow> has_type w t"
  by (cases operator)
    (auto simp: validateBinary_def evaluateBinary_def has_type_def literal_type_def helper_defs
      compareValues_def split: if_splits expr_value.splits prod.splits)

lemma validateCall_preserves:
  "validateCall name ts = Inr t \<Longrightarrow> evaluateCall name vs tier = Inr (w, tier') \<Longrightarrow> has_type w t"
  by (auto simp: validateCall_def evaluateCall_def has_type_def literal_type_def
      split: if_splits expr_value.splits)

lemma validateBinary_logical:
  "validateBinary operator s1 s2 = Inr t \<Longrightarrow> operator = BAnd \<or> operator = BOr \<Longrightarrow> t = TyBoolean"
  by (auto simp: validateBinary_def split: if_splits)

lemma evaluateNode_preserves:
  "validateNode env e d = Inr t \<Longrightarrow> evaluateNode approx env e d tier = Inr (v, tier') \<Longrightarrow> has_type v t"
proof (induction e arbitrary: d t tier v tier')
  case (Literal x)
  then show ?case by (auto simp: has_type_def split: if_splits)
next
  case (Identifier name)
  then show ?case by (auto simp: has_type_def literal_type_def split: if_splits option.splits)
next
  case (Unary operator e)
  then show ?case by (auto split: if_splits dest: validateUnary_preserves)
next
  case (Binary operator e1 e2)
  from Binary.prems(1) obtain s1 s2 where s: "validateNode env e1 (d + 1) = Inr s1"
    "validateNode env e2 (d + 1) = Inr s2" "validateBinary operator s1 s2 = Inr t"
    by (auto split: if_splits)
  show ?case
  proof (cases "operator = BAnd \<or> operator = BOr")
    case True
    with Binary.prems(2) have "\<exists>b. v = VBool b" by (auto split: if_splits)
    with validateBinary_logical [OF s(3) True] show ?thesis by (auto simp: has_type_def literal_type_def)
  next
    case False
    with Binary.prems(2) obtain l tier1 r where
      "evaluateNode approx env e1 (d + 1) tier = Inr (l, tier1)"
      "evaluateNode approx env e2 (d + 1) tier1 = Inr (r, tier')" "evaluateBinary approx operator l r = Inr v"
      by (auto split: if_splits)
    with Binary.IH s False show ?thesis by (blast intro: validateBinary_preserves)
  qed
next
  case (Conditional e1 e2 e3)
  from Conditional.prems(1) obtain ta tb where
    ts: "validateNode env e2 (d + 1) = Inr ta" "validateNode env e3 (d + 1) = Inr tb"
    "t = (if ta = tb then ta else TyUnknown)" by (auto split: if_splits)
  have "has_type v ta \<or> has_type v tb"
    using Conditional.prems(2) Conditional.IH(2) [OF ts(1)] Conditional.IH(3) [OF ts(2)]
    by (fastforce split: if_splits)
  with ts(3) show ?case by (auto simp: has_type_def)
next
  case (Call name args)
  then show ?case by (auto split: if_splits dest: validateCall_preserves)
qed


section \<open>Progress: the errors that remain after the static check\<close>

definition residual_error :: "billing_error \<Rightarrow> bool" where
  "residual_error e \<longleftrightarrow> e \<in> {NonFinite, ConditionNotBoolean, ResultNotNumeric,
     ComparisonTypeMismatch, PlusRequiresMatching, TierRequiresName}"

text \<open>An expression in which both branches of every conditional have the same static type.\<close>

fun homogeneous :: "environment \<Rightarrow> expr \<Rightarrow> nat \<Rightarrow> bool" where
  "homogeneous env (Literal v) d = True"
| "homogeneous env (Identifier name) d = True"
| "homogeneous env (Unary operator e) d = homogeneous env e (d + 1)"
| "homogeneous env (Binary operator e1 e2) d = (homogeneous env e1 (d + 1) \<and> homogeneous env e2 (d + 1))"
| "homogeneous env (Conditional e1 e2 e3) d =
     (homogeneous env e1 (d + 1) \<and> homogeneous env e2 (d + 1) \<and> homogeneous env e3 (d + 1)
      \<and> validateNode env e2 (d + 1) = validateNode env e3 (d + 1))"
| "homogeneous env (Call name es) d = list_all (\<lambda>e. homogeneous env e (d + 1)) es"

text \<open>The errors an operation may raise when \<open>exact\<close> says that no operand has an unknown type.\<close>

definition remaining :: "bool \<Rightarrow> billing_error \<Rightarrow> bool" where
  "remaining exact e \<longleftrightarrow> (if exact then e = NonFinite else residual_error e)"

lemma expectBoolean_remaining:
  "expectBoolean v = Inl e \<Longrightarrow> has_type v t \<Longrightarrow> t = TyBoolean \<or> t = TyUnknown \<Longrightarrow> (exact \<Longrightarrow> t \<noteq> TyUnknown)
     \<Longrightarrow> remaining exact e"
  by (auto simp: expectBoolean_def has_type_def literal_type_def remaining_def residual_error_def
      split: expr_value.splits)

lemma expectNumber_remaining:
  "expectNumber v = Inl e \<Longrightarrow> has_type v t \<Longrightarrow> t = TyNumber \<or> t = TyUnknown \<Longrightarrow> (exact \<Longrightarrow> t \<noteq> TyUnknown)
     \<Longrightarrow> remaining exact e"
  by (auto simp: helper_defs has_type_def literal_type_def remaining_def residual_error_def
      split: expr_value.splits if_splits)

lemma ensureFinite_remaining: "ensureFinite n = Inl e \<Longrightarrow> remaining exact e"
  by (auto simp: ensureFinite_def remaining_def residual_error_def split: if_splits)

lemma evaluateUnary_remaining:
  assumes "validateUnary operator s = Inr t" "has_type v s" "exact \<Longrightarrow> s \<noteq> TyUnknown"
    and "evaluateUnary operator v = Inl e"
  shows "remaining exact e"
  using assms expectBoolean_remaining [of v e s exact] expectNumber_remaining [of v e s exact]
  by (auto simp: validateUnary_def evaluateUnary_def rbind_eq_Inl ensureFinite_remaining split: if_splits)

lemma evaluateBinary_remaining:
  assumes "validateBinary operator s1 s2 = Inr t" "has_type v1 s1" "has_type v2 s2"
    and "exact \<Longrightarrow> s1 \<noteq> TyUnknown \<and> s2 \<noteq> TyUnknown" "operator \<noteq> BAnd" "operator \<noteq> BOr"
    and "evaluateBinary approx operator v1 v2 = Inl e"
  shows "remaining exact e"
proof -
  consider "operator \<in> {BEq, BNe}" | "operator \<in> {BLt, BLe, BGt, BGe}" | "operator = BAdd"
    | "operator \<in> {BSub, BMul, BPow, BDiv, BMod}"
    using assms(5,6) by (cases operator) auto
  then show ?thesis
  proof cases
    case 4
    with assms expectNumber_remaining [of v1 e s1 exact] expectNumber_remaining [of v2 e s2 exact]
    show ?thesis
      by (auto simp: validateBinary_def evaluateBinary_def rbind_eq_Inl ensureFinite_remaining
          split: if_splits)
  next
    case 3
    with assms show ?thesis
      by (auto simp: validateBinary_def evaluateBinary_def remaining_def residual_error_def has_type_def
          literal_type_def rbind_eq_Inl ensureFinite_def split: if_splits expr_value.splits)
  qed (use assms in \<open>auto simp: validateBinary_def evaluateBinary_def remaining_def residual_error_def
      has_type_def literal_type_def rbind_eq_Inl compareValues_def split: if_splits expr_value.splits\<close>)
qed

lemma list_all2_two: "list_all2 P xs ys \<Longrightarrow> length xs = 2 \<Longrightarrow>
    \<exists>a b c d. xs = [a, b] \<and> ys = [c, d] \<and> P a c \<and> P b d"
  by (auto simp: numeral_2_eq_2 length_Suc_conv list_all2_Cons1)

lemma list_all2_one: "list_all2 P xs ys \<Longrightarrow> length xs = 1 \<Longrightarrow> \<exists>a c. xs = [a] \<and> ys = [c] \<and> P a c"
  by (auto simp: length_Suc_conv list_all2_Cons1)

lemma evaluateCall_remaining:
  assumes "validateCall name ts = Inr t" "list_all2 has_type vs ts"
    and "exact \<Longrightarrow> TyUnknown \<notin> set ts" "evaluateCall name vs tier = Inl e"
  shows "remaining exact e"
proof -
  have len: "length vs = length ts" using assms(2) by (rule list_all2_lengthD)
  consider "name = js ''tier''" | "name = js ''max'' \<or> name = js ''min''"
    | "name = js ''abs'' \<or> name = js ''ceil'' \<or> name = js ''floor''"
    using assms(1) by (auto simp: validateCall_def simp del: js_Cons js_Nil split: if_splits)
  then show ?thesis
  proof cases
    case 1
    with assms(1) len have "length vs = 2" by (auto simp: validateCall_def requireArgumentCount_def split: if_splits)
    with list_all2_two [OF assms(2)] obtain a b c d where v: "vs = [a, b]" "ts = [c, d]" "has_type a c" "has_type b d"
      by blast
    with 1 assms expectNumber_remaining [of b e d exact] show ?thesis
      by (auto simp: validateCall_def evaluateCall_def requireArgumentCount_def rbind_eq_Inl has_type_def
          literal_type_def remaining_def residual_error_def simp del: js_Cons js_Nil split: if_splits expr_value.splits)
  next
    case 2
    with assms(1) len have "length vs = 2" by (auto simp: validateCall_def requireArgumentCount_def split: if_splits)
    with list_all2_two [OF assms(2)] obtain a b c d where v: "vs = [a, b]" "ts = [c, d]" "has_type a c" "has_type b d"
      by blast
    with 2 assms expectNumber_remaining [of a e c exact] expectNumber_remaining [of b e d exact] show ?thesis
      by (auto simp: validateCall_def evaluateCall_def requireArgumentCount_def rbind_eq_Inl split: if_splits)
  next
    case 3
    with assms(1) len have "length vs = 1" by (auto simp: validateCall_def requireArgumentCount_def split: if_splits)
    with list_all2_one [OF assms(2)] obtain a c where v: "vs = [a]" "ts = [c]" "has_type a c"
      by blast
    with 3 assms expectNumber_remaining [of a e c exact] show ?thesis
      by (auto simp: validateCall_def evaluateCall_def requireArgumentCount_def rbind_eq_Inl split: if_splits)
  qed
qed

lemma validateUnary_known: "validateUnary operator s = Inr t \<Longrightarrow> t \<noteq> TyUnknown"
  by (auto simp: validateUnary_def split: if_splits)

lemma validateBinary_known:
  "validateBinary operator s1 s2 = Inr t \<Longrightarrow> s1 \<noteq> TyUnknown \<Longrightarrow> s2 \<noteq> TyUnknown \<Longrightarrow> t \<noteq> TyUnknown"
  by (auto simp: validateBinary_def split: if_splits)

lemma validateCall_known: "validateCall name ts = Inr t \<Longrightarrow> t \<noteq> TyUnknown"
  by (auto simp: validateCall_def split: if_splits)

lemma homogeneous_known:
  "homogeneous env e d \<Longrightarrow> validateNode env e d = Inr t \<Longrightarrow> t \<noteq> TyUnknown"
proof (induction e arbitrary: d t)
  case (Literal x)
  then show ?case by (auto simp: literal_type_def split: if_splits expr_value.splits)
next
  case (Identifier x)
  then show ?case by (auto split: if_splits)
next
  case (Unary operator e)
  then show ?case by (auto split: if_splits dest: validateUnary_known)
next
  case (Binary operator e1 e2)
  from Binary.prems(2) obtain s1 s2 where "validateNode env e1 (d + 1) = Inr s1"
    "validateNode env e2 (d + 1) = Inr s2" "validateBinary operator s1 s2 = Inr t"
    by (auto split: if_splits)
  with Binary show ?case by (auto dest!: validateBinary_known)
next
  case (Conditional e1 e2 e3)
  then show ?case by (auto split: if_splits)
next
  case (Call name es)
  then show ?case by (auto split: if_splits dest: validateCall_known)
qed

lemma evaluateNode_remaining:
  assumes "validateNode env e d = Inr t" "exact \<Longrightarrow> homogeneous env e d"
    and "evaluateNode approx env e d tier = Inl err"
  shows "remaining exact err"
  using assms
proof (induction e arbitrary: d t tier err)
  case (Literal x)
  then show ?case by (auto split: if_splits)
next
  case (Identifier name)
  then show ?case by (auto simp: has_own_def split: if_splits option.splits)
next
  case (Unary operator e)
  from Unary.prems(1) obtain s where s: "validateNode env e (d + 1) = Inr s" "validateUnary operator s = Inr t"
    and d: "\<not> MAX_EVALUATION_DEPTH < d" by (auto split: if_splits)
  have h: "exact \<Longrightarrow> homogeneous env e (d + 1)" using Unary.prems(2) by simp
  consider "evaluateNode approx env e (d + 1) tier = Inl err"
    | v tier1 where "evaluateNode approx env e (d + 1) tier = Inr (v, tier1)" "evaluateUnary operator v = Inl err"
    using Unary.prems(3) d by (auto simp: rbind_eq_Inl)
  then show ?case
  proof cases
    case 1
    with Unary.IH s(1) h show ?thesis by blast
  next
    case 2
    with evaluateUnary_remaining [OF s(2) evaluateNode_preserves [OF s(1) 2(1)] _ 2(2)]
      homogeneous_known [OF h s(1)] show ?thesis by blast
  qed
next
  case (Binary operator e1 e2)
  from Binary.prems(1) obtain s1 s2 where s: "validateNode env e1 (d + 1) = Inr s1"
    "validateNode env e2 (d + 1) = Inr s2" "validateBinary operator s1 s2 = Inr t"
    and d: "\<not> MAX_EVALUATION_DEPTH < d" by (auto split: if_splits)
  have h: "exact \<Longrightarrow> homogeneous env e1 (d + 1)" "exact \<Longrightarrow> homogeneous env e2 (d + 1)"
    using Binary.prems(2) by simp_all
  have k: "exact \<Longrightarrow> s1 \<noteq> TyUnknown \<and> s2 \<noteq> TyUnknown" using homogeneous_known h s by blast
  have b: "operator = BAnd \<or> operator = BOr \<Longrightarrow>
      (s1 = TyBoolean \<or> s1 = TyUnknown) \<and> (s2 = TyBoolean \<or> s2 = TyUnknown)"
    using s(3) by (auto simp: validateBinary_def split: if_splits)
  consider (left) "evaluateNode approx env e1 (d + 1) tier = Inl err"
    | (right) tier1 where "evaluateNode approx env e2 (d + 1) tier1 = Inl err"
    | (left_type) l tier1 where "evaluateNode approx env e1 (d + 1) tier = Inr (l, tier1)"
        "operator = BAnd \<or> operator = BOr" "expectBoolean l = Inl err"
    | (right_type) r tier1 tier2 where "evaluateNode approx env e2 (d + 1) tier1 = Inr (r, tier2)"
        "operator = BAnd \<or> operator = BOr" "expectBoolean r = Inl err"
    | (operands) l r tier1 tier2 where "evaluateNode approx env e1 (d + 1) tier = Inr (l, tier1)"
        "evaluateNode approx env e2 (d + 1) tier1 = Inr (r, tier2)" "operator \<noteq> BAnd" "operator \<noteq> BOr"
        "evaluateBinary approx operator l r = Inl err"
    using Binary.prems(3) d by (auto simp: rbind_eq_Inl split: if_splits)
  then show ?case
  proof cases
    case left_type
    with b k expectBoolean_remaining [OF left_type(3) evaluateNode_preserves [OF s(1) left_type(1)]]
    show ?thesis by blast
  next
    case right_type
    with b k expectBoolean_remaining [OF right_type(3) evaluateNode_preserves [OF s(2) right_type(1)]]
    show ?thesis by blast
  next
    case operands
    with k evaluateBinary_remaining [OF s(3) evaluateNode_preserves [OF s(1) operands(1)]
        evaluateNode_preserves [OF s(2) operands(2)]] show ?thesis by blast
  qed (use Binary.IH s h in blast)+
next
  case (Conditional e1 e2 e3)
  from Conditional.prems(1) obtain tc ta tb where s: "validateNode env e1 (d + 1) = Inr tc"
    "validateNode env e2 (d + 1) = Inr ta" "validateNode env e3 (d + 1) = Inr tb"
    and c: "tc = TyBoolean \<or> tc = TyUnknown" and d: "\<not> MAX_EVALUATION_DEPTH < d"
    by (auto split: if_splits)
  have h: "exact \<Longrightarrow> homogeneous env e1 (d + 1)" "exact \<Longrightarrow> homogeneous env e2 (d + 1)"
    "exact \<Longrightarrow> homogeneous env e3 (d + 1)" using Conditional.prems(2) by simp_all
  consider (sub) tier1 where "evaluateNode approx env e1 (d + 1) tier1 = Inl err
      \<or> evaluateNode approx env e2 (d + 1) tier1 = Inl err \<or> evaluateNode approx env e3 (d + 1) tier1 = Inl err"
    | (cond) l tier1 where "evaluateNode approx env e1 (d + 1) tier = Inr (l, tier1)" "expectBoolean l = Inl err"
    using Conditional.prems(3) d by (auto simp: rbind_eq_Inl split: if_splits)
  then show ?case
  proof cases
    case sub
    with Conditional.IH s h show ?thesis by blast
  next
    case cond
    with c homogeneous_known [OF h(1) s(1)]
      expectBoolean_remaining [OF cond(2) evaluateNode_preserves [OF s(1) cond(1)]] show ?thesis by blast
  qed
next
  case (Call name es)
  from Call.prems(1) obtain ts where ts: "list_all2 (\<lambda>e t. validateNode env e (d + 1) = Inr t) es ts"
    "validateCall name ts = Inr t" and d: "\<not> MAX_EVALUATION_DEPTH < d"
    by (auto simp: rmap_Inr_iff split: if_splits)
  have h: "exact \<Longrightarrow> e \<in> set es \<Longrightarrow> homogeneous env e (d + 1)" for e
    using Call.prems(2) by (simp add: list_all_iff)
  consider (args) "rmap_st (\<lambda>a t. evaluateNode approx env a (d + 1) t) es tier = Inl err"
    | (call) vs tier1 where "rmap_st (\<lambda>a t. evaluateNode approx env a (d + 1) t) es tier = Inr (vs, tier1)"
        "evaluateCall name vs tier1 = Inl err"
    using Call.prems(3) d by (auto simp: rbind_eq_Inl)
  then show ?case
  proof cases
    case args
    then obtain a u where "a \<in> set es" "evaluateNode approx env a (d + 1) u = Inl err"
      by (blast dest: rmap_st_Inl)
    moreover from this(1) ts(1) obtain ta where "validateNode env a (d + 1) = Inr ta"
      by (auto simp: list_all2_conv_all_nth in_set_conv_nth)
    ultimately show ?thesis using Call.IH h by blast
  next
    case call
    have "list_all2 has_type vs ts"
      using ts(1) rmap_st_Inr [OF call(1)] evaluateNode_preserves
      by (fastforce simp: list_all2_conv_all_nth)
    moreover have "TyUnknown \<notin> set ts" if exact
      using ts(1) h [OF that] homogeneous_known by (fastforce simp: list_all2_conv_all_nth in_set_conv_nth)
    ultimately show ?thesis using evaluateCall_remaining [OF ts(2) _ _ call(2)] by blast
  qed
qed

section \<open>Representable values\<close>

definition wf_value :: "expr_value \<Rightarrow> bool" where
  "wf_value v = (case v of VNum n \<Rightarrow> wf_number n | _ \<Rightarrow> True)"

fun wf_expr :: "expr \<Rightarrow> bool" where
  "wf_expr (Literal v) = wf_value v"
| "wf_expr (Identifier name) = True"
| "wf_expr (Unary operator e) = wf_expr e"
| "wf_expr (Binary operator e1 e2) = (wf_expr e1 \<and> wf_expr e2)"
| "wf_expr (Conditional e1 e2 e3) = (wf_expr e1 \<and> wf_expr e2 \<and> wf_expr e3)"
| "wf_expr (Call name es) = list_all wf_expr es"

definition wf_env :: "environment \<Rightarrow> bool" where
  "wf_env env = list_all (\<lambda>(name, n). wf_number n) env"

lemma ensureFinite_Inr: "ensureFinite n = Inr m \<longleftrightarrow> m = n \<and> is_finite n"
  by (auto simp: ensureFinite_def)

lemma expectNumber_Inr: "expectNumber v = Inr m \<longleftrightarrow> v = VNum m \<and> is_finite m"
  by (auto simp: expectNumber_def ensureFinite_Inr split: expr_value.splits)

lemma expectBoolean_Inr: "expectBoolean v = Inr b \<longleftrightarrow> v = VBool b"
  by (auto simp: expectBoolean_def split: expr_value.splits)

lemmas expect_Inr = ensureFinite_Inr expectNumber_Inr expectBoolean_Inr

lemma evaluateUnary_wf: "wf_value v \<Longrightarrow> evaluateUnary operator v = Inr w \<Longrightarrow> wf_value w"
  by (auto simp: evaluateUnary_def expect_Inr wf_value_def wf_num_neg split: if_splits)

lemma arithmetic_wf:
  "\<forall>x y. wf_number (approx x y) \<Longrightarrow> wf_number a \<Longrightarrow> wf_number b \<Longrightarrow> wf_number (arithmetic approx operator a b)"
  by (cases operator) (simp_all add: arithmetic_def wf_num_ops wf_num_pow)

lemma evaluateBinary_wf:
  "\<forall>x y. wf_number (approx x y) \<Longrightarrow> wf_value v1 \<Longrightarrow> wf_value v2 \<Longrightarrow>
     evaluateBinary approx operator v1 v2 = Inr w \<Longrightarrow> wf_value w"
  by (auto simp: evaluateBinary_def expect_Inr wf_value_def arithmetic_wf wf_num_ops
      split: if_splits expr_value.splits)

lemma evaluateCall_wf:
  assumes "list_all wf_value vs" "evaluateCall name vs tier = Inr (w, tier')"
  shows "wf_value w"
proof -
  have "length vs = 1 \<or> length vs = 2 \<Longrightarrow> wf_value (vs ! 0)" "length vs = 2 \<Longrightarrow> wf_value (vs ! 1)"
    using assms(1) by (auto simp: list_all_length)
  with assms(2) show ?thesis
    by (auto simp: evaluateCall_def requireArgumentCount_def expect_Inr wf_value_def wf_num_ops wf_math_unary
        simp del: js_Cons js_Nil split: if_splits expr_value.splits)
qed

lemma evaluateNode_wf:
  assumes "\<forall>x y. wf_number (approx x y)" "wf_env env" "wf_expr e"
    and "evaluateNode approx env e d tier = Inr (v, tier')"
  shows "wf_value v"
  using assms(3,4)
proof (induction e arbitrary: d tier v tier')
  case (Literal x)
  then show ?case by (auto split: if_splits)
next
  case (Identifier name)
  then show ?case using assms(2)
    by (auto simp: wf_value_def wf_env_def list_all_iff dest!: map_of_SomeD split: if_splits option.splits)
next
  case (Unary operator e)
  from Unary.prems obtain x where "wf_expr e" "evaluateNode approx env e (d + 1) tier = Inr (x, tier')"
    "evaluateUnary operator x = Inr v" by (auto split: if_splits)
  with Unary.IH show ?case by (blast intro: evaluateUnary_wf)
next
  case (Binary operator e1 e2)
  show ?case
  proof (cases "operator = BAnd \<or> operator = BOr")
    case True
    with Binary.prems(2) show ?thesis by (auto simp: wf_value_def split: if_splits)
  next
    case False
    with Binary.prems(2) obtain l tier1 r where
      "evaluateNode approx env e1 (d + 1) tier = Inr (l, tier1)"
      "evaluateNode approx env e2 (d + 1) tier1 = Inr (r, tier')" "evaluateBinary approx operator l r = Inr v"
      by (auto split: if_splits)
    moreover from Binary.prems(1) have "wf_expr e1" "wf_expr e2" by simp_all
    ultimately show ?thesis using Binary.IH evaluateBinary_wf [OF assms(1)] by blast
  qed
next
  case (Conditional e1 e2 e3)
  then show ?case by (auto split: if_splits)
next
  case (Call name es)
  from Call.prems(2) obtain vs tier1 where
    run: "rmap_st (\<lambda>a t. evaluateNode approx env a (d + 1) t) es tier = Inr (vs, tier1)"
    and call: "evaluateCall name vs tier1 = Inr (v, tier')" by (auto split: if_splits)
  have "list_all wf_value vs"
    using rmap_st_inv [OF run, of "\<lambda>_. True" wf_value] Call.IH Call.prems(1) by (auto simp: list_all_iff)
  then show ?case using call by (rule evaluateCall_wf)
qed

section \<open>Exact evaluation\<close>

text \<open>
  The mathematical value of an expression over the rationals, defined where every intermediate
  result of \<open>+\<close>, \<open>-\<close>, \<open>*\<close> and \<open>/\<close> is a binary64 value: the reference against which the evaluator
  is exact.
\<close>

definition if_representable :: "rat \<Rightarrow> rat option" where
  "if_representable q = (if representable q then Some q else None)"

definition exact_arith :: "binary_op \<Rightarrow> rat \<Rightarrow> rat \<Rightarrow> rat option" where
  "exact_arith operator x y = (case operator of
       BAdd \<Rightarrow> if_representable (x + y)
     | BSub \<Rightarrow> if_representable (x - y)
     | BMul \<Rightarrow> if_representable (x * y)
     | BDiv \<Rightarrow> if y = 0 then None else if_representable (x / y)
     | _ \<Rightarrow> None)"

definition exact_compare :: "binary_op \<Rightarrow> rat \<Rightarrow> rat \<Rightarrow> bool option" where
  "exact_compare operator x y = (case operator of
       BLt \<Rightarrow> Some (x < y) | BLe \<Rightarrow> Some (x \<le> y) | BGt \<Rightarrow> Some (y < x) | BGe \<Rightarrow> Some (y \<le> x)
     | BEq \<Rightarrow> Some (x = y) | BNe \<Rightarrow> Some (x \<noteq> y) | _ \<Rightarrow> None)"

definition string_literal :: "expr \<Rightarrow> bool" where
  "string_literal e = (case e of Literal (VStr _) \<Rightarrow> True | _ \<Rightarrow> False)"

fun exact_num :: "environment \<Rightarrow> expr \<Rightarrow> rat option"
  and exact_bool :: "environment \<Rightarrow> expr \<Rightarrow> bool option" where
  "exact_num env (Literal v) = (case v of VNum n \<Rightarrow> (if is_finite n then Some (num_val n) else None) | _ \<Rightarrow> None)"
| "exact_num env (Identifier name) =
     (case map_of env name of None \<Rightarrow> None | Some n \<Rightarrow> if is_finite n then Some (num_val n) else None)"
| "exact_num env (Unary operator e) =
     (if operator = UMinus then map_option uminus (exact_num env e)
      else if operator = UPlus then exact_num env e else None)"
| "exact_num env (Binary operator e1 e2) =
     Option.bind (exact_num env e1) (\<lambda>x. Option.bind (exact_num env e2) (exact_arith operator x))"
| "exact_num env (Conditional c e1 e2) =
     Option.bind (exact_bool env c) (\<lambda>b. if b then exact_num env e1 else exact_num env e2)"
| "exact_num env (Call name es) =
     (case es of
        [e1, e2] \<Rightarrow>
          if name = js ''tier'' then (if string_literal e1 then exact_num env e2 else None)
          else if name = js ''max'' then Option.bind (exact_num env e1) (\<lambda>x. map_option (max x) (exact_num env e2))
          else if name = js ''min'' then Option.bind (exact_num env e1) (\<lambda>x. map_option (min x) (exact_num env e2))
          else None
      | [e] \<Rightarrow>
          if name = js ''abs'' then map_option abs (exact_num env e)
          else if name = js ''floor'' then map_option (\<lambda>x. of_int \<lfloor>x\<rfloor>) (exact_num env e)
          else if name = js ''ceil'' then map_option (\<lambda>x. of_int \<lceil>x\<rceil>) (exact_num env e)
          else None
      | _ \<Rightarrow> None)"
| "exact_bool env (Literal v) = (case v of VBool b \<Rightarrow> Some b | _ \<Rightarrow> None)"
| "exact_bool env (Unary operator e) = (if operator = UNot then map_option Not (exact_bool env e) else None)"
| "exact_bool env (Binary operator e1 e2) =
     (if operator = BAnd then Option.bind (exact_bool env e1) (\<lambda>b. if b then exact_bool env e2 else Some False)
      else if operator = BOr then Option.bind (exact_bool env e1) (\<lambda>b. if b then Some True else exact_bool env e2)
      else Option.bind (exact_num env e1) (\<lambda>x. Option.bind (exact_num env e2) (exact_compare operator x)))"
| "exact_bool env _ = None"

fun height :: "expr \<Rightarrow> nat" where
  "height (Unary operator e) = height e + 1"
| "height (Binary operator e1 e2) = max (height e1) (height e2) + 1"
| "height (Conditional c e1 e2) = max (height c) (max (height e1) (height e2)) + 1"
| "height (Call name es) = fold max (map height es) 0 + 1"
| "height _ = 0"

lemma exact_arith_evaluateBinary:
  assumes "exact_arith operator x y = Some q" "denotes a x" "denotes b y"
  shows "\<exists>n. evaluateBinary approx operator (VNum a) (VNum b) = Inr (VNum n) \<and> denotes n q"
proof -
  note fin = denotes_not_special [OF assms(2)] denotes_not_special [OF assms(3)]
  have "\<exists>n. denotes n q \<and> (if operator = BAdd then n = num_add a b else n = arithmetic approx operator a b)
      \<and> operator \<in> {BAdd, BSub, BMul, BDiv}"
    using assms denotes_num_add [OF assms(2,3)] denotes_num_sub [OF assms(2,3)]
      denotes_num_mul [OF assms(2,3)] denotes_num_div [OF assms(2,3)]
    by (cases operator) (auto simp: exact_arith_def if_representable_def arithmetic_def split: if_splits)
  then obtain n where n: "denotes n q" "operator \<in> {BAdd, BSub, BMul, BDiv}"
    "if operator = BAdd then n = num_add a b else n = arithmetic approx operator a b" by blast
  then have "is_finite n" by (simp add: denotes_def)
  with n fin show ?thesis by (auto simp: evaluateBinary_def helper_defs split: if_splits)
qed

lemma exact_compare_evaluateBinary:
  assumes "exact_compare operator x y = Some r" "denotes a x" "denotes b y"
  shows "evaluateBinary approx operator (VNum a) (VNum b) = Inr (VBool r)"
  using assms(1) denotes_compare [OF assms(2,3)] denotes_compare [OF assms(3,2)]
  by (cases operator) (auto simp: exact_compare_def evaluateBinary_def compareValues_def strict_equals_def)

text \<open>What it means for the evaluator to be exact on an expression within the depth limit.\<close>

definition exact_at :: "(number \<Rightarrow> number \<Rightarrow> number) \<Rightarrow> environment \<Rightarrow> expr \<Rightarrow> bool" where
  "exact_at approx env e \<longleftrightarrow> (\<forall>d tier. d + height e \<le> MAX_EVALUATION_DEPTH \<longrightarrow>
     (\<forall>q. exact_num env e = Some q \<longrightarrow>
        (\<exists>n tier'. evaluateNode approx env e d tier = Inr (VNum n, tier') \<and> denotes n q))
     \<and> (\<forall>b. exact_bool env e = Some b \<longrightarrow> (\<exists>tier'. evaluateNode approx env e d tier = Inr (VBool b, tier'))))"

lemma exact_at_num:
  assumes "exact_at approx env e" "exact_num env e = Some q" "d + height e \<le> MAX_EVALUATION_DEPTH"
  obtains n tier' where "evaluateNode approx env e d tier = Inr (VNum n, tier')" "denotes n q" "is_finite n"
  using assms unfolding exact_at_def denotes_def by meson

lemma exact_at_bool:
  assumes "exact_at approx env e" "exact_bool env e = Some b" "d + height e \<le> MAX_EVALUATION_DEPTH"
  obtains tier' where "evaluateNode approx env e d tier = Inr (VBool b, tier')"
  using assms unfolding exact_at_def by meson

lemma exact_atI:
  assumes "\<And>d tier q. d + height e \<le> MAX_EVALUATION_DEPTH \<Longrightarrow> exact_num env e = Some q \<Longrightarrow>
      \<exists>n tier'. evaluateNode approx env e d tier = Inr (VNum n, tier') \<and> denotes n q"
    and "\<And>d tier b. d + height e \<le> MAX_EVALUATION_DEPTH \<Longrightarrow> exact_bool env e = Some b \<Longrightarrow>
      \<exists>tier'. evaluateNode approx env e d tier = Inr (VBool b, tier')"
  shows "exact_at approx env e"
  using assms unfolding exact_at_def by blast

lemma exact_at_Unary:
  assumes "exact_at approx env e"
  shows "exact_at approx env (Unary operator e)"
proof (rule exact_atI)
  fix d tier q
  assume d: "d + height (Unary operator e) \<le> MAX_EVALUATION_DEPTH" "exact_num env (Unary operator e) = Some q"
  then obtain x where x: "exact_num env e = Some x" "operator = UMinus \<and> q = - x \<or> operator = UPlus \<and> q = x"
    by (auto split: if_splits)
  have le: "d + 1 + height e \<le> MAX_EVALUATION_DEPTH" using d by simp
  obtain n tier' where
    n: "evaluateNode approx env e (d + 1) tier = Inr (VNum n, tier')" "denotes n x" "is_finite n" using exact_at_num [OF assms x(1) le] by blast
  have "is_finite (num_neg n)" using denotes_num_neg [OF n(2)] by (simp add: denotes_def)
  then show "\<exists>n tier'. evaluateNode approx env (Unary operator e) d tier = Inr (VNum n, tier') \<and> denotes n q"
    using n x(2) d denotes_num_neg [OF n(2)] by (auto simp: evaluateUnary_def helper_defs)
next
  fix d tier b
  assume d: "d + height (Unary operator e) \<le> MAX_EVALUATION_DEPTH" "exact_bool env (Unary operator e) = Some b"
  then obtain c where c: "exact_bool env e = Some c" "operator = UNot" "b = (\<not> c)" by (auto split: if_splits)
  have le: "d + 1 + height e \<le> MAX_EVALUATION_DEPTH" using d by simp
  obtain tier' where
    "evaluateNode approx env e (d + 1) tier = Inr (VBool c, tier')" using exact_at_bool [OF assms c(1) le] by blast
  then show "\<exists>tier'. evaluateNode approx env (Unary operator e) d tier = Inr (VBool b, tier')"
    using c d by (auto simp: evaluateUnary_def helper_defs)
qed

lemma exact_at_Binary:
  assumes "exact_at approx env e1" "exact_at approx env e2"
  shows "exact_at approx env (Binary operator e1 e2)"
proof (rule exact_atI)
  fix d tier q
  assume d: "d + height (Binary operator e1 e2) \<le> MAX_EVALUATION_DEPTH"
    and q: "exact_num env (Binary operator e1 e2) = Some q"
  have le: "d + 1 + height e1 \<le> MAX_EVALUATION_DEPTH" "d + 1 + height e2 \<le> MAX_EVALUATION_DEPTH"
    using d by simp_all
  from q obtain x y where xy: "exact_num env e1 = Some x" "exact_num env e2 = Some y" "exact_arith operator x y = Some q"
    by (auto simp: bind_eq_Some_conv)
  obtain a tier1 where
    a: "evaluateNode approx env e1 (d + 1) tier = Inr (VNum a, tier1)" "denotes a x" using exact_at_num [OF assms(1) xy(1) le(1)] by blast
  obtain b tier2 where
    b: "evaluateNode approx env e2 (d + 1) tier1 = Inr (VNum b, tier2)" "denotes b y" using exact_at_num [OF assms(2) xy(2) le(2)] by blast
  have "operator \<noteq> BAnd \<and> operator \<noteq> BOr" using xy(3) by (auto simp: exact_arith_def)
  with exact_arith_evaluateBinary [OF xy(3) a(2) b(2), of approx] a(1) b(1) d
  show "\<exists>n tier'. evaluateNode approx env (Binary operator e1 e2) d tier = Inr (VNum n, tier') \<and> denotes n q"
    by auto
next
  fix d tier r
  assume d: "d + height (Binary operator e1 e2) \<le> MAX_EVALUATION_DEPTH"
    and r: "exact_bool env (Binary operator e1 e2) = Some r"
  have le: "d + 1 + height e1 \<le> MAX_EVALUATION_DEPTH" "d + 1 + height e2 \<le> MAX_EVALUATION_DEPTH"
    using d by simp_all
  show "\<exists>tier'. evaluateNode approx env (Binary operator e1 e2) d tier = Inr (VBool r, tier')"
  proof (cases "operator = BAnd \<or> operator = BOr")
    case True
    with r obtain c where c: "exact_bool env e1 = Some c"
      "if c = (operator = BAnd) then exact_bool env e2 = Some r else r = c"
      by (auto simp: bind_eq_Some_conv split: if_splits)
    obtain tier1 where
      a: "evaluateNode approx env e1 (d + 1) tier = Inr (VBool c, tier1)" using exact_at_bool [OF assms(1) c(1) le(1)] by blast
    show ?thesis
    proof (cases "c = (operator = BAnd)")
      case t: True
      with c(2) have e2: "exact_bool env e2 = Some r" by simp
      obtain tier2 where
        "evaluateNode approx env e2 (d + 1) tier1 = Inr (VBool r, tier2)" using exact_at_bool [OF assms(2) e2 le(2)] by blast
      with a t True d show ?thesis by (auto simp: expectBoolean_def)
    next
      case False
      with a c(2) True d show ?thesis by (auto simp: expectBoolean_def)
    qed
  next
    case False
    with r obtain x y where xy: "exact_num env e1 = Some x" "exact_num env e2 = Some y"
      "exact_compare operator x y = Some r" by (auto simp: bind_eq_Some_conv)
    obtain a tier1 where
      a: "evaluateNode approx env e1 (d + 1) tier = Inr (VNum a, tier1)" "denotes a x" using exact_at_num [OF assms(1) xy(1) le(1)] by blast
    obtain b tier2 where
      b: "evaluateNode approx env e2 (d + 1) tier1 = Inr (VNum b, tier2)" "denotes b y" using exact_at_num [OF assms(2) xy(2) le(2)] by blast
    from exact_compare_evaluateBinary [OF xy(3) a(2) b(2), of approx] a(1) b(1) False d show ?thesis by auto
  qed
qed

lemma exact_at_Conditional:
  assumes "exact_at approx env c" "exact_at approx env e1" "exact_at approx env e2"
  shows "exact_at approx env (Conditional c e1 e2)"
proof (rule exact_atI)
  fix d tier q
  assume d: "d + height (Conditional c e1 e2) \<le> MAX_EVALUATION_DEPTH"
    and q: "exact_num env (Conditional c e1 e2) = Some q"
  have le: "d + 1 + height c \<le> MAX_EVALUATION_DEPTH" "d + 1 + height e1 \<le> MAX_EVALUATION_DEPTH"
    "d + 1 + height e2 \<le> MAX_EVALUATION_DEPTH" using d by simp_all
  from q obtain b where b: "exact_bool env c = Some b" "if b then exact_num env e1 = Some q else exact_num env e2 = Some q"
    by (auto simp: bind_eq_Some_conv split: if_splits)
  obtain tier1 where
    t: "evaluateNode approx env c (d + 1) tier = Inr (VBool b, tier1)" using exact_at_bool [OF assms(1) b(1) le(1)] by blast
  have "\<exists>n tier'. evaluateNode approx env (if b then e1 else e2) (d + 1) tier1 = Inr (VNum n, tier') \<and> denotes n q"
  proof (cases b)
    case True
    with b(2) have "exact_num env e1 = Some q" by simp
    from exact_at_num [OF assms(2) this le(2)] True show ?thesis by (metis (full_types))
  next
    case False
    with b(2) have "exact_num env e2 = Some q" by simp
    from exact_at_num [OF assms(3) this le(3)] False show ?thesis by (metis (full_types))
  qed
  with t d show "\<exists>n tier'. evaluateNode approx env (Conditional c e1 e2) d tier = Inr (VNum n, tier') \<and> denotes n q"
    by (cases b) (auto simp: expectBoolean_def)
qed simp

text \<open>The shapes of call that have an exact value.\<close>

lemma string_literalE:
  assumes "string_literal e"
  obtains label where "e = Literal (VStr label)"
  using assms by (auto simp: string_literal_def split: expr.splits expr_value.splits)

lemma exact_num_CallE:
  assumes "exact_num env (Call name es) = Some q"
  obtains label e where "es = [Literal (VStr label), e]" "name = js ''tier''" "exact_num env e = Some q"
    | e1 e2 x y where "es = [e1, e2]" "exact_num env e1 = Some x" "exact_num env e2 = Some y"
        "name = js ''max'' \<and> q = max x y \<or> name = js ''min'' \<and> q = min x y"
    | e x where "es = [e]" "exact_num env e = Some x"
        "name = js ''abs'' \<and> q = \<bar>x\<bar> \<or> name = js ''floor'' \<and> q = of_int \<lfloor>x\<rfloor> \<or> name = js ''ceil'' \<and> q = of_int \<lceil>x\<rceil>"
proof -
  consider e where "es = [e]" | e1 e2 where "es = [e1, e2]"
    using assms by (auto split: list.splits)
  then show thesis
  proof cases
    case 1
    with assms that(3) show thesis by (auto simp del: js_Cons js_Nil split: if_splits)
  next
    case (2 e1 e2)
    with assms that(1,2) show thesis
      by (auto simp: bind_eq_Some_conv elim!: string_literalE simp del: js_Cons js_Nil split: if_splits)
  qed
qed

lemma evaluateCall_numbers:
  "is_finite n \<Longrightarrow> evaluateCall (js ''tier'') [VStr label, VNum n] tier = Inr (VNum n, label)"
  "is_finite a \<Longrightarrow> is_finite b \<Longrightarrow> evaluateCall (js ''max'') [VNum a, VNum b] tier = Inr (VNum (math_max a b), tier)"
  "is_finite a \<Longrightarrow> is_finite b \<Longrightarrow> evaluateCall (js ''min'') [VNum a, VNum b] tier = Inr (VNum (math_min a b), tier)"
  "is_finite n \<Longrightarrow> evaluateCall (js ''abs'') [VNum n] tier = Inr (VNum (math_abs n), tier)"
  "is_finite n \<Longrightarrow> evaluateCall (js ''floor'') [VNum n] tier = Inr (VNum (math_floor n), tier)"
  "is_finite n \<Longrightarrow> evaluateCall (js ''ceil'') [VNum n] tier = Inr (VNum (math_ceil n), tier)"
  by (simp_all add: evaluateCall_def helper_defs)

lemma exact_at_Call:
  assumes IH: "\<And>e. e \<in> set es \<Longrightarrow> exact_at approx env e"
  shows "exact_at approx env (Call name es)"
proof (rule exact_atI)
  fix d tier q
  assume d: "d + height (Call name es) \<le> MAX_EVALUATION_DEPTH" and q: "exact_num env (Call name es) = Some q"
  have le: "d + 1 + height e \<le> MAX_EVALUATION_DEPTH" if "es = [e] \<or> es = [e', e] \<or> es = [e, e']" for e e'
    using d that by auto
  have dd: "\<not> MAX_EVALUATION_DEPTH < d" "\<not> MAX_EVALUATION_DEPTH < d + 1" if "es = e # es'" for e es'
    using d that by simp_all
  from q show "\<exists>n tier'. evaluateNode approx env (Call name es) d tier = Inr (VNum n, tier') \<and> denotes n q"
  proof (cases rule: exact_num_CallE)
    case (1 label e)
    have "exact_at approx env e" using IH 1(1) by simp
    from exact_at_num [OF this 1(3) le] 1(1) obtain n tier1 where
      "evaluateNode approx env e (d + 1) tier = Inr (VNum n, tier1)" "denotes n q" "is_finite n" by blast
    with 1 dd [OF 1(1)] show ?thesis by (simp add: evaluateCall_numbers del: js_Cons js_Nil)
  next
    case (2 e1 e2 x y)
    have e: "exact_at approx env e1" "exact_at approx env e2" using IH 2(1) by simp_all
    from exact_at_num [OF e(1) 2(2) le] 2(1) obtain a tier1 where
      a: "evaluateNode approx env e1 (d + 1) tier = Inr (VNum a, tier1)" "denotes a x" "is_finite a" by blast
    from exact_at_num [OF e(2) 2(3) le] 2(1) obtain b tier2 where
      b: "evaluateNode approx env e2 (d + 1) tier1 = Inr (VNum b, tier2)" "denotes b y" "is_finite b" by blast
    have "rmap_st (\<lambda>a t. evaluateNode approx env a (d + 1) t) es tier = Inr ([VNum a, VNum b], tier2)"
      using a(1) b(1) 2(1) by simp
    with a b 2(4) dd(1) [OF 2(1)] denotes_max_min [OF a(2) b(2)] show ?thesis
      by (elim disjE) (simp_all add: evaluateCall_numbers del: js_Cons js_Nil)
  next
    case (3 e x)
    have "exact_at approx env e" using IH 3(1) by simp
    from exact_at_num [OF this 3(2) le] 3(1) obtain n tier1 where
      n: "evaluateNode approx env e (d + 1) tier = Inr (VNum n, tier1)" "denotes n x" "is_finite n" by blast
    have "rmap_st (\<lambda>a t. evaluateNode approx env a (d + 1) t) es tier = Inr ([VNum n], tier1)"
      using n(1) 3(1) by simp
    with n 3(3) dd(1) [OF 3(1)] denotes_rounding [OF n(2)] show ?thesis
      by (elim disjE) (simp_all add: evaluateCall_numbers del: js_Cons js_Nil)
  qed
qed simp

lemma exact_at_all: "exact_at approx env e"
proof (induction e)
  case (Literal v)
  then show ?case by (auto intro!: exact_atI simp: denotes_def split: expr_value.splits if_splits)
next
  case (Identifier name)
  then show ?case by (auto intro!: exact_atI simp: denotes_def split: option.splits if_splits)
qed (simp_all add: exact_at_Unary exact_at_Binary exact_at_Conditional exact_at_Call)

section \<open>Sample inputs\<close>

definition sample_env :: environment where
  "sample_env = [(js ''p'', Fin 10), (js ''c'', Fin 3)]"

definition sample_tier :: expr where
  "sample_tier = Conditional (Binary BLt (Identifier (js ''p'')) (Literal (VNum (Fin 100))))
     (Call (js ''tier'') [Literal (VStr (js ''small'')), Binary BMul (Identifier (js ''p'')) (Literal (VNum (Fin 2)))])
     (Call (js ''tier'') [Literal (VStr (js ''large'')), Binary BMul (Identifier (js ''p'')) (Literal (VNum (Fin 3)))])"

definition sample_division :: expr where
  "sample_division = Binary BDiv (Identifier (js ''p'')) (Binary BSub (Identifier (js ''c'')) (Literal (VNum (Fin 3))))"

lemmas sample_eval = sample_env_def sample_tier_def sample_division_def MAX_EVALUATION_DEPTH_def has_own_def
  literal_type_def validateBinary_def validateCall_def evaluateBinary_def evaluateCall_def compareValues_def
  helper_defs arithmetic_def is_finite_def num_val_def num_less_def num_mul_def num_div_def num_sub_def
  num_add_def num_neg_def round_signed_def sign_neg_def signed_zero_def signed_inf_def

section \<open>Properties\<close>

text \<open>
  C1. The static check is sound: when an expression has static type number, string or boolean and
  its evaluation returns a value, the value is of that type.
\<close>

theorem static_types_sound:
  assumes "validateNode env e d = Inr t" "t \<noteq> TyUnknown" "evaluateNode approx env e d tier = Inr (v, tier')"
  shows "literal_type v = t"
  using evaluateNode_preserves [OF assms(1,3)] assms(2) by (simp add: has_type_def)

theorem static_types_sound_witness:
  "\<exists>v tier'. validateNode sample_env sample_tier 0 = Inr TyNumber
     \<and> evaluateNode (\<lambda>_ _. NaN) sample_env sample_tier 0 [] = Inr (v, tier') \<and> literal_type v = TyNumber"
proof -
  have v: "validateNode sample_env sample_tier 0 = Inr TyNumber" by (simp add: sample_eval)
  have e: "evaluateNode (\<lambda>_ _. NaN) sample_env sample_tier 0 [] = Inr (VNum (Fin 20), js ''small'')"
    by (simp add: sample_eval)
  from static_types_sound [OF v _ e] v e show ?thesis by blast
qed

text \<open>
  C6. After the static check, evaluation can fail only in the ways a gradual type system leaves open
  (a non-finite number, or an operand of unknown static type that turns out wrong), because an
  estimator value is invalid, or because the cost is negative.  Unknown variables and functions,
  wrong argument counts and the depth limit are excluded, and so are all internal errors.
\<close>

theorem validated_evaluation_errors:
  assumes "validate env e = Inr ()" "evaluate approx env e = Inl err"
  shows "residual_error err \<or> err = NegativeCost \<or> (\<exists>name. err = InvalidEstimatorValue name)"
proof -
  from assms(1) obtain t where t: "validateNode env e 0 = Inr t" by (auto simp: validate_def)
  have env: "check_environment env = Inl err \<Longrightarrow> \<exists>name. err = InvalidEstimatorValue name"
    by (induction env rule: check_environment.induct) (auto split: if_splits)
  from assms(2) consider "check_environment env = Inl err" | "evaluateNode approx env e 0 [] = Inl err"
    | v where "expectNumber v = Inl err" | "err = NegativeCost"
    by (auto simp: evaluate_def rbind_eq_Inl split: if_splits)
  then show ?thesis
  proof cases
    case 2
    with evaluateNode_remaining [OF t, of False] show ?thesis by (simp add: remaining_def)
  next
    case 3
    then show ?thesis by (auto simp: helper_defs residual_error_def split: expr_value.splits if_splits)
  qed (use env in auto)
qed

theorem validated_evaluation_errors_witness:
  "validate sample_env sample_division = Inr ()
     \<and> evaluate (\<lambda>_ _. NaN) sample_env sample_division = Inl NonFinite
     \<and> (residual_error NonFinite \<or> NonFinite = NegativeCost \<or> (\<exists>name. NonFinite = InvalidEstimatorValue name))"
proof -
  have v: "validate sample_env sample_division = Inr ()" by (simp add: sample_eval validate_def)
  have e: "evaluate (\<lambda>_ _. NaN) sample_env sample_division = Inl NonFinite"
    by (simp add: sample_eval evaluate_def)
  from validated_evaluation_errors [OF v e] v e show ?thesis by blast
qed

text \<open>
  C7. When both branches of every conditional have the same static type, the only thing that can go
  wrong in evaluating a checked expression is a non-finite intermediate result.
\<close>

theorem homogeneous_only_overflows:
  assumes "validateNode env e d = Inr t" "homogeneous env e d" "evaluateNode approx env e d tier = Inl err"
  shows "err = NonFinite"
  using evaluateNode_remaining [OF assms(1) _ assms(3), of True] assms(2) by (simp add: remaining_def)

theorem homogeneous_only_overflows_witness:
  "\<exists>err. evaluateNode (\<lambda>_ _. NaN) sample_env sample_division 0 [] = Inl err \<and> err = NonFinite"
proof -
  have v: "validateNode sample_env sample_division 0 = Inr TyNumber" by (simp add: sample_eval)
  have h: "homogeneous sample_env sample_division 0" by (simp add: sample_division_def)
  have "evaluateNode (\<lambda>_ _. NaN) sample_env sample_division 0 [] = Inl NonFinite" by (simp add: sample_eval)
  then obtain err where e: "evaluateNode (\<lambda>_ _. NaN) sample_env sample_division 0 [] = Inl err" by blast
  from homogeneous_only_overflows [OF v h e] e show ?thesis by blast
qed

text \<open>
  C2. The local estimate is exact: when every intermediate sum, difference, product and quotient of
  the expression is a binary64 value (for instance all integers up to 2 to the power 53), the
  evaluator returns the mathematical value of the expression over the rationals, tiers, conditions,
  \<open>max\<close>, \<open>min\<close>, \<open>abs\<close>, \<open>floor\<close> and \<open>ceil\<close> included.  Expressions with \<open>%\<close> or \<open>**\<close> are left out, and the expression has
  to fit into the evaluation depth.
\<close>

theorem evaluateNode_exact:
  assumes "exact_num env e = Some q" "d + height e \<le> MAX_EVALUATION_DEPTH"
  shows "\<exists>n tier'. evaluateNode approx env e d tier = Inr (VNum n, tier') \<and> is_finite n \<and> num_val n = q"
  using exact_at_num [OF exact_at_all assms] unfolding denotes_def by metis

theorem evaluateNode_exact_witness:
  "\<exists>n tier'. evaluateNode (\<lambda>_ _. NaN) sample_env sample_tier 0 [] = Inr (VNum n, tier')
     \<and> is_finite n \<and> num_val n = 20"
proof -
  have "exact_num sample_env sample_tier = Some 20"
    using representable_int [of 20]
    by (simp add: sample_env_def sample_tier_def is_finite_def num_val_def exact_compare_def exact_arith_def
        if_representable_def string_literal_def)
  from evaluateNode_exact [OF this, of 0] show ?thesis by (simp add: sample_tier_def MAX_EVALUATION_DEPTH_def)
qed

text \<open>
  C13. What an accepted estimate satisfies: the source is within the length limit, every estimator
  input is finite and non-negative, and the cost is finite and non-negative.
\<close>

theorem billing_cost_bounds:
  assumes "evaluateBillingExpression approx src env = Inr r"
  shows "length src \<le> MAX_EXPRESSION_LENGTH \<and> is_finite (cost r) \<and> 0 \<le> num_val (cost r)
     \<and> list_all (\<lambda>(name, n). is_finite n \<and> 0 \<le> num_val n) env"
proof -
  have nonneg: "is_finite n \<Longrightarrow> \<not> num_less n (Fin 0) \<Longrightarrow> 0 \<le> num_val n" for n
    by (cases n) (auto simp: num_less_def is_finite_def num_val_def)
  have env: "check_environment env = Inr () \<Longrightarrow> list_all (\<lambda>(name, n). is_finite n \<and> 0 \<le> num_val n) env"
    by (induction env rule: check_environment.induct) (auto simp: nonneg split: if_splits)
  from assms obtain e where "evaluate approx env e = Inr r" "length src \<le> MAX_EXPRESSION_LENGTH"
    by (auto simp: evaluateBillingExpression_def Let_def split: if_splits)
  then show ?thesis
    using env by (auto simp: evaluate_def expect_Inr nonneg split: if_splits)
qed

theorem billing_cost_bounds_witness:
  "\<exists>r. evaluateBillingExpression (\<lambda>_ _. NaN) (js ''p*2'') sample_env = Inr r
     \<and> is_finite (cost r) \<and> 0 \<le> num_val (cost r) \<and> cost r = Fin 20"
proof -
  have run: "evaluateBillingExpression (\<lambda>_ _. NaN) (js ''p*2'') sample_env = Inr \<lparr>cost = Fin 20, matchedTier = []\<rparr>"
    using tokenize_sample parse_sample
    by (simp add: evaluateBillingExpression_def MAX_EXPRESSION_LENGTH_def validate_def evaluate_def
        sample_eval)
  from billing_cost_bounds [OF run] run show ?thesis by simp
qed

text \<open>
  Binary64 closure: when the literals, the estimator inputs and the implementation's \<open>**\<close> are
  binary64 numbers, the cost returned is one too.
\<close>

lemma evaluate_representable:
  assumes "wf_expr e" "wf_env env" "\<forall>x y. wf_number (approx x y)" "evaluate approx env e = Inr r"
  shows "wf_number (cost r)"
proof -
  from assms(4) obtain n tier where "evaluateNode approx env e 0 [] = Inr (VNum n, tier)" "cost r = n"
    by (auto simp: evaluate_def expect_Inr split: if_splits)
  with evaluateNode_wf [OF assms(3,2,1)] show ?thesis by (fastforce simp: wf_value_def)
qed

end
