(* ===== verification/JsText.thy ===== *)
theory JsText
  imports JsString
begin

text \<open>
  Further string operations of the JavaScript standard library that several components use:
  \<open>split\<close> at one code unit, \<open>join\<close>, \<open>includes\<close>, the values of a set in order, removal of white space, decimal text of a natural number, and
  \<open>parseInt(s, 10)\<close> on a string of digits.  The lemmas are the round trips between splitting and
  joining, and between printing and reading a number.
\<close>

fun js_split :: "code_unit \<Rightarrow> jsstr \<Rightarrow> jsstr list" where
  "js_split c [] = [[]]"
| "js_split c (x # xs) =
     (if x = c then [] # js_split c xs
      else case js_split c xs of [] \<Rightarrow> [[x]] | p # ps \<Rightarrow> (x # p) # ps)"

fun js_join :: "jsstr \<Rightarrow> jsstr list \<Rightarrow> jsstr" where
  "js_join sep [] = []"
| "js_join sep [s] = s"
| "js_join sep (s # t # ss) = s @ sep @ js_join sep (t # ss)"

text \<open>\<open>s.replace(/\s/g, '')\<close>\<close>

definition strip_spaces :: "jsstr \<Rightarrow> jsstr" where
  "strip_spaces s = filter (\<lambda>c. \<not> is_space c) s"

text \<open>\<open>String(n)\<close> for a natural number below 10 to the power 21.\<close>

fun nat_text :: "nat \<Rightarrow> jsstr" where
  "nat_text n = (if n < 10 then [48 + n] else nat_text (n div 10) @ [48 + n mod 10])"

declare nat_text.simps [simp del]

text \<open>\<open>/^\d+$/.test(s)\<close>\<close>

definition all_digits :: "jsstr \<Rightarrow> bool" where
  "all_digits s \<longleftrightarrow> s \<noteq> [] \<and> list_all is_digit s"

text \<open>\<open>s.includes(t)\<close>\<close>

fun js_includes :: "jsstr \<Rightarrow> jsstr \<Rightarrow> bool" where
  "js_includes [] t = starts_with [] t"
| "js_includes (c # cs) t = (starts_with (c # cs) t \<or> js_includes cs t)"

text \<open>The values of \<open>new Set(xs)\<close>, in the order of their first occurrence.\<close>

fun unique :: "'a list \<Rightarrow> 'a list" where
  "unique [] = []"
| "unique (x # xs) = x # filter (\<lambda>y. y \<noteq> x) (unique xs)"

lemma unique_simps [simp]: "set (unique xs) = set xs" "distinct (unique xs)"
  by (induction xs) auto

lemma unique_distinct: "distinct xs \<Longrightarrow> unique xs = xs"
  by (induction xs) (auto simp: filter_id_conv)

lemma unique_Nil_iff [simp]: "unique xs = [] \<longleftrightarrow> xs = []"
  by (cases xs) auto

section \<open>Splitting and joining\<close>

lemma js_split_not_Nil [simp]: "js_split c s \<noteq> []"
  by (induction s) (auto split: list.splits)

lemma js_split_no_sep: "c \<notin> set s \<Longrightarrow> js_split c s = [s]"
  by (induction s) auto

lemma js_split_append: "c \<notin> set s \<Longrightarrow> js_split c (s @ c # t) = s # js_split c t"
  by (induction s) auto

lemma js_split_join:
  "ps \<noteq> [] \<Longrightarrow> list_all (\<lambda>p. c \<notin> set p) ps \<Longrightarrow> js_split c (js_join [c] ps) = ps"
  by (induction "[c]" ps rule: js_join.induct) (auto simp: js_split_no_sep js_split_append)

lemma js_join_split: "js_join [c] (js_split c s) = s"
proof (induction s)
  case (Cons x s)
  obtain p ps where p: "js_split c s = p # ps" by (cases "js_split c s") auto
  with Cons show ?case by (cases ps) auto
qed simp

lemma set_js_join: "set (js_join sep ps) \<subseteq> set sep \<union> \<Union> (set ` set ps)"
  by (induction sep ps rule: js_join.induct) auto

section \<open>Trimming\<close>

lemma trim_start_id: "s = [] \<or> \<not> is_space (hd s) \<Longrightarrow> trim_start s = s"
  by (cases s) (auto simp: trim_start_def)

lemma js_trim_id: "s = [] \<or> (\<not> is_space (hd s) \<and> \<not> is_space (last s)) \<Longrightarrow> js_trim s = s"
  by (cases s rule: rev_cases) (auto simp: js_trim_def trim_start_id hd_rev)

lemma js_trim_no_space: "list_all (\<lambda>c. \<not> is_space c) s \<Longrightarrow> js_trim s = s"
  by (rule js_trim_id) (use hd_in_set [of s] last_in_set [of s] in \<open>auto simp: list_all_iff\<close>)

lemma trim_start_hd: "trim_start s = [] \<or> \<not> is_space (hd (trim_start s))"
  using hd_dropWhile [of is_space s] by (auto simp: trim_start_def)

lemma length_js_trim: "length (js_trim s) \<le> length s"
proof -
  have "length (trim_start t) \<le> length t" for t by (simp add: trim_start_def length_dropWhile_le)
  from this[of "rev (trim_start s)"] this[of s] show ?thesis by (simp add: js_trim_def)
qed

lemma js_trim_idem [simp]: "js_trim (js_trim s) = js_trim s"
proof (rule js_trim_id)
  let ?u = "trim_start s"
  let ?t = "trim_start (rev ?u)"
  have suffix: "\<exists>p. rev ?u = p @ ?t"
    unfolding trim_start_def by (metis takeWhile_dropWhile_id)
  show "js_trim s = [] \<or> \<not> is_space (hd (js_trim s)) \<and> \<not> is_space (last (js_trim s))"
  proof (cases "?t = []")
    case True
    then show ?thesis by (simp add: js_trim_def)
  next
    case False
    then have u: "?u \<noteq> []" by (metis dropWhile.simps(1) rev.simps(1) trim_start_def)
    from suffix obtain p where "?u = rev ?t @ rev p" by (metis rev_append rev_rev_ident)
    with False have "hd (rev ?t) = hd ?u" by (metis hd_append2 rev_is_Nil_conv)
    moreover have "\<not> is_space (hd ?u)" using trim_start_hd [of s] u by blast
    moreover have "\<not> is_space (hd ?t)" using trim_start_hd [of "rev ?u"] False by blast
    ultimately show ?thesis by (simp add: js_trim_def last_rev)
  qed
qed

lemma strip_spaces_no_space: "list_all (\<lambda>c. \<not> is_space c) s \<Longrightarrow> strip_spaces s = s"
  by (simp add: strip_spaces_def list_all_iff)

section \<open>Printing and reading numbers\<close>

lemma nat_text_digits: "list_all is_digit (nat_text n)"
proof (induction n rule: nat_text.induct)
  case (1 n)
  have "n mod 10 < 10" by simp
  then have "n mod 10 \<le> 9" by linarith
  with 1 show ?case by (simp add: nat_text.simps [of n] is_digit_def)
qed

lemma nat_text_not_Nil [simp]: "nat_text n \<noteq> []"
  by (simp add: nat_text.simps [of n])

lemma val_in_base_snoc: "val_in_base b (ds @ [d]) = b * val_in_base b ds + digit_val d"
  by (simp add: val_in_base_def)

lemma val_nat_text [simp]: "val_in_base 10 (nat_text n) = n"
proof (induction n rule: nat_text.induct)
  case (1 n)
  have d: "digit_val (48 + k) = k" if "k < 10" for k using that by (simp add: digit_val_def is_digit_def)
  show ?case
  proof (cases "n < 10")
    case True
    then show ?thesis using d [of n] by (simp add: nat_text.simps [of n] val_in_base_def)
  next
    case False
    with 1 d [of "n mod 10"] show ?thesis by (simp add: nat_text.simps [of n] val_in_base_snoc)
  qed
qed

lemma all_digits_nat_text [simp]: "all_digits (nat_text n)"
  using nat_text_digits by (simp add: all_digits_def)

lemma digits_no_space: "list_all is_digit s \<Longrightarrow> list_all (\<lambda>c. \<not> is_space c) s"
  by (auto simp: list_all_iff is_digit_def is_space_def)

lemma nat_text_no: "c < 48 \<or> 57 < c \<Longrightarrow> c \<notin> set (nat_text n)"
  using nat_text_digits [of n] by (auto simp: list_all_iff is_digit_def)

end
