(* ===== verification/HttpStatusRules.thy ===== *)
theory HttpStatusRules
  imports JsText "HOL-Library.Product_Lexorder"
begin

text \<open>
  The parser of HTTP status code rules, \<open>web/src/lib/http-status-code-rules.ts\<close>: comma-separated
  codes and ranges, sorted and merged into a canonical list, printed back as the normalised text.
  The lookup on such a list, \<open>shouldMatchStatusCodeRanges\<close> of
  \<open>setting/operation_setting/status_code_ranges.go\<close>, is modelled beside it because its early exit
  relies on the canonical form.  A code is a natural number; a digit string of any length is read
  exactly, which agrees with \<open>parseInt\<close> on every value up to 599 and on being above it.
\<close>

record StatusCodeRange =
  range_start :: nat
  range_end :: nat

record ParsedHttpStatusCodeRules =
  rules_ok :: bool
  rules_ranges :: "StatusCodeRange list"
  rules_tokens :: "jsstr list"
  rules_normalized :: jsstr
  rules_invalidTokens :: "jsstr list"

definition isNumber :: "jsstr \<Rightarrow> bool" where
  "isNumber s = all_digits s"

definition isValidCode :: "nat \<Rightarrow> bool" where
  "isValidCode code \<longleftrightarrow> 100 \<le> code \<and> code \<le> 599"

definition parseToken :: "jsstr \<Rightarrow> StatusCodeRange option" where
  "parseToken tok =
     (let cleaned = strip_spaces (js_trim tok) in
      if cleaned = [] then None
      else if 45 \<in> set cleaned then
        (let a = js_split 45 cleaned ! 0; b = js_split 45 cleaned ! 1 in
         if \<not> isNumber a \<or> \<not> isNumber b then None
         else let first = val_in_base 10 a; final = val_in_base 10 b in
           if \<not> isValidCode first \<or> \<not> isValidCode final \<or> final < first then None
           else Some \<lparr>range_start = first, range_end = final\<rparr>)
      else if \<not> isNumber cleaned then None
      else let code = val_in_base 10 cleaned in
        if \<not> isValidCode code then None
        else Some \<lparr>range_start = code, range_end = code\<rparr>)"

definition merge_step :: "StatusCodeRange list \<Rightarrow> StatusCodeRange \<Rightarrow> StatusCodeRange list" where
  "merge_step merged cur =
     (if merged = [] \<or> range_end (last merged) + 1 < range_start cur then merged @ [cur]
      else butlast merged @ [(last merged)\<lparr>range_end := max (range_end (last merged)) (range_end cur)\<rparr>])"

definition mergeRanges :: "StatusCodeRange list \<Rightarrow> StatusCodeRange list" where
  "mergeRanges ranges =
     (if ranges = [] then []
      else foldl merge_step [] (sort_key (\<lambda>r. (range_start r, range_end r)) ranges))"

definition range_token :: "StatusCodeRange \<Rightarrow> jsstr" where
  "range_token r = (if range_start r = range_end r then nat_text (range_start r)
     else nat_text (range_start r) @ js ''-'' @ nat_text (range_end r))"

definition segments_of :: "jsstr \<Rightarrow> jsstr list" where
  "segments_of raw =
     filter (\<lambda>s. s \<noteq> []) (map js_trim (js_split 44 (map (\<lambda>c. if c = 65292 then 44 else c) raw)))"

definition parseHttpStatusCodeRules :: "jsstr \<Rightarrow> ParsedHttpStatusCodeRules" where
  "parseHttpStatusCodeRules input =
     (let raw = js_trim input in
      if raw = [] then
        \<lparr>rules_ok = True, rules_ranges = [], rules_tokens = [], rules_normalized = [], rules_invalidTokens = []\<rparr>
      else
        let segs = segments_of raw;
            invalid = filter (\<lambda>s. parseToken s = None) segs;
            ranges = List.map_filter parseToken segs in
        if invalid \<noteq> [] then
          \<lparr>rules_ok = False, rules_ranges = [], rules_tokens = [], rules_normalized = raw,
           rules_invalidTokens = invalid\<rparr>
        else
          let merged = mergeRanges ranges; toks = map range_token merged in
          \<lparr>rules_ok = True, rules_ranges = merged, rules_tokens = toks,
           rules_normalized = js_join (js '','') toks, rules_invalidTokens = []\<rparr>)"

text \<open>The lookup of the server.\<close>

fun match_ranges :: "StatusCodeRange list \<Rightarrow> nat \<Rightarrow> bool" where
  "match_ranges [] code = False"
| "match_ranges (r # rs) code =
     (if code < range_start r then False else if code \<le> range_end r then True else match_ranges rs code)"

definition shouldMatchStatusCodeRanges :: "StatusCodeRange list \<Rightarrow> nat \<Rightarrow> bool" where
  "shouldMatchStatusCodeRanges ranges code =
     (if code < 100 \<or> 599 < code then False else match_ranges ranges code)"

section \<open>Specification: the set of codes and the canonical form\<close>

definition codes :: "StatusCodeRange \<Rightarrow> nat set" where
  "codes r = {range_start r .. range_end r}"

definition covered :: "StatusCodeRange list \<Rightarrow> nat set" where
  "covered rs = (\<Union>r \<in> set rs. codes r)"

definition valid_range :: "StatusCodeRange \<Rightarrow> bool" where
  "valid_range r \<longleftrightarrow> range_start r \<le> range_end r"

definition separated :: "StatusCodeRange list \<Rightarrow> bool" where
  "separated rs \<longleftrightarrow> list_all valid_range rs \<and> sorted_wrt (\<lambda>a b. range_end a + 1 < range_start b) rs"

lemma covered_simps [simp]:
  "covered [] = {}" "covered (r # rs) = codes r \<union> covered rs" "covered (rs @ qs) = covered rs \<union> covered qs"
  by (auto simp: covered_def)

lemma merge_step_correct:
  assumes "separated m" "valid_range r" "m = [] \<or> range_start (last m) \<le> range_start r"
  shows "separated (merge_step m r) \<and> covered (merge_step m r) = covered m \<union> codes r
     \<and> range_start (last (merge_step m r)) \<le> range_start r \<and> merge_step m r \<noteq> []"
proof (cases m rule: rev_cases)
  case Nil
  with assms show ?thesis by (simp add: merge_step_def separated_def)
next
  case (snoc m' l)
  show ?thesis
  proof (cases "range_end l + 1 < range_start r")
    case True
    have "range_end a + 1 < range_start r" if "a \<in> set m'" for a
      using assms(1,3) snoc that by (fastforce simp: separated_def sorted_wrt_append)
    with True snoc assms show ?thesis by (auto simp: merge_step_def separated_def sorted_wrt_append)
  next
    case False
    with snoc assms show ?thesis
      by (auto simp: merge_step_def separated_def sorted_wrt_append valid_range_def codes_def)
  qed
qed

lemma foldl_merge_correct:
  assumes "separated m" "list_all valid_range rs" "sorted (map range_start rs)"
    and "m = [] \<or> (\<forall>r \<in> set rs. range_start (last m) \<le> range_start r)"
  shows "separated (foldl merge_step m rs) \<and> covered (foldl merge_step m rs) = covered m \<union> covered rs"
  using assms
proof (induction rs arbitrary: m)
  case (Cons r rs)
  have step: "separated (merge_step m r) \<and> covered (merge_step m r) = covered m \<union> codes r
     \<and> range_start (last (merge_step m r)) \<le> range_start r \<and> merge_step m r \<noteq> []"
    using Cons.prems by (intro merge_step_correct) auto
  have "separated (foldl merge_step (merge_step m r) rs)
      \<and> covered (foldl merge_step (merge_step m r) rs) = covered (merge_step m r) \<union> covered rs"
    using Cons.prems step by (intro Cons.IH) (auto intro: order_trans)
  with step show ?case by (simp add: Un_assoc)
qed simp

lemma sorted_starts:
  "sorted (map range_start (sort_key (\<lambda>r. (range_start r, range_end r)) rs))"
proof -
  have "sorted (map (\<lambda>r. (range_start r, range_end r)) (sort_key (\<lambda>r. (range_start r, range_end r)) rs))"
    by (rule sorted_sort_key)
  then show ?thesis by (auto simp: sorted_map less_eq_prod_def elim!: sorted_wrt_mono_rel [rotated])
qed

lemma mergeRanges_correct:
  assumes "list_all valid_range rs"
  shows "separated (mergeRanges rs) \<and> covered (mergeRanges rs) = covered rs"
proof -
  let ?s = "sort_key (\<lambda>r. (range_start r, range_end r)) rs"
  have "separated []" by (simp add: separated_def)
  moreover have "list_all valid_range ?s" using assms by (simp add: list_all_iff)
  moreover have "covered ?s = covered rs" by (simp add: covered_def)
  ultimately show ?thesis
    using foldl_merge_correct [of "[]" ?s] sorted_starts [of rs] by (auto simp: mergeRanges_def)
qed

section \<open>The canonical form is unique\<close>

lemma separated_ConsD:
  "separated (r # rs) \<Longrightarrow> separated rs \<and> range_start r \<le> range_end r \<and> (\<forall>c \<in> covered rs. range_end r + 1 < c)"
  by (fastforce simp: separated_def valid_range_def covered_def codes_def)

lemma separated_head:
  assumes "separated (x # xs)" "separated (y # ys)" "covered (x # xs) = covered (y # ys)"
  shows "x = y"
proof -
  note dx = separated_ConsD [OF assms(1)] and dy = separated_ConsD [OF assms(2)]
  have cov: "c \<in> codes x \<or> c \<in> covered xs \<longleftrightarrow> c \<in> codes y \<or> c \<in> covered ys" for c
    using assms(3) by auto
  have s: "range_start x = range_start y"
    using cov [of "range_start x"] cov [of "range_start y"] dx dy by (force simp: codes_def)
  have "range_end x = range_end y"
  proof (rule linorder_cases)
    assume "range_end x < range_end y"
    then show ?thesis using cov [of "range_end x + 1"] dx dy s by (auto simp: codes_def)
  next
    assume "range_end y < range_end x"
    then show ?thesis using cov [of "range_end y + 1"] dx dy s by (auto simp: codes_def)
  qed
  with s show ?thesis by simp
qed

lemma covered_not_empty: "separated (y # ys) \<Longrightarrow> covered (y # ys) \<noteq> {}"
  using separated_ConsD [of y ys] by (auto simp: codes_def)

lemma covered_tail: "separated (y # ys) \<Longrightarrow> covered ys = {c \<in> covered (y # ys). range_end y < c}"
  using separated_ConsD [of y ys] by (auto simp: codes_def)

lemma separated_unique:
  "separated xs \<Longrightarrow> separated ys \<Longrightarrow> covered xs = covered ys \<Longrightarrow> xs = ys"
proof (induction xs arbitrary: ys)
  case Nil
  then show ?case using covered_not_empty by (cases ys) (simp, metis covered_simps(1))
next
  case (Cons x xs)
  obtain y ys' where ys: "ys = y # ys'"
    using Cons.prems(3) covered_not_empty [OF Cons.prems(1)] by (cases ys) (simp, blast)
  have xy: "x = y" using separated_head Cons.prems unfolding ys by blast
  have "covered xs = {c \<in> covered (x # xs). range_end x < c}" by (rule covered_tail [OF Cons.prems(1)])
  also have "\<dots> = {c \<in> covered (y # ys'). range_end y < c}" using Cons.prems(3) unfolding ys xy by (simp only:)
  also have "\<dots> = covered ys'" using Cons.prems(2) unfolding ys by (rule covered_tail [symmetric])
  finally have cov: "covered xs = covered ys'" .
  have "separated xs" using separated_ConsD [OF Cons.prems(1)] by (rule conjunct1)
  moreover have "separated ys'" using separated_ConsD [OF Cons.prems(2) [unfolded ys]] by (rule conjunct1)
  ultimately have "xs = ys'" using cov by (rule Cons.IH)
  with ys xy show ?case by simp
qed

section \<open>Printing and reading back\<close>

lemma range_token_no_space: "list_all (\<lambda>c. \<not> is_space c) (range_token r)"
  using digits_no_space [OF nat_text_digits [of "range_start r"]] digits_no_space [OF nat_text_digits [of "range_end r"]]
  by (simp add: range_token_def is_space_def)

lemma range_token_not_Nil [simp]: "range_token r \<noteq> []"
  by (simp add: range_token_def)

lemma range_token_no: "c < 45 \<or> 57 < c \<Longrightarrow> c \<notin> set (range_token r)"
  by (auto simp: range_token_def dest: nat_text_no [THEN notE, rotated])

lemma parseToken_range_token:
  assumes "isValidCode (range_start r)" "isValidCode (range_end r)" "valid_range r"
  shows "parseToken (range_token r) = Some r"
proof -
  have clean: "strip_spaces (js_trim (range_token r)) = range_token r"
    using range_token_no_space [of r] by (simp add: js_trim_no_space strip_spaces_no_space)
  have dash: "45 \<notin> set (nat_text n)" for n by (rule nat_text_no) simp
  show ?thesis
  proof (cases "range_start r = range_end r")
    case True
    then have "range_token r = nat_text (range_end r)" by (simp add: range_token_def)
    with True assms clean dash show ?thesis by (simp add: parseToken_def isNumber_def Let_def)
  next
    case False
    then have t: "range_token r = nat_text (range_start r) @ 45 # nat_text (range_end r)"
      by (simp add: range_token_def)
    have "js_split 45 (range_token r) = [nat_text (range_start r), nat_text (range_end r)]"
      unfolding t by (simp add: js_split_append js_split_no_sep dash)
    with assms clean t show ?thesis by (simp add: parseToken_def isNumber_def valid_range_def Let_def)
  qed
qed

lemma parseToken_valid:
  "parseToken t = Some r \<Longrightarrow> isValidCode (range_start r) \<and> isValidCode (range_end r) \<and> valid_range r"
  by (auto simp: parseToken_def Let_def valid_range_def split: if_splits)

lemma map_filter_valid: "list_all valid_range (List.map_filter parseToken segs)"
  by (induction segs) (auto simp: List.map_filter_def dest: parseToken_valid)

lemma set_map_filter: "r \<in> set (List.map_filter f xs) \<longleftrightarrow> (\<exists>x \<in> set xs. f x = Some r)"
  by (force simp: List.map_filter_def)

lemma covered_bounds:
  "c \<in> covered (List.map_filter parseToken segs) \<Longrightarrow> isValidCode c"
  by (fastforce simp: covered_def codes_def set_map_filter isValidCode_def dest: parseToken_valid)

lemma rules_ok_ranges:
  assumes "rules_ok (parseHttpStatusCodeRules input)"
  shows "\<exists>segs. rules_ranges (parseHttpStatusCodeRules input) = mergeRanges (List.map_filter parseToken segs)
     \<and> rules_normalized (parseHttpStatusCodeRules input)
       = js_join (js '','') (map range_token (rules_ranges (parseHttpStatusCodeRules input)))"
proof (cases "js_trim input = []")
  case True
  then show ?thesis
    by (intro exI [of _ "[]"]) (simp add: parseHttpStatusCodeRules_def mergeRanges_def List.map_filter_def)
next
  case False
  with assms have "filter (\<lambda>s. parseToken s = None) (segments_of (js_trim input)) = []"
    by (auto simp: parseHttpStatusCodeRules_def Let_def split: if_splits)
  with False show ?thesis
    by (intro exI [of _ "segments_of (js_trim input)"]) (simp add: parseHttpStatusCodeRules_def Let_def)
qed

lemma separated_valid_codes:
  assumes "separated rs" "\<And>c. c \<in> covered rs \<Longrightarrow> isValidCode c" "r \<in> set rs"
  shows "isValidCode (range_start r) \<and> isValidCode (range_end r) \<and> valid_range r"
proof -
  have v: "valid_range r" using assms(1,3) by (auto simp: separated_def list_all_iff)
  then have "range_start r \<in> covered rs" "range_end r \<in> covered rs"
    using assms(3) by (auto simp: covered_def codes_def valid_range_def)
  with v assms(2) show ?thesis by blast
qed

lemma segments_of_tokens:
  assumes "rs \<noteq> []"
  shows "segments_of (js_join [44] (map range_token rs)) = map range_token rs"
proof -
  let ?ts = "map range_token rs"
  have no: "c \<notin> set (js_join [44] ?ts)" if "c = 65292" for c
    using set_js_join [of "[44]" ?ts] range_token_no [of c] that by auto
  have keep: "map (\<lambda>c. if c = 65292 then 44 else c) (js_join [44] ?ts) = js_join [44] ?ts"
    by (rule map_idI) (use no in auto)
  have split: "js_split 44 (js_join [44] ?ts) = ?ts"
    using assms range_token_no [of 44] by (intro js_split_join) (auto simp: list_all_iff)
  have "map js_trim ?ts = ?ts"
    by (rule map_idI) (auto intro: js_trim_no_space range_token_no_space)
  then show ?thesis by (simp add: segments_of_def keep split)
qed

lemma join_tokens_no_space:
  "list_all (\<lambda>c. \<not> is_space c) (js_join [44] (map range_token rs))"
proof -
  have "\<not> is_space c" if "c \<in> set (js_join [44] (map range_token rs))" for c
  proof -
    from that set_js_join [of "[44]" "map range_token rs"] consider "c = 44" | r where "c \<in> set (range_token r)"
      by auto
    then show ?thesis
      by cases (simp add: is_space_def, use range_token_no_space in \<open>simp add: list_all_iff\<close>)
  qed
  then show ?thesis by (simp add: list_all_iff)
qed

lemma parse_normalized:
  assumes "separated rs" "\<And>c. c \<in> covered rs \<Longrightarrow> isValidCode c"
  shows "parseHttpStatusCodeRules (js_join (js '','') (map range_token rs)) =
     \<lparr>rules_ok = True, rules_ranges = rs, rules_tokens = map range_token rs,
      rules_normalized = js_join (js '','') (map range_token rs), rules_invalidTokens = []\<rparr>"
proof (cases "rs = []")
  case False
  let ?n = "js_join [44] (map range_token rs)"
  have tok: "parseToken (range_token r) = Some r" if "r \<in> set rs" for r
    using separated_valid_codes [OF assms that] by (blast intro: parseToken_range_token)
  have "?n \<noteq> []" using False by (cases rs; cases "tl rs") auto
  moreover have "js_trim ?n = ?n" by (rule js_trim_no_space [OF join_tokens_no_space])
  moreover have "List.map_filter parseToken (map range_token rs) = rs"
    using tok by (induction rs) (auto simp: List.map_filter_def)
  moreover have "filter (\<lambda>s. parseToken s = None) (map range_token rs) = []"
    using tok by (auto simp: filter_empty_conv)
  moreover have "list_all valid_range rs" using assms(1) by (simp add: separated_def)
  then have "mergeRanges rs = rs" using mergeRanges_correct assms(1) by (blast intro: separated_unique)
  ultimately show ?thesis
    using segments_of_tokens [OF False] by (simp add: parseHttpStatusCodeRules_def Let_def)
qed (simp add: parseHttpStatusCodeRules_def js_trim_def trim_start_def)

lemma match_ranges_separated: "separated rs \<Longrightarrow> match_ranges rs c \<longleftrightarrow> c \<in> covered rs"
proof (induction rs)
  case (Cons r rs)
  then show ?case using separated_ConsD [of r rs] by (auto simp: codes_def)
qed simp

section \<open>Properties\<close>

text \<open>
  C20. Merging keeps the set of codes and yields the canonical form: for ranges with start at most
  end, the result is sorted, its ranges are neither overlapping nor adjacent, and it covers exactly
  the codes of the input.
\<close>

theorem mergeRanges_canonical:
  assumes "list_all valid_range rs"
  shows "separated (mergeRanges rs) \<and> (\<forall>c. (\<exists>r \<in> set (mergeRanges rs). range_start r \<le> c \<and> c \<le> range_end r)
     \<longleftrightarrow> (\<exists>r \<in> set rs. range_start r \<le> c \<and> c \<le> range_end r))"
  using mergeRanges_correct [OF assms] by (auto simp: covered_def codes_def set_eq_iff)

theorem mergeRanges_canonical_witness:
  "separated (mergeRanges [\<lparr>range_start = 500, range_end = 503\<rparr>, \<lparr>range_start = 401, range_end = 401\<rparr>])
     \<and> mergeRanges [\<lparr>range_start = 500, range_end = 503\<rparr>, \<lparr>range_start = 401, range_end = 401\<rparr>]
       = [\<lparr>range_start = 401, range_end = 401\<rparr>, \<lparr>range_start = 500, range_end = 503\<rparr>]"
  using mergeRanges_canonical [of "[\<lparr>range_start = 500, range_end = 503\<rparr>, \<lparr>range_start = 401, range_end = 401\<rparr>]"]
  by (simp add: valid_range_def mergeRanges_def merge_step_def)

text \<open>
  C25. The normalised text is a fixed point: parsing the normalised form of an accepted input gives
  the same ranges, tokens and text again.
\<close>

theorem normalized_round_trip:
  assumes "rules_ok (parseHttpStatusCodeRules input)"
  shows "parseHttpStatusCodeRules (rules_normalized (parseHttpStatusCodeRules input)) =
     \<lparr>rules_ok = True, rules_ranges = rules_ranges (parseHttpStatusCodeRules input),
      rules_tokens = map range_token (rules_ranges (parseHttpStatusCodeRules input)),
      rules_normalized = rules_normalized (parseHttpStatusCodeRules input), rules_invalidTokens = []\<rparr>"
proof -
  obtain segs where r: "rules_ranges (parseHttpStatusCodeRules input) = mergeRanges (List.map_filter parseToken segs)"
    and n: "rules_normalized (parseHttpStatusCodeRules input)
       = js_join (js '','') (map range_token (rules_ranges (parseHttpStatusCodeRules input)))"
    using rules_ok_ranges [OF assms] by blast
  have m: "separated (mergeRanges (List.map_filter parseToken segs))"
    "covered (mergeRanges (List.map_filter parseToken segs)) = covered (List.map_filter parseToken segs)"
    using mergeRanges_correct [OF map_filter_valid] by blast+
  show ?thesis unfolding n unfolding r
    by (rule parse_normalized [OF m(1)]) (use m(2) covered_bounds in blast)
qed

lemma rules_sample:
  "parseHttpStatusCodeRules (js ''429, 500-503'') =
     \<lparr>rules_ok = True, rules_ranges = [\<lparr>range_start = 429, range_end = 429\<rparr>, \<lparr>range_start = 500, range_end = 503\<rparr>],
      rules_tokens = [js ''429'', js ''500-503''], rules_normalized = js ''429,500-503'', rules_invalidTokens = []\<rparr>"
  by (simp add: parseHttpStatusCodeRules_def segments_of_def parseToken_def js_trim_def trim_start_def
      strip_spaces_def is_space_def isNumber_def all_digits_def is_digit_def isValidCode_def val_in_base_def
      digit_val_def mergeRanges_def merge_step_def List.map_filter_def range_token_def nat_text.simps)

theorem normalized_round_trip_witness:
  "rules_ok (parseHttpStatusCodeRules (js ''429, 500-503''))
     \<and> rules_ranges (parseHttpStatusCodeRules (js ''429,500-503''))
       = [\<lparr>range_start = 429, range_end = 429\<rparr>, \<lparr>range_start = 500, range_end = 503\<rparr>]"
  using normalized_round_trip [of "js ''429, 500-503''"] by (simp add: rules_sample del: js_Cons js_Nil)

text \<open>
  C28. The server's lookup stops at the first range that starts after the code; on the ranges the
  rule parser accepts this is exact: a code matches when one of the accepted ranges contains it.
\<close>

theorem lookup_matches_rules:
  assumes "rules_ok (parseHttpStatusCodeRules input)"
  shows "shouldMatchStatusCodeRanges (rules_ranges (parseHttpStatusCodeRules input)) c \<longleftrightarrow>
     (\<exists>r \<in> set (rules_ranges (parseHttpStatusCodeRules input)). range_start r \<le> c \<and> c \<le> range_end r)"
proof -
  obtain segs where r: "rules_ranges (parseHttpStatusCodeRules input) = mergeRanges (List.map_filter parseToken segs)"
    using rules_ok_ranges [OF assms] by blast
  have m: "separated (mergeRanges (List.map_filter parseToken segs))"
    "covered (mergeRanges (List.map_filter parseToken segs)) = covered (List.map_filter parseToken segs)"
    using mergeRanges_correct [OF map_filter_valid] by blast+
  have "c \<in> covered (mergeRanges (List.map_filter parseToken segs)) \<Longrightarrow> isValidCode c"
    using m(2) covered_bounds by blast
  moreover have "(\<exists>r \<in> set rs. range_start r \<le> c \<and> c \<le> range_end r) \<longleftrightarrow> c \<in> covered rs" for rs
    by (simp add: covered_def codes_def)
  ultimately show ?thesis
    using match_ranges_separated [OF m(1), of c] unfolding r
    by (auto simp: shouldMatchStatusCodeRanges_def isValidCode_def)
qed

theorem lookup_matches_rules_witness:
  "shouldMatchStatusCodeRanges (rules_ranges (parseHttpStatusCodeRules (js ''429, 500-503''))) 502"
  using lookup_matches_rules [of "js ''429, 500-503''" 502] by (simp add: rules_sample del: js_Cons js_Nil)

text \<open>
  A range with more than two parts is accepted and the extra parts are dropped:
  \<open>200-300-999\<close> is read as the range from 200 to 300, where the server's parser of the same
  setting rejects every token that does not have exactly two parts.
\<close>

lemma extra_range_parts_ignored:
  "parseToken (js ''200-300-999'') = Some \<lparr>range_start = 200, range_end = 300\<rparr>"
  by (simp add: parseToken_def js_trim_def trim_start_def strip_spaces_def is_space_def isNumber_def
      all_digits_def is_digit_def isValidCode_def val_in_base_def digit_val_def)

end
