(* ===== verification/JsJson.thy ===== *)
theory JsJson
  imports JsText
begin

text \<open>
  Values of type \<open>unknown\<close> that come from JSON: the data a response body, a stored setting or an
  event carries.  \<open>undefined\<close> is the absence of a value, so a property read returns an option.  An
  object keeps its entries in order with distinct keys.
\<close>

datatype json =
    JNull
  | JBool bool
  | JNum number
  | JStr jsstr
  | JArr "json list"
  | JObj "(jsstr \<times> json) list"

text \<open>\<open>value.key\<close> of a value that is not null; named keys of primitives and arrays are absent.\<close>

definition json_get :: "json \<Rightarrow> jsstr \<Rightarrow> json option" where
  "json_get v key = (case v of JObj m \<Rightarrow> map_of m key | _ \<Rightarrow> None)"

text \<open>\<open>value?.key\<close>\<close>

definition json_opt_get :: "json option \<Rightarrow> jsstr \<Rightarrow> json option" where
  "json_opt_get v key = (case v of None \<Rightarrow> None | Some w \<Rightarrow> json_get w key)"

text \<open>\<open>Boolean(value) && typeof value === 'object'\<close>\<close>

definition is_object :: "json option \<Rightarrow> bool" where
  "is_object v = (case v of Some (JObj _) \<Rightarrow> True | Some (JArr _) \<Rightarrow> True | _ \<Rightarrow> False)"

definition num_truthy :: "number \<Rightarrow> bool" where
  "num_truthy n \<longleftrightarrow> n \<noteq> NaN \<and> n \<noteq> NZero \<and> n \<noteq> Fin 0"

definition json_truthy :: "json option \<Rightarrow> bool" where
  "json_truthy v = (case v of
       None \<Rightarrow> False
     | Some JNull \<Rightarrow> False
     | Some (JBool b) \<Rightarrow> b
     | Some (JNum n) \<Rightarrow> num_truthy n
     | Some (JStr s) \<Rightarrow> s \<noteq> []
     | Some _ \<Rightarrow> True)"

definition num_is_integer :: "number \<Rightarrow> bool" where
  "num_is_integer n \<longleftrightarrow> is_finite n \<and> of_int \<lfloor>num_val n\<rfloor> = num_val n"

definition json_string :: "json option \<Rightarrow> jsstr option" where
  "json_string v = (case v of Some (JStr s) \<Rightarrow> Some s | _ \<Rightarrow> None)"

definition json_number :: "json option \<Rightarrow> number option" where
  "json_number v = (case v of Some (JNum n) \<Rightarrow> Some n | _ \<Rightarrow> None)"

definition json_bool :: "json option \<Rightarrow> bool option" where
  "json_bool v = (case v of Some (JBool b) \<Rightarrow> Some b | _ \<Rightarrow> None)"

text \<open>
  The members every object literal inherits: \<open>table[key]\<close> is defined for these keys too.
\<close>

definition object_prototype_members :: "jsstr list" where
  "object_prototype_members = [js ''constructor'', js ''hasOwnProperty'', js ''isPrototypeOf'',
     js ''propertyIsEnumerable'', js ''toLocaleString'', js ''toString'', js ''valueOf'', js ''__proto__'',
     js ''__defineGetter__'', js ''__defineSetter__'', js ''__lookupGetter__'', js ''__lookupSetter__'']"

lemma json_get_simps [simp]:
  "json_get (JObj m) k = map_of m k" "json_get JNull k = None" "json_get (JStr s) k = None"
  "json_get (JNum n) k = None" "json_get (JBool b) k = None" "json_get (JArr xs) k = None"
  by (simp_all add: json_get_def)

lemma json_opt_get_simps [simp]:
  "json_opt_get None k = None" "json_opt_get (Some v) k = json_get v k"
  by (simp_all add: json_opt_get_def)

lemma json_string_Some [simp]: "json_string v = Some s \<longleftrightarrow> v = Some (JStr s)"
  by (auto simp: json_string_def split: option.splits json.splits)

lemma json_number_Some [simp]: "json_number v = Some n \<longleftrightarrow> v = Some (JNum n)"
  by (auto simp: json_number_def split: option.splits json.splits)

lemma json_bool_Some [simp]: "json_bool v = Some b \<longleftrightarrow> v = Some (JBool b)"
  by (auto simp: json_bool_def split: option.splits json.splits)

end
