(* ===== verification/AuthStore.thy ===== *)
theory AuthStore
  imports JsJson
begin

text \<open>
  The authentication state of the web client: the store of \<open>web/src/stores/auth-store.ts\<close>, the
  type guards on server data and the operations of \<open>web/src/lib/auth-session.ts\<close> that change the
  session (\<open>applyAuthBundle\<close>, \<open>applyAuthRotation\<close>, \<open>clearAuthentication\<close>), the cross-tab events of
  \<open>web/src/lib/auth-session-sync.ts\<close> with their handler in \<open>web/src/routes/__root.tsx\<close>, and
  \<open>clearPlaygroundData\<close> of the playground storage.  The module-level variables and the browser's
  storage of one tab are one record; the clock, the random identifiers and the failures of the storage
  are fields of it.
\<close>

section \<open>Data\<close>

record AuthUser =
  usr_id :: number
  usr_username :: jsstr
  usr_role :: number
  usr_fields :: "(jsstr \<times> json) list"

record LoginSession =
  ses_sid :: jsstr
  ses_current :: bool
  ses_login_method :: jsstr
  ses_ip :: jsstr
  ses_user_agent :: jsstr
  ses_created_at :: number
  ses_last_active_at :: number
  ses_expires_at :: number

record AuthBundle =
  bun_access_token :: jsstr
  bun_token_type :: jsstr
  bun_access_expires_at :: number
  bun_user :: AuthUser
  bun_session :: LoginSession

record AuthTokenRotation =
  rot_access_token :: jsstr
  rot_token_type :: jsstr
  rot_access_expires_at :: number
  rot_session :: LoginSession

datatype AuthBootstrapState = BootIdle | BootChecking | BootComplete

record AuthState =
  st_user :: "AuthUser option"
  st_accessToken :: "jsstr option"
  st_accessExpiresAt :: "number option"
  st_session :: "LoginSession option"
  st_pending2FAFlowToken :: "jsstr option"
  st_bootstrapState :: AuthBootstrapState

definition useAuthStore_initial :: AuthState where
  "useAuthStore_initial = \<lparr>st_user = None, st_accessToken = None, st_accessExpiresAt = None,
     st_session = None, st_pending2FAFlowToken = None, st_bootstrapState = BootIdle\<rparr>"

definition setBundle :: "AuthBundle \<Rightarrow> AuthState \<Rightarrow> AuthState" where
  "setBundle bundle a = a\<lparr>st_user := Some (bun_user bundle), st_accessToken := Some (bun_access_token bundle),
     st_accessExpiresAt := Some (bun_access_expires_at bundle), st_session := Some (bun_session bundle),
     st_pending2FAFlowToken := None, st_bootstrapState := BootComplete\<rparr>"

definition setUser :: "AuthUser option \<Rightarrow> AuthState \<Rightarrow> AuthState" where
  "setUser user a = a\<lparr>st_user := user\<rparr>"

definition setPending2FAFlowToken :: "jsstr option \<Rightarrow> AuthState \<Rightarrow> AuthState" where
  "setPending2FAFlowToken flowToken a = a\<lparr>st_pending2FAFlowToken := flowToken\<rparr>"

definition setBootstrapState :: "AuthBootstrapState \<Rightarrow> AuthState \<Rightarrow> AuthState" where
  "setBootstrapState bootstrapState a = a\<lparr>st_bootstrapState := bootstrapState\<rparr>"

definition reset_auth :: "AuthBootstrapState \<Rightarrow> AuthState \<Rightarrow> AuthState" where
  "reset_auth bootstrapState a = a\<lparr>st_user := None, st_accessToken := None, st_accessExpiresAt := None,
     st_session := None, st_pending2FAFlowToken := None, st_bootstrapState := bootstrapState\<rparr>"

section \<open>Type guards on server data\<close>

text \<open>
  A guard that returns true narrows the value to its type; the model returns the narrowed value.
\<close>

definition isAuthUser :: "json option \<Rightarrow> AuthUser option" where
  "isAuthUser v =
     (case (v, json_number (json_opt_get v (js ''id'')), json_string (json_opt_get v (js ''username'')),
            json_number (json_opt_get v (js ''role''))) of
        (Some (JObj m), Some i, Some u, Some r) \<Rightarrow>
          if num_is_integer i \<and> num_less (Fin 0) i
          then Some \<lparr>usr_id = i, usr_username = u, usr_role = r, usr_fields = m\<rparr> else None
      | _ \<Rightarrow> None)"

definition isLoginSession :: "json option \<Rightarrow> LoginSession option" where
  "isLoginSession v =
     (case (json_string (json_opt_get v (js ''sid'')), json_bool (json_opt_get v (js ''current'')),
            json_string (json_opt_get v (js ''login_method'')), json_string (json_opt_get v (js ''ip'')),
            json_string (json_opt_get v (js ''user_agent'')), json_number (json_opt_get v (js ''created_at'')),
            json_number (json_opt_get v (js ''last_active_at'')), json_number (json_opt_get v (js ''expires_at''))) of
        (Some s, Some cur, Some lm, Some ip, Some ua, Some ca, Some la, Some ea) \<Rightarrow>
          if s \<noteq> [] then Some \<lparr>ses_sid = s, ses_current = cur, ses_login_method = lm, ses_ip = ip,
             ses_user_agent = ua, ses_created_at = ca, ses_last_active_at = la, ses_expires_at = ea\<rparr>
          else None
      | _ \<Rightarrow> None)"

definition hasValidTokenFields :: "json option \<Rightarrow> (jsstr \<times> jsstr \<times> number) option" where
  "hasValidTokenFields v =
     (case (json_string (json_opt_get v (js ''access_token'')), json_string (json_opt_get v (js ''token_type'')),
            json_number (json_opt_get v (js ''access_expires_at''))) of
        (Some a, Some t, Some e) \<Rightarrow>
          if a \<noteq> [] \<and> t \<noteq> [] \<and> is_finite e \<and> num_less (Fin 0) e then Some (a, t, e) else None
      | _ \<Rightarrow> None)"

definition isAuthBundle :: "json option \<Rightarrow> AuthBundle option" where
  "isAuthBundle v =
     (case (hasValidTokenFields v, isAuthUser (json_opt_get v (js ''user'')),
            isLoginSession (json_opt_get v (js ''session''))) of
        (Some (a, t, e), Some u, Some s) \<Rightarrow>
          Some \<lparr>bun_access_token = a, bun_token_type = t, bun_access_expires_at = e, bun_user = u, bun_session = s\<rparr>
      | _ \<Rightarrow> None)"

definition isAuthTokenRotation :: "json option \<Rightarrow> AuthTokenRotation option" where
  "isAuthTokenRotation v =
     (case (hasValidTokenFields v, isLoginSession (json_opt_get v (js ''session''))) of
        (Some (a, t, e), Some s) \<Rightarrow>
          if t = js ''Bearer'' \<and> ses_current s
          then Some \<lparr>rot_access_token = a, rot_token_type = t, rot_access_expires_at = e, rot_session = s\<rparr> else None
      | _ \<Rightarrow> None)"

section \<open>The state of one tab\<close>

datatype sync_kind = SyncAuthenticated | SyncSignedOut

record AuthSessionSyncEvent =
  ev_kind :: sync_kind
  ev_sid :: jsstr
  ev_source :: jsstr
  ev_nonce :: jsstr
  ev_timestamp :: number

text \<open>
  \<open>storage_fault\<close> is None while the browser's storage can be used, and \<open>Some j\<close> when an access to it throws after
  \<open>j\<close> removals (a browser that blocks the storage throws at once, that is with \<open>Some 0\<close>).
\<close>

record tab =
  auth :: AuthState
  authEpoch :: nat
  localStorage :: "(jsstr \<times> jsstr) list"
  storage_fault :: "nat option"
  published :: "AuthSessionSyncEvent list"
  authSyncSource :: jsstr
  next_identifier :: jsstr
  now_ms :: int

definition PLAYGROUND_STORAGE_KEY_PREFIX :: jsstr where
  "PLAYGROUND_STORAGE_KEY_PREFIX = js ''playground_''"

definition is_playground_key :: "jsstr \<Rightarrow> bool" where
  "is_playground_key key = starts_with key PLAYGROUND_STORAGE_KEY_PREFIX"

definition clearPlaygroundData :: "tab \<Rightarrow> tab" where
  "clearPlaygroundData w =
     (let keysToRemove = filter is_playground_key (map fst (localStorage w));
          removed = (case storage_fault w of None \<Rightarrow> keysToRemove | Some j \<Rightarrow> take j keysToRemove)
      in w\<lparr>localStorage := filter (\<lambda>(key, _). key \<notin> set removed) (localStorage w)\<rparr>)"

definition publishAuthSessionEvent :: "sync_kind \<Rightarrow> jsstr \<Rightarrow> tab \<Rightarrow> tab" where
  "publishAuthSessionEvent kind sid w =
     (if sid = [] then w
      else w\<lparr>published := published w @ [\<lparr>ev_kind = kind, ev_sid = sid, ev_source = authSyncSource w,
               ev_nonce = next_identifier w, ev_timestamp = Fin (of_int (now_ms w))\<rparr>]\<rparr>)"

section \<open>Session changes\<close>

definition current_sid :: "tab \<Rightarrow> jsstr option" where
  "current_sid w = map_option ses_sid (st_session (auth w))"

definition current_user_id :: "tab \<Rightarrow> number option" where
  "current_user_id w = map_option usr_id (st_user (auth w))"

definition applyAuthBundle :: "AuthBundle \<Rightarrow> bool \<Rightarrow> tab \<Rightarrow> tab" where
  "applyAuthBundle bundle synchronizeTabs w =
     (let previousSID = current_sid w; previousUserId = current_user_id w;
          w1 = w\<lparr>authEpoch := authEpoch w + 1\<rparr>;
          w2 = (if previousUserId \<noteq> None \<and> previousUserId \<noteq> Some (usr_id (bun_user bundle))
                then clearPlaygroundData w1 else w1);
          w3 = w2\<lparr>auth := setBundle bundle (auth w2)\<rparr>
      in if synchronizeTabs \<and> previousSID \<noteq> Some (ses_sid (bun_session bundle))
         then publishAuthSessionEvent SyncAuthenticated (ses_sid (bun_session bundle)) w3 else w3)"

definition clearAuthentication :: "bool \<Rightarrow> AuthBootstrapState \<Rightarrow> tab \<Rightarrow> tab" where
  "clearAuthentication synchronizeTabs bootstrapState w =
     (let sid = current_sid w;
          w1 = w\<lparr>authEpoch := authEpoch w + 1\<rparr>;
          w2 = w1\<lparr>auth := reset_auth bootstrapState (auth w1)\<rparr>;
          w3 = clearPlaygroundData w2
      in case sid of
           Some s \<Rightarrow> if synchronizeTabs \<and> s \<noteq> [] then publishAuthSessionEvent SyncSignedOut s w3 else w3
         | None \<Rightarrow> w3)"

definition clearAuthenticatedClientState :: "('q \<Rightarrow> 'q) \<Rightarrow> bool \<Rightarrow> 'q \<times> tab \<Rightarrow> 'q \<times> tab" where
  "clearAuthenticatedClientState clear_queries synchronizeTabs qw =
     (clear_queries (fst qw), clearAuthentication synchronizeTabs BootComplete (snd qw))"

datatype AuthRotationError = InvalidRotation | NoActiveSession | RotationSessionMismatch

definition reauthentication_required :: "json option \<Rightarrow> bool" where
  "reauthentication_required v = (case v of
       Some (JObj m) \<Rightarrow> length m = 1 \<and> map_of m (js ''reauthentication_required'') = Some (JBool True)
     | _ \<Rightarrow> False)"

definition applyAuthRotation :: "json option \<Rightarrow> tab \<Rightarrow> (AuthRotationError, tab) result" where
  "applyAuthRotation value w =
     (if reauthentication_required value then Inr (clearAuthentication True BootComplete w)
      else case isAuthTokenRotation value of
        None \<Rightarrow> Inl InvalidRotation
      | Some r \<Rightarrow>
          (case (st_user (auth w), st_session (auth w)) of
             (Some user, Some session) \<Rightarrow>
               if ses_sid (rot_session r) \<noteq> ses_sid session then Inl RotationSessionMismatch
               else Inr (applyAuthBundle \<lparr>bun_access_token = rot_access_token r, bun_token_type = rot_token_type r,
                      bun_access_expires_at = rot_access_expires_at r, bun_user = user, bun_session = rot_session r\<rparr>
                      False w)
           | _ \<Rightarrow> Inl NoActiveSession))"

section \<open>Cross-tab events\<close>

definition isAuthSessionSyncEvent :: "json option \<Rightarrow> AuthSessionSyncEvent option" where
  "isAuthSessionSyncEvent v =
     (case (json_string (json_opt_get v (js ''kind'')), json_string (json_opt_get v (js ''sid'')),
            json_string (json_opt_get v (js ''source'')), json_string (json_opt_get v (js ''nonce'')),
            json_number (json_opt_get v (js ''timestamp''))) of
        (Some k, Some s, Some src, Some n, Some t) \<Rightarrow>
          if (k = js ''authenticated'' \<or> k = js ''signed_out'') \<and> s \<noteq> []
          then Some \<lparr>ev_kind = (if k = js ''authenticated'' then SyncAuthenticated else SyncSignedOut), ev_sid = s,
                 ev_source = src, ev_nonce = n, ev_timestamp = t\<rparr>
          else None
      | _ \<Rightarrow> None)"

definition deliver :: "AuthSessionSyncEvent option \<Rightarrow> tab \<Rightarrow> AuthSessionSyncEvent option" where
  "deliver ev w = (case ev of
       Some e \<Rightarrow> if ev_source e \<noteq> authSyncSource w
                     \<and> num_less (math_abs (num_sub (Fin (of_int (now_ms w))) (ev_timestamp e))) (Fin 60000)
                then Some e else None
     | None \<Rightarrow> None)"

datatype sync_action = NoAction | ReloadPage | Navigate jsstr

text \<open>
  The listener that the root route subscribes.  \<open>target\<close> is the sign-in address computed from the
  current location, \<open>clear_queries\<close> the query client's \<open>clear\<close>.
\<close>

definition on_sync_event ::
  "('q \<Rightarrow> 'q) \<Rightarrow> jsstr option \<Rightarrow> AuthSessionSyncEvent \<Rightarrow> 'q \<times> tab \<Rightarrow> sync_action \<times> 'q \<times> tab" where
  "on_sync_event clear_queries target ev qw =
     (let currentSID = current_sid (snd qw) in
      if ev_kind ev = SyncAuthenticated then
        (if currentSID = Some (ev_sid ev) then (NoAction, qw)
         else if currentSID \<noteq> None \<and> currentSID \<noteq> Some []
         then (ReloadPage, fst qw, clearAuthentication False BootComplete (snd qw))
         else (ReloadPage, qw))
      else if currentSID \<noteq> None \<and> currentSID \<noteq> Some [] \<and> currentSID = Some (ev_sid ev)
      then (case target of Some t \<Rightarrow> Navigate t | None \<Rightarrow> NoAction,
            clearAuthenticatedClientState clear_queries False qw)
      else (NoAction, qw))"

section \<open>Token validity and headers\<close>

definition now_seconds :: "tab \<Rightarrow> number" where
  "now_seconds w = Fin (of_int (now_ms w div 1000))"

definition token_truthy :: "jsstr option \<Rightarrow> bool" where
  "token_truthy t \<longleftrightarrow> t \<noteq> None \<and> t \<noteq> Some []"

definition expiry_truthy :: "number option \<Rightarrow> bool" where
  "expiry_truthy e = (case e of None \<Rightarrow> False | Some n \<Rightarrow> num_truthy n)"

definition currentValidAuthBundle :: "tab \<Rightarrow> AuthBundle option" where
  "currentValidAuthBundle w =
     (case (st_user (auth w), st_accessToken (auth w), st_accessExpiresAt (auth w), st_session (auth w)) of
        (Some user, Some tok, Some expiry, Some session) \<Rightarrow>
          if tok = [] \<or> \<not> num_truthy expiry \<or> num_le expiry (now_seconds w) then None
          else Some \<lparr>bun_access_token = tok, bun_token_type = js ''Bearer'', bun_access_expires_at = expiry,
                     bun_user = user, bun_session = session\<rparr>
      | _ \<Rightarrow> None)"

definition getCommonHeaders :: "tab \<Rightarrow> (jsstr \<times> jsstr) list" where
  "getCommonHeaders w = (js ''Content-Type'', js ''application/json'') #
     (if token_truthy (st_accessToken (auth w))
      then [(js ''Authorization'', js ''Bearer '' @ the (st_accessToken (auth w)))] else [])"

section \<open>Facts about single operations\<close>

lemma clearPlaygroundData_simps [simp]:
  "auth (clearPlaygroundData w) = auth w" "authEpoch (clearPlaygroundData w) = authEpoch w"
  "published (clearPlaygroundData w) = published w" "authSyncSource (clearPlaygroundData w) = authSyncSource w"
  "now_ms (clearPlaygroundData w) = now_ms w" "next_identifier (clearPlaygroundData w) = next_identifier w"
  "storage_fault (clearPlaygroundData w) = storage_fault w"
  by (simp_all add: clearPlaygroundData_def Let_def)

lemma publish_simps [simp]:
  "auth (publishAuthSessionEvent k s w) = auth w" "authEpoch (publishAuthSessionEvent k s w) = authEpoch w"
  "localStorage (publishAuthSessionEvent k s w) = localStorage w"
  "authSyncSource (publishAuthSessionEvent k s w) = authSyncSource w"
  "now_ms (publishAuthSessionEvent k s w) = now_ms w"
  by (simp_all add: publishAuthSessionEvent_def)

definition playground_empty :: "tab \<Rightarrow> bool" where
  "playground_empty w = list_all (\<lambda>(key, _). \<not> is_playground_key key) (localStorage w)"

lemma clearPlaygroundData_empty: "storage_fault w = None \<Longrightarrow> playground_empty (clearPlaygroundData w)"
  by (auto simp: playground_empty_def clearPlaygroundData_def Let_def list_all_iff image_iff)

text \<open>Whether or not an access throws, only playground data is removed.\<close>

lemma clearPlaygroundData_keeps:
  assumes "\<not> is_playground_key k"
  shows "map_of (localStorage (clearPlaygroundData w)) k = map_of (localStorage w) k"
proof -
  have keep: "map_of (filter (\<lambda>(key, _). key \<notin> S) m) k = map_of m k" if "k \<notin> S" for S and m :: "(jsstr \<times> jsstr) list"
    using that by (induction m) auto
  show ?thesis
    unfolding clearPlaygroundData_def Let_def
    by (simp, rule keep) (use assms in \<open>auto split: option.splits dest!: in_set_takeD\<close>)
qed

lemma playground_empty_localStorage: "localStorage v = localStorage w \<Longrightarrow> playground_empty v = playground_empty w"
  by (simp add: playground_empty_def)

lemma applyAuthBundle_simps [simp]:
  "auth (applyAuthBundle b sync w) = setBundle b (auth w)"
  "authEpoch (applyAuthBundle b sync w) = authEpoch w + 1"
  "authSyncSource (applyAuthBundle b sync w) = authSyncSource w" "now_ms (applyAuthBundle b sync w) = now_ms w"
  by (simp_all add: applyAuthBundle_def Let_def)

lemma clearAuthentication_simps [simp]:
  "auth (clearAuthentication sync boot w) = reset_auth boot (auth w)"
  "authEpoch (clearAuthentication sync boot w) = authEpoch w + 1"
  "authSyncSource (clearAuthentication sync boot w) = authSyncSource w" "now_ms (clearAuthentication sync boot w) = now_ms w"
  by (simp_all add: clearAuthentication_def Let_def split: option.splits)

lemma clear_same_storage:
  "localStorage v = localStorage w \<Longrightarrow> storage_fault v = storage_fault w \<Longrightarrow>
     localStorage (clearPlaygroundData v) = localStorage (clearPlaygroundData w)"
  by (simp add: clearPlaygroundData_def Let_def)

lemma clearAuthentication_storage: "localStorage (clearAuthentication sync boot w) = localStorage (clearPlaygroundData w)"
proof -
  have "localStorage (clearPlaygroundData (w\<lparr>authEpoch := e, auth := a\<rparr>)) = localStorage (clearPlaygroundData w)" for e a
    by (rule clear_same_storage) simp_all
  then show ?thesis by (simp add: clearAuthentication_def Let_def split: option.splits)
qed

lemma applyAuthBundle_storage:
  "localStorage (applyAuthBundle b sync w) = (if current_user_id w \<in> {None, Some (usr_id (bun_user b))} then localStorage w
     else localStorage (clearPlaygroundData w))"
proof -
  have "localStorage (clearPlaygroundData (w\<lparr>authEpoch := e\<rparr>)) = localStorage (clearPlaygroundData w)" for e
    by (rule clear_same_storage) simp_all
  then show ?thesis by (simp add: applyAuthBundle_def Let_def)
qed

lemma clearAuthentication_playground: "storage_fault w = None \<Longrightarrow> playground_empty (clearAuthentication sync boot w)"
  using clearPlaygroundData_empty playground_empty_localStorage [OF clearAuthentication_storage] by blast

end
