(* ===== verification/AuthRefresh.thy ===== *)
theory AuthRefresh
  imports AuthStore "HOL-Library.AList"
begin

text \<open>
  The refresh protocol of \<open>web/src/lib/auth-session.ts\<close>: \<open>createRefreshRunner\<close> over an abstract
  runtime, the runtime that \<open>runRefresh\<close> builds from the store, the browser lock and deadline of
  \<open>performRefreshWithBrowserLock\<close>, and the single-flight \<open>refreshAuthentication\<close>.  An \<open>await\<close> is a
  point where the rest of the client may run, so the runner is a state machine whose states are the
  points at which it is suspended; every other change of the session may happen in between.
\<close>

section \<open>The refresh runner\<close>

datatype refresh_error = AuthRefreshSupersededError | ErrorValue "json option"

datatype RefreshOutcome =
    Authenticated AuthBundle
  | Anonymous
  | TransientError refresh_error
  | OutOfSync "jsstr option"

record AuthRefreshHTTPResponse =
  res_status :: nat
  res_data :: "json option"
  res_error :: "json option"

record 's AuthRefreshRuntime =
  rt_getExpectedSID :: "'s \<Rightarrow> jsstr option"
  rt_parseBundle :: "json option \<Rightarrow> AuthBundle option"
  rt_acceptBundle :: "AuthBundle \<Rightarrow> 's \<Rightarrow> 's"
  rt_clear :: "bool \<Rightarrow> AuthBootstrapState option \<Rightarrow> 's \<Rightarrow> 's"
  rt_markTransient :: "'s \<Rightarrow> 's"
  rt_isCurrent :: "('s \<Rightarrow> bool) option"

text \<open>
  Where the runner is: waiting for the response to a request sent with an expected session, waiting
  for a delay, returned, or rejected with an error that was thrown.
\<close>

datatype runner =
    AwaitResponse nat bool "jsstr option"
  | AwaitDelay nat bool nat
  | Returned RefreshOutcome
  | Threw "json option"

definition refreshRaceDelays :: "nat list" where
  "refreshRaceDelays = [80, 200, 500]"

definition superseded :: RefreshOutcome where
  "superseded = TransientError AuthRefreshSupersededError"

definition is_stale :: "'s AuthRefreshRuntime \<Rightarrow> 's \<Rightarrow> bool" where
  "is_stale rt s = (case rt_isCurrent rt of None \<Rightarrow> False | Some f \<Rightarrow> \<not> f s)"

text \<open>The start of \<open>run\<close>, up to its first \<open>await\<close>.\<close>

definition run_enter :: "'s AuthRefreshRuntime \<Rightarrow> nat \<Rightarrow> bool \<Rightarrow> 's \<Rightarrow> 's \<times> runner" where
  "run_enter rt raceAttempt allowMismatchRetry s =
     (if is_stale rt s then (s, Returned superseded)
      else (s, AwaitResponse raceAttempt allowMismatchRetry (rt_getExpectedSID rt s)))"

text \<open>The rest of \<open>run\<close> once the response has arrived.\<close>

definition run_response ::
  "'s AuthRefreshRuntime \<Rightarrow> nat \<Rightarrow> bool \<Rightarrow> AuthRefreshHTTPResponse \<Rightarrow> 's \<Rightarrow> 's \<times> runner" where
  "run_response rt raceAttempt allowMismatchRetry response s =
     (if is_stale rt s then (s, Returned superseded)
      else
        let responseData = (if is_object (res_data response) then res_data response else None);
            code = json_string (json_opt_get responseData (js ''code''));
            bundle = rt_parseBundle rt (json_opt_get responseData (js ''data''))
        in if json_opt_get responseData (js ''success'') = Some (JBool True) \<and> bundle \<noteq> None
           then (rt_acceptBundle rt (the bundle) s, Returned (Authenticated (the bundle)))
           else if res_status response = 409 \<and> code = Some (js ''AUTH_REFRESH_RACE'')
           then (if raceAttempt < length refreshRaceDelays
                 then (s, AwaitDelay raceAttempt allowMismatchRetry (refreshRaceDelays ! raceAttempt))
                 else (rt_clear rt False None s, Returned (OutOfSync code)))
           else if res_status response = 409 \<and> code = Some (js ''AUTH_SESSION_MISMATCH'')
           then (if allowMismatchRetry
                 then run_enter rt 0 False (rt_clear rt False (Some BootIdle) s)
                 else (rt_clear rt False None s, Returned (OutOfSync code)))
           else if res_status response = 401
           then (rt_clear rt True None s, Returned Anonymous)
           else if res_status response = 0 \<or> 500 \<le> res_status response \<or> res_status response = 429
           then (rt_markTransient rt s,
                 Returned (TransientError (ErrorValue
                   (case res_error response of None \<Rightarrow> res_data response | Some JNull \<Rightarrow> res_data response
                      | Some e \<Rightarrow> Some e))))
           else (rt_clear rt False None s,
                 Returned (OutOfSync (Some (case code of None \<Rightarrow> js ''AUTH_INVALID_REFRESH_RESPONSE'' | Some c \<Rightarrow> c)))))"

datatype runner_event =
    Response AuthRefreshHTTPResponse
  | DelayDone
  | DelayRejected "json option" bool

text \<open>Which event can wake a suspended runner.\<close>

fun awaits :: "runner \<Rightarrow> runner_event \<Rightarrow> bool" where
  "awaits (AwaitResponse _ _ _) (Response _) = True"
| "awaits (AwaitDelay _ _ _) DelayDone = True"
| "awaits (AwaitDelay _ _ _) (DelayRejected _ _) = True"
| "awaits _ _ = False"

fun runner_step :: "'s AuthRefreshRuntime \<Rightarrow> 's \<times> runner \<Rightarrow> runner_event \<Rightarrow> 's \<times> runner" where
  "runner_step rt (s, AwaitResponse race allow sid) (Response response) = run_response rt race allow response s"
| "runner_step rt (s, AwaitDelay race allow delay) DelayDone = run_enter rt (race + 1) allow s"
| "runner_step rt (s, AwaitDelay race allow delay) (DelayRejected err signal_aborted) =
     (if \<not> signal_aborted then (s, Threw err)
      else (rt_markTransient rt s, Returned (TransientError (ErrorValue err))))"
| "runner_step rt (s, r) ev = (s, r)"

definition finished :: "runner \<Rightarrow> bool" where
  "finished r = (case r of Returned _ \<Rightarrow> True | Threw _ \<Rightarrow> True | _ \<Rightarrow> False)"

section \<open>The request and the delay\<close>

text \<open>What the HTTP client answers: a response, an error of its own with or without a response, or another error.\<close>

datatype http_result =
    HttpResponse nat "json option"
  | HttpError "(nat \<times> json option) option" "json option"
  | OtherError "json option"

definition refresh_headers :: "jsstr option \<Rightarrow> (jsstr \<times> jsstr) list" where
  "refresh_headers expectedSID = (case expectedSID of
       Some s \<Rightarrow> if s \<noteq> [] then [(js ''X-Auth-Session'', s)] else []
     | None \<Rightarrow> [])"

definition requestRefresh :: "http_result \<Rightarrow> AuthRefreshHTTPResponse" where
  "requestRefresh res = (case res of
       HttpResponse status data \<Rightarrow> \<lparr>res_status = status, res_data = data, res_error = None\<rparr>
     | HttpError (Some (status, data)) err \<Rightarrow> \<lparr>res_status = status, res_data = data, res_error = err\<rparr>
     | HttpError None err \<Rightarrow> \<lparr>res_status = 0, res_data = None, res_error = err\<rparr>
     | OtherError err \<Rightarrow> \<lparr>res_status = 0, res_data = None, res_error = err\<rparr>)"

text \<open>\<open>waitForRefreshRace\<close>: the promise with its timer and its abort listener.\<close>

datatype wait_result = WaitPending | WaitResolved | WaitRejected

record race_wait =
  wait_result :: wait_result
  wait_settled :: bool
  wait_timer :: bool
  wait_listener :: bool

definition waitForRefreshRace :: "bool \<Rightarrow> race_wait" where
  "waitForRefreshRace signal_aborted =
     (if signal_aborted
      then \<lparr>wait_result = WaitRejected, wait_settled = False, wait_timer = False, wait_listener = False\<rparr>
      else \<lparr>wait_result = WaitPending, wait_settled = False, wait_timer = True, wait_listener = True\<rparr>)"

definition on_wait_abort :: "race_wait \<Rightarrow> race_wait" where
  "on_wait_abort w =
     (if \<not> wait_listener w \<or> wait_settled w then w
      else \<lparr>wait_result = WaitRejected, wait_settled = True, wait_timer = False, wait_listener = False\<rparr>)"

definition on_wait_timer :: "race_wait \<Rightarrow> race_wait" where
  "on_wait_timer w =
     (if \<not> wait_timer w \<or> wait_settled w then w
      else \<lparr>wait_result = WaitResolved, wait_settled = True, wait_timer = False, wait_listener = False\<rparr>)"

lemma wait_settles_once:
  "wait_result w \<noteq> WaitPending \<Longrightarrow> \<not> wait_timer w \<Longrightarrow> \<not> wait_listener w \<Longrightarrow>
     on_wait_abort w = w \<and> on_wait_timer w = w"
  by (simp add: on_wait_abort_def on_wait_timer_def)

section \<open>Termination of the runner\<close>

text \<open>
  How many more events can wake the runner: at most four requests and three delays before and after
  the one retry that a session mismatch allows.
\<close>

fun budget :: "runner \<Rightarrow> nat" where
  "budget (AwaitResponse race allow _) = 2 * (3 - race) + 1 + (if allow then 7 else 0)"
| "budget (AwaitDelay race allow _) = 2 * (3 - race) + (if allow then 7 else 0)"
| "budget _ = 0"

fun runner_wf :: "runner \<Rightarrow> bool" where
  "runner_wf (AwaitResponse race _ _) = (race \<le> 3)"
| "runner_wf (AwaitDelay race _ _) = (race < 3)"
| "runner_wf _ = True"

lemma run_enter_wf: "race \<le> 3 \<Longrightarrow> runner_wf (snd (run_enter rt race allow s))"
  by (simp add: run_enter_def)

lemma run_enter_budget: "budget (snd (run_enter rt race allow s)) \<le> 2 * (3 - race) + 1 + (if allow then 7 else 0)"
  by (simp add: run_enter_def)

lemma run_response_progress:
  assumes "race \<le> 3"
  shows "runner_wf (snd (run_response rt race allow response s))
     \<and> budget (snd (run_response rt race allow response s)) < budget (AwaitResponse race allow sid)"
  using assms run_enter_wf [of 0 rt False] run_enter_budget [of rt 0 False "rt_clear rt False (Some BootIdle) s"]
  by (auto simp: run_response_def Let_def refreshRaceDelays_def simp del: js_Cons js_Nil)

lemma runner_step_progress:
  assumes "runner_wf r" "awaits r ev"
  shows "runner_wf (snd (runner_step rt (s, r) ev)) \<and> budget (snd (runner_step rt (s, r) ev)) < budget r"
  using assms
proof (cases "(r, ev)" rule: awaits.cases)
  case (1 race allow sid response)
  with assms run_response_progress [of race rt allow response s sid] show ?thesis by simp
next
  case (2 race allow delay)
  with assms run_enter_wf [of "race + 1" rt allow s] run_enter_budget [of rt "race + 1" allow s]
  show ?thesis by (auto split: if_splits)
qed auto

lemma awaits_step: "\<not> awaits r ev \<Longrightarrow> runner_step rt (s, r) ev = (s, r)"
  by (cases r; cases ev) auto

text \<open>
  A run of the runner in which the rest of the client, here any function on the state, may act
  between its events.  The last component counts the events that woke the runner.
\<close>

datatype 's run_event = Wake runner_event | Other "'s \<Rightarrow> 's"

fun refresh_run :: "'s AuthRefreshRuntime \<Rightarrow> 's run_event list \<Rightarrow> 's \<times> runner \<Rightarrow> nat \<Rightarrow> ('s \<times> runner) \<times> nat" where
  "refresh_run rt [] sr n = (sr, n)"
| "refresh_run rt (Wake ev # evs) sr n =
     refresh_run rt evs (runner_step rt sr ev) (if awaits (snd sr) ev then n + 1 else n)"
| "refresh_run rt (Other f # evs) sr n = refresh_run rt evs (f (fst sr), snd sr) n"

lemma refresh_run_budget:
  assumes "runner_wf (snd sr)"
  shows "runner_wf (snd (fst (refresh_run rt evs sr n)))
     \<and> snd (refresh_run rt evs sr n) + budget (snd (fst (refresh_run rt evs sr n))) \<le> n + budget (snd sr)"
  using assms
proof (induction rt evs sr n rule: refresh_run.induct)
  case (2 rt ev evs sr n)
  obtain s r where sr: "sr = (s, r)" by (cases sr)
  show ?case
  proof (cases "awaits r ev")
    case True
    with 2 sr runner_step_progress [of r ev rt s] show ?thesis by fastforce
  next
    case False
    with 2 sr awaits_step [of r ev rt s] show ?thesis by simp
  qed
qed simp_all

lemma budget_zero_finished: "runner_wf r \<Longrightarrow> budget r = 0 \<Longrightarrow> finished r"
  by (cases r) (auto simp: finished_def)

section \<open>The runtime built from the store\<close>

definition runtime_clear :: "bool \<Rightarrow> AuthBootstrapState option \<Rightarrow> tab \<Rightarrow> tab" where
  "runtime_clear synchronizeTabs bootstrapState w =
     (if \<not> synchronizeTabs \<and> bootstrapState = Some BootIdle then w\<lparr>auth := reset_auth BootIdle (auth w)\<rparr>
      else clearAuthentication synchronizeTabs (case bootstrapState of None \<Rightarrow> BootComplete | Some b \<Rightarrow> b) w)"

definition store_runtime :: "nat \<Rightarrow> tab AuthRefreshRuntime" where
  "store_runtime refreshEpoch =
     \<lparr>rt_getExpectedSID = current_sid,
      rt_parseBundle = isAuthBundle,
      rt_acceptBundle = (\<lambda>bundle. applyAuthBundle bundle False),
      rt_clear = runtime_clear,
      rt_markTransient = (\<lambda>w. w\<lparr>auth := setBootstrapState BootIdle (auth w)\<rparr>),
      rt_isCurrent = Some (\<lambda>w. authEpoch w = refreshEpoch)\<rparr>"

lemma store_runtime_simps [simp]:
  "rt_getExpectedSID (store_runtime e) = current_sid" "rt_parseBundle (store_runtime e) = isAuthBundle"
  "rt_acceptBundle (store_runtime e) = (\<lambda>bundle. applyAuthBundle bundle False)"
  "rt_clear (store_runtime e) = runtime_clear"
  "rt_markTransient (store_runtime e) = (\<lambda>w. w\<lparr>auth := setBootstrapState BootIdle (auth w)\<rparr>)"
  "is_stale (store_runtime e) w = (authEpoch w \<noteq> e)"
  by (simp_all add: store_runtime_def is_stale_def)

text \<open>What the caller catches: a thrown error marks the bootstrap idle and becomes a transient outcome.\<close>

definition settle :: "tab \<times> runner \<Rightarrow> tab \<times> runner" where
  "settle wr = (case snd wr of
       Threw err \<Rightarrow> ((fst wr)\<lparr>auth := setBootstrapState BootIdle (auth (fst wr))\<rparr>, Returned (TransientError (ErrorValue err)))
     | _ \<Rightarrow> wr)"

section \<open>The lock, the deadline and the single flight\<close>

datatype refresh_job = AwaitLock nat | Running nat runner

record client =
  tab_state :: tab
  refreshPromise :: "refresh_job option"
  outcomes :: "RefreshOutcome list"

definition store_job :: "nat \<Rightarrow> client \<Rightarrow> tab \<times> runner \<Rightarrow> client" where
  "store_job refreshEpoch c wr =
     (let (w, r) = settle wr in
      case r of
        Returned outcome \<Rightarrow> c\<lparr>tab_state := w, refreshPromise := None, outcomes := outcomes c @ [outcome]\<rparr>
      | _ \<Rightarrow> c\<lparr>tab_state := w, refreshPromise := Some (Running refreshEpoch r)\<rparr>)"

definition runRefresh :: "nat \<Rightarrow> client \<Rightarrow> client" where
  "runRefresh refreshEpoch c = store_job refreshEpoch c (run_enter (store_runtime refreshEpoch) 0 True (tab_state c))"

definition refreshAuthentication :: "bool \<Rightarrow> client \<Rightarrow> client" where
  "refreshAuthentication has_locks c =
     (if refreshPromise c \<noteq> None then c
      else let refreshEpoch = authEpoch (tab_state c) in
        if has_locks then c\<lparr>refreshPromise := Some (AwaitLock refreshEpoch)\<rparr> else runRefresh refreshEpoch c)"

definition lock_granted :: "client \<Rightarrow> client" where
  "lock_granted c = (case refreshPromise c of Some (AwaitLock refreshEpoch) \<Rightarrow> runRefresh refreshEpoch c | _ \<Rightarrow> c)"

definition lock_rejected :: "json option \<Rightarrow> client \<Rightarrow> client" where
  "lock_rejected err c = (case refreshPromise c of
       Some (AwaitLock refreshEpoch) \<Rightarrow> store_job refreshEpoch c (tab_state c, Threw err)
     | _ \<Rightarrow> c)"

definition refresh_event :: "runner_event \<Rightarrow> client \<Rightarrow> client" where
  "refresh_event ev c = (case refreshPromise c of
       Some (Running refreshEpoch r) \<Rightarrow>
         (if awaits r ev then store_job refreshEpoch c (runner_step (store_runtime refreshEpoch) (tab_state c, r) ev) else c)
     | _ \<Rightarrow> c)"

text \<open>\<open>bootstrapAuthentication\<close>: the outcome when it is known at once, and the new state.\<close>

definition bootstrapAuthentication :: "bool \<Rightarrow> client \<Rightarrow> RefreshOutcome option \<times> client" where
  "bootstrapAuthentication has_locks c =
     (let w = tab_state c in
      case currentValidAuthBundle w of
        Some bundle \<Rightarrow> (Some (Authenticated bundle), c\<lparr>tab_state := w\<lparr>auth := setBootstrapState BootComplete (auth w)\<rparr>\<rparr>)
      | None \<Rightarrow>
          let hasStaleSession = (st_user (auth w) \<noteq> None \<and> st_session (auth w) \<noteq> None) in
          if st_bootstrapState (auth w) = BootComplete \<and> \<not> hasStaleSession then (Some Anonymous, c)
          else (None, refreshAuthentication has_locks (c\<lparr>tab_state := w\<lparr>auth := setBootstrapState BootChecking (auth w)\<rparr>\<rparr>)))"

text \<open>\<open>getFreshAuthHeaders\<close> before and after its \<open>await\<close>.\<close>

definition fresh_headers_now :: "tab \<Rightarrow> (jsstr \<times> jsstr) list option" where
  "fresh_headers_now w =
     (if token_truthy (st_accessToken (auth w)) \<and> expiry_truthy (st_accessExpiresAt (auth w))
         \<and> num_less (num_add (now_seconds w) (Fin 60)) (the (st_accessExpiresAt (auth w)))
      then Some (getCommonHeaders w) else None)"

datatype headers_error = RequestFailed refresh_error | SessionExpired

definition fresh_headers_after :: "RefreshOutcome \<Rightarrow> tab \<Rightarrow> (headers_error, (jsstr \<times> jsstr) list) result" where
  "fresh_headers_after outcome w =
     (case outcome of
        Authenticated _ \<Rightarrow> Inr (getCommonHeaders w)
      | _ \<Rightarrow>
          if token_truthy (st_accessToken (auth w)) \<and> expiry_truthy (st_accessExpiresAt (auth w))
             \<and> num_less (now_seconds w) (the (st_accessExpiresAt (auth w)))
          then Inr (getCommonHeaders w)
          else case outcome of TransientError e \<Rightarrow> Inl (RequestFailed e) | _ \<Rightarrow> Inl SessionExpired)"

section \<open>Runs of the client\<close>

datatype auth_event =
    ApplyBundle AuthBundle bool
  | ApplyRotation "json option"
  | ClearAuth bool AuthBootstrapState
  | SetUser "AuthUser option"
  | SetPending2FA "jsstr option"
  | SetBootstrap AuthBootstrapState
  | StoreItem jsstr jsstr
  | StorageFault "nat option"
  | Tick int jsstr
  | Refresh bool
  | Bootstrap bool
  | LockGranted
  | LockRejected "json option"
  | RefreshEvent runner_event

abbreviation on_tab :: "(tab \<Rightarrow> tab) \<Rightarrow> client \<Rightarrow> client" where
  "on_tab f c \<equiv> c\<lparr>tab_state := f (tab_state c)\<rparr>"

abbreviation on_auth :: "(AuthState \<Rightarrow> AuthState) \<Rightarrow> tab \<Rightarrow> tab" where
  "on_auth f w \<equiv> w\<lparr>auth := f (auth w)\<rparr>"

fun auth_step :: "client \<Rightarrow> auth_event \<Rightarrow> client" where
  "auth_step c (ApplyBundle b sync) = on_tab (applyAuthBundle b sync) c"
| "auth_step c (ApplyRotation v) =
     (case applyAuthRotation v (tab_state c) of Inl _ \<Rightarrow> c | Inr w \<Rightarrow> c\<lparr>tab_state := w\<rparr>)"
| "auth_step c (ClearAuth sync boot) = on_tab (clearAuthentication sync boot) c"
| "auth_step c (SetUser u) = on_tab (on_auth (setUser u)) c"
| "auth_step c (SetPending2FA t) = on_tab (on_auth (setPending2FAFlowToken t)) c"
| "auth_step c (SetBootstrap b) = on_tab (on_auth (setBootstrapState b)) c"
| "auth_step c (StoreItem k v) = on_tab (\<lambda>w. w\<lparr>localStorage := AList.update k v (localStorage w)\<rparr>) c"
| "auth_step c (StorageFault fault) = on_tab (\<lambda>w. w\<lparr>storage_fault := fault\<rparr>) c"
| "auth_step c (Tick t ident) = on_tab (\<lambda>w. w\<lparr>now_ms := t, next_identifier := ident\<rparr>) c"
| "auth_step c (Refresh has_locks) = refreshAuthentication has_locks c"
| "auth_step c (Bootstrap has_locks) = snd (bootstrapAuthentication has_locks c)"
| "auth_step c LockGranted = lock_granted c"
| "auth_step c (LockRejected err) = lock_rejected err c"
| "auth_step c (RefreshEvent ev) = refresh_event ev c"

definition client_init :: "jsstr \<Rightarrow> (jsstr \<times> jsstr) list \<Rightarrow> int \<Rightarrow> client" where
  "client_init source storage t =
     \<lparr>tab_state = \<lparr>auth = useAuthStore_initial, authEpoch = 0, localStorage = storage, storage_fault = None, published = [],
        authSyncSource = source, next_identifier = [], now_ms = t\<rparr>,
      refreshPromise = None, outcomes = []\<rparr>"

text \<open>Token, expiry and session are present together or not at all.\<close>

definition credentials_agree :: "AuthState \<Rightarrow> bool" where
  "credentials_agree a \<longleftrightarrow> (st_accessToken a = None) = (st_session a = None)
     \<and> (st_accessExpiresAt a = None) = (st_session a = None)"

definition job_ok :: "client \<Rightarrow> bool" where
  "job_ok c = (case refreshPromise c of
       None \<Rightarrow> True
     | Some (AwaitLock e) \<Rightarrow> e \<le> authEpoch (tab_state c)
     | Some (Running e r) \<Rightarrow> e \<le> authEpoch (tab_state c) \<and> runner_wf r \<and> \<not> finished r)"

definition client_inv :: "client \<Rightarrow> bool" where
  "client_inv c \<longleftrightarrow> credentials_agree (auth (tab_state c)) \<and> job_ok c"

lemmas store_ops = setBundle_def setUser_def setPending2FAFlowToken_def setBootstrapState_def reset_auth_def

lemma credentials_agree_ops [simp]:
  "credentials_agree (setBundle b a)" "credentials_agree (reset_auth boot a)"
  "credentials_agree (setUser u a) = credentials_agree a"
  "credentials_agree (setPending2FAFlowToken t a) = credentials_agree a"
  "credentials_agree (setBootstrapState boot a) = credentials_agree a"
  by (simp_all add: credentials_agree_def store_ops)

text \<open>What a piece of client code may do to a tab: keep the credentials in agreement and the epoch growing.\<close>

definition advances :: "tab \<Rightarrow> tab \<Rightarrow> bool" where
  "advances w w' \<longleftrightarrow> (credentials_agree (auth w) \<longrightarrow> credentials_agree (auth w')) \<and> authEpoch w \<le> authEpoch w'"

lemma advances_refl [simp]: "advances w w"
  by (simp add: advances_def)

lemma applyAuthRotation_advances: "applyAuthRotation v w = Inr w' \<Longrightarrow> advances w w'"
  by (auto simp: applyAuthRotation_def advances_def split: if_splits option.splits)

lemma runtime_advances:
  "advances w (applyAuthBundle b sync w)" "advances w (runtime_clear sync boot w)"
  "advances w (on_auth (setBootstrapState boot') w)"
  by (simp_all add: advances_def runtime_clear_def)

lemma advances_trans: "advances u v \<Longrightarrow> advances v w \<Longrightarrow> advances u w"
  by (auto simp: advances_def)

lemma run_enter_fst [simp]: "fst (run_enter rt race allow s) = s"
  by (simp add: run_enter_def)

lemma run_response_advances: "advances w (fst (run_response (store_runtime e) race allow response w))"
  by (auto simp: run_response_def Let_def runtime_advances simp del: js_Cons js_Nil)

lemma runner_step_advances: "advances w (fst (runner_step (store_runtime e) (w, r) ev))"
  by (cases r; cases ev) (auto simp: run_response_advances runtime_advances)

lemma settle_advances: "advances (fst wr) (fst (settle wr))"
  by (auto simp: settle_def advances_def split: runner.splits)

lemma settle_not_Threw: "snd (settle wr) \<noteq> Threw err"
  by (auto simp: settle_def split: runner.splits)

lemma settle_wf: "runner_wf (snd wr) \<Longrightarrow> runner_wf (snd (settle wr))"
  by (auto simp: settle_def split: runner.splits)

lemma store_job_inv:
  assumes "client_inv c" "advances (tab_state c) (fst wr)" "e \<le> authEpoch (tab_state c)" "runner_wf (snd wr)"
  shows "client_inv (store_job e c wr)"
proof -
  obtain w r where wr: "settle wr = (w, r)" by (cases "settle wr")
  have "advances (tab_state c) w" using advances_trans [OF assms(2) settle_advances] wr by simp
  then have "credentials_agree (auth w)" "e \<le> authEpoch w"
    using assms(1,3) by (auto simp: advances_def client_inv_def)
  moreover have "runner_wf r" using settle_wf [OF assms(4)] wr by simp
  moreover have "r \<noteq> Threw err" for err using settle_not_Threw [of wr err] wr by simp
  ultimately show ?thesis using wr
    by (auto simp: store_job_def client_inv_def job_ok_def finished_def split: runner.splits)
qed

lemma runRefresh_inv: "client_inv c \<Longrightarrow> e \<le> authEpoch (tab_state c) \<Longrightarrow> client_inv (runRefresh e c)"
  unfolding runRefresh_def by (rule store_job_inv) (auto simp: run_enter_wf)

lemma refreshAuthentication_inv: "client_inv c \<Longrightarrow> client_inv (refreshAuthentication has_locks c)"
  using runRefresh_inv [of c "authEpoch (tab_state c)"]
  by (auto simp: refreshAuthentication_def Let_def) (auto simp: client_inv_def job_ok_def)

lemma client_inv_tab:
  "client_inv c \<Longrightarrow> advances (tab_state c) w \<Longrightarrow> client_inv (c\<lparr>tab_state := w\<rparr>)"
  by (auto simp: client_inv_def job_ok_def advances_def split: option.splits refresh_job.splits)

lemma bootstrap_inv: "client_inv c \<Longrightarrow> client_inv (snd (bootstrapAuthentication has_locks c))"
  by (auto simp: bootstrapAuthentication_def Let_def advances_def split: option.splits
      intro!: refreshAuthentication_inv client_inv_tab)

lemma refresh_event_inv:
  assumes "client_inv c"
  shows "client_inv (refresh_event ev c)"
proof (cases "\<exists>e r. refreshPromise c = Some (Running e r) \<and> awaits r ev")
  case True
  then obtain e r where j: "refreshPromise c = Some (Running e r)" "awaits r ev" by blast
  with assms have "e \<le> authEpoch (tab_state c)" "runner_wf r" by (auto simp: client_inv_def job_ok_def)
  with j assms show ?thesis
    using runner_step_progress [of r ev "store_runtime e" "tab_state c"]
    by (auto simp: refresh_event_def intro!: store_job_inv runner_step_advances)
qed (use assms in \<open>auto simp: refresh_event_def split: option.splits refresh_job.splits\<close>)

lemma lock_inv:
  assumes "client_inv c"
  shows "client_inv (lock_granted c)" "client_inv (lock_rejected err c)"
  using assms
  by (auto simp: lock_granted_def lock_rejected_def client_inv_def job_ok_def split: option.splits refresh_job.splits)
    (use assms runRefresh_inv store_job_inv [of c "(tab_state c, Threw err)"] in
      \<open>fastforce simp: client_inv_def job_ok_def\<close>)+

lemma auth_step_inv: "client_inv c \<Longrightarrow> client_inv (auth_step c ev)"
proof (induction c ev rule: auth_step.induct)
  case (2 c v)
  then show ?case by (auto split: sum.splits intro: client_inv_tab applyAuthRotation_advances)
qed (auto simp: advances_def refreshAuthentication_inv bootstrap_inv lock_inv refresh_event_inv intro!: client_inv_tab)

interpretation auth_client: guarded_machine auth_step "client_init source storage t" client_inv
  for source storage t
proof
  show "client_inv (client_init source storage t)"
    by (simp add: client_init_def client_inv_def job_ok_def credentials_agree_def useAuthStore_initial_def)
qed (rule auth_step_inv)

section \<open>Properties\<close>

text \<open>
  C32. Whatever the client does, in whatever order its refreshes, sign-ins and sign-outs interleave,
  the access token, its expiry and the session are present together or absent together, and a
  pending refresh belongs to an epoch that has already begun.
\<close>

theorem credentials_always_agree:
  "let c = run_machine auth_step (client_init source storage t) evs; a = auth (tab_state c) in
     (st_accessToken a = None) = (st_session a = None) \<and> (st_accessExpiresAt a = None) = (st_session a = None)
     \<and> (case refreshPromise c of None \<Rightarrow> True | Some (AwaitLock e) \<Rightarrow> e \<le> authEpoch (tab_state c)
         | Some (Running e r) \<Rightarrow> e \<le> authEpoch (tab_state c) \<and> \<not> finished r)"
  using auth_client.inv_run [of source storage t evs]
  by (auto simp: Let_def client_inv_def credentials_agree_def job_ok_def split: option.splits refresh_job.splits)

text \<open>
  C34. The refresh protocol ends: however the rest of the client acts in between, at most fourteen
  responses and delays wake a refresh, and after fourteen it has returned.
\<close>

theorem refresh_bounded:
  assumes "refresh_run rt evs (run_enter rt 0 True s) 0 = ((s', r), n)"
  shows "n \<le> 14 \<and> (finished r \<or> n < 14)"
proof -
  have "runner_wf (snd (run_enter rt 0 True s))" by (rule run_enter_wf) simp
  from refresh_run_budget [OF this, of rt evs 0] assms run_enter_budget [of rt 0 True s]
  have "n + budget r \<le> 14" "runner_wf r" by auto
  then show ?thesis using budget_zero_finished [of r] by (cases "budget r = 0") auto
qed

theorem refresh_bounded_witness:
  "\<exists>r. snd (fst (refresh_run (store_runtime 0)
       [Wake (Response \<lparr>res_status = 401, res_data = None, res_error = None\<rparr>)]
       (run_enter (store_runtime 0) 0 True (tab_state (client_init [] [] 0))) 0)) = r \<and> finished r"
proof -
  obtain s' r n where run: "refresh_run (store_runtime 0)
       [Wake (Response \<lparr>res_status = 401, res_data = None, res_error = None\<rparr>)]
       (run_enter (store_runtime 0) 0 True (tab_state (client_init [] [] 0))) 0 = ((s', r), n)"
    by (metis prod.exhaust)
  have "n = 1 \<and> finished r" using run refresh_bounded [OF run]
    by (auto simp: run_enter_def run_response_def client_init_def is_object_def
        json_string_def finished_def isAuthBundle_def hasValidTokenFields_def)
  with run show ?thesis by simp
qed

text \<open>
  C33. A superseded refresh is harmless: when the epoch has moved on since the refresh began, none of
  its events (lock, response, delay, abort) changes the user, the credentials, the epoch, the stored
  data or the events published to other tabs.
\<close>

theorem superseded_refresh_harmless:
  assumes "refreshPromise c = Some (AwaitLock e) \<or> refreshPromise c = Some (Running e r)"
    and "e \<noteq> authEpoch (tab_state c)"
    and "ev = LockGranted \<or> ev = LockRejected err \<or> ev = RefreshEvent wake"
  shows "let w = tab_state c; w' = tab_state (auth_step c ev) in
     st_user (auth w') = st_user (auth w) \<and> st_accessToken (auth w') = st_accessToken (auth w)
     \<and> st_accessExpiresAt (auth w') = st_accessExpiresAt (auth w) \<and> st_session (auth w') = st_session (auth w)
     \<and> authEpoch w' = authEpoch w \<and> localStorage w' = localStorage w \<and> published w' = published w"
proof -
  have "(\<exists>r'. runner_step (store_runtime e) (tab_state c, r) wake = (tab_state c, r'))
      \<or> (\<exists>r'. runner_step (store_runtime e) (tab_state c, r) wake
            = (on_auth (setBootstrapState BootIdle) (tab_state c), r'))"
    by (cases r; cases wake) (use assms(2) in \<open>auto simp: run_response_def run_enter_def\<close>)
  then show ?thesis using assms
    by (auto simp: Let_def lock_granted_def lock_rejected_def refresh_event_def runRefresh_def run_enter_def
        store_job_def settle_def setBootstrapState_def split: runner.splits)
qed

theorem superseded_refresh_harmless_witness:
  "let c = (client_init [] [] 0)\<lparr>refreshPromise := Some (AwaitLock 5)\<rparr> in
     st_user (auth (tab_state (auth_step c LockGranted))) = st_user (auth (tab_state c))
     \<and> outcomes (auth_step c LockGranted) = [superseded]"
proof -
  let ?c = "(client_init [] [] 0)\<lparr>refreshPromise := Some (AwaitLock 5)\<rparr>"
  have h: "refreshPromise ?c = Some (AwaitLock 5) \<or> refreshPromise ?c = Some (Running 5 (Threw None))"
    "5 \<noteq> authEpoch (tab_state ?c)"
    "LockGranted = LockGranted \<or> LockGranted = LockRejected None \<or> LockGranted = RefreshEvent DelayDone"
    by (simp_all add: client_init_def)
  from superseded_refresh_harmless [OF h] show ?thesis
    by (simp add: Let_def client_init_def lock_granted_def runRefresh_def run_enter_def store_job_def settle_def)
qed

section \<open>What an outcome says about the state\<close>

text \<open>Nobody is signed in, the bootstrap is complete, and the playground data is gone unless the storage throws.\<close>

definition signed_out :: "tab \<Rightarrow> bool" where
  "signed_out w \<longleftrightarrow> st_user (auth w) = None \<and> st_accessToken (auth w) = None \<and> st_accessExpiresAt (auth w) = None
     \<and> st_session (auth w) = None \<and> st_bootstrapState (auth w) = BootComplete
     \<and> (storage_fault w = None \<longrightarrow> playground_empty w)"

text \<open>The events published by a sign-out that is to reach the other tabs.\<close>

definition sign_out_events :: "tab \<Rightarrow> AuthSessionSyncEvent list" where
  "sign_out_events w = (case current_sid w of
       Some sid \<Rightarrow> if sid = [] then [] else [\<lparr>ev_kind = SyncSignedOut, ev_sid = sid, ev_source = authSyncSource w,
         ev_nonce = next_identifier w, ev_timestamp = Fin (of_int (now_ms w))\<rparr>]
     | None \<Rightarrow> [])"

definition outcome_state :: "RefreshOutcome \<Rightarrow> tab \<Rightarrow> tab \<Rightarrow> bool" where
  "outcome_state outcome w w' = (case outcome of
       Authenticated b \<Rightarrow> auth w' = setBundle b (auth w) \<and> authEpoch w' = authEpoch w + 1 \<and> published w' = published w
     | Anonymous \<Rightarrow> signed_out w' \<and> authEpoch w' = authEpoch w + 1 \<and> published w' = published w @ sign_out_events w
     | OutOfSync code \<Rightarrow> signed_out w' \<and> authEpoch w' = authEpoch w + 1 \<and> published w' = published w
     | TransientError AuthRefreshSupersededError \<Rightarrow> w' = w
     | TransientError (ErrorValue err) \<Rightarrow> w' = w\<lparr>auth := setBootstrapState BootIdle (auth w)\<rparr>)"

lemma clearAuthentication_fault: "storage_fault (clearAuthentication sync boot w) = storage_fault w"
  by (simp add: clearAuthentication_def publishAuthSessionEvent_def Let_def split: option.splits)

lemma clear_signs_out: "signed_out (clearAuthentication sync BootComplete w)"
  using clearAuthentication_playground [of w sync BootComplete]
  by (simp add: signed_out_def reset_auth_def clearAuthentication_fault)

lemma clear_publishes:
  "published (clearAuthentication True boot w) = published w @ sign_out_events w"
  "published (clearAuthentication False boot w) = published w"
  by (auto simp: clearAuthentication_def publishAuthSessionEvent_def sign_out_events_def Let_def current_sid_def split: option.splits)

lemma quiet_bundle: "published (applyAuthBundle b False w) = published w"
  by (simp add: applyAuthBundle_def Let_def)

lemma run_response_outcome:
  assumes "snd (run_response (store_runtime e) race allow response w) = Returned outcome"
  shows "outcome_state outcome w (fst (run_response (store_runtime e) race allow response w))"
  using assms
  by (auto simp: run_response_def run_enter_def superseded_def Let_def runtime_clear_def outcome_state_def clear_signs_out clear_publishes
      quiet_bundle simp del: js_Cons js_Nil split: if_splits)

lemma runner_step_outcome:
  assumes "snd (runner_step (store_runtime e) (w, r) ev) = Returned outcome" "awaits r ev"
  shows "outcome_state outcome w (fst (runner_step (store_runtime e) (w, r) ev))"
  using assms
proof (cases "(r, ev)" rule: awaits.cases)
  case (1 race allow sid response)
  with assms(1) show ?thesis using run_response_outcome by simp
qed (use assms in \<open>auto simp: run_enter_def superseded_def outcome_state_def split: if_splits\<close>)

lemma caught_outcome: "outcome_state (TransientError (ErrorValue err)) w (w\<lparr>auth := setBootstrapState BootIdle (auth w)\<rparr>)"
  by (simp add: outcome_state_def)

text \<open>A job that is stored with an outcome: the runner returned it, or threw an error that the caller caught.\<close>

lemma store_job_outcome:
  assumes "outcomes (store_job e c (w, r)) = outcomes c @ [outcome]"
  shows "refreshPromise (store_job e c (w, r)) = None \<and>
    (r = Returned outcome \<and> tab_state (store_job e c (w, r)) = w
     \<or> (\<exists>err. r = Threw err \<and> outcome = TransientError (ErrorValue err)
          \<and> tab_state (store_job e c (w, r)) = w\<lparr>auth := setBootstrapState BootIdle (auth w)\<rparr>))"
  using assms by (cases r) (auto simp: store_job_def settle_def Let_def)

lemma run_enter_outcome:
  assumes "outcomes (runRefresh e c) = outcomes c @ [outcome]"
  shows "refreshPromise (runRefresh e c) = None \<and> outcome_state outcome (tab_state c) (tab_state (runRefresh e c))"
proof -
  have "run_enter (store_runtime e) 0 True (tab_state c) = (tab_state c, snd (run_enter (store_runtime e) 0 True (tab_state c)))"
    by (metis run_enter_fst prod.collapse)
  with store_job_outcome [of e c "tab_state c" "snd (run_enter (store_runtime e) 0 True (tab_state c))" outcome] assms
  show ?thesis by (auto simp: runRefresh_def run_enter_def superseded_def outcome_state_def split: if_splits)
qed

lemma refresh_event_outcome:
  assumes "outcomes (refresh_event ev c) = outcomes c @ [outcome]"
  shows "refreshPromise (refresh_event ev c) = None \<and> outcome_state outcome (tab_state c) (tab_state (refresh_event ev c))"
proof -
  from assms obtain e r where j: "refreshPromise c = Some (Running e r)" "awaits r ev"
    by (auto simp: refresh_event_def split: option.splits refresh_job.splits if_splits)
  obtain w r' where wr: "runner_step (store_runtime e) (tab_state c, r) ev = (w, r')" by fastforce
  have ev: "refresh_event ev c = store_job e c (w, r')" using j wr by (simp add: refresh_event_def)
  have threw: "r' = Threw err \<Longrightarrow> w = tab_state c" for err
    using wr j(2) by (cases "(r, ev)" rule: awaits.cases) (auto simp: run_response_def run_enter_def Let_def split: if_splits)
  have "r' = Returned outcome \<Longrightarrow> outcome_state outcome (tab_state c) w"
    using runner_step_outcome [of e "tab_state c" r ev outcome] wr j(2) by simp
  with store_job_outcome [OF assms [unfolded ev]] threw caught_outcome show ?thesis unfolding ev by auto
qed

text \<open>
  C35. The outcome of a refresh describes the state it leaves, for every outcome and whichever event settles the
  refresh (the lock, a response, a delay or an error).  On \<open>authenticated\<close> the store holds the returned bundle.
  On \<open>anonymous\<close> and \<open>out_of_sync\<close> nobody is signed in, the bootstrap is complete and, unless the storage throws,
  no playground data is left; only \<open>anonymous\<close> tells the other tabs.  A transient error keeps the
  session: it only sets the bootstrap state back to idle, and a superseded refresh changes nothing at all.
  In each case no refresh is pending afterwards.
\<close>

theorem refresh_outcome_matches_state:
  assumes "outcomes (auth_step c ev) = outcomes c @ [outcome]"
  shows "refreshPromise (auth_step c ev) = None \<and> outcome_state outcome (tab_state c) (tab_state (auth_step c ev))"
proof (cases ev)
  case LockGranted
  with assms run_enter_outcome show ?thesis by (auto simp: lock_granted_def split: option.splits refresh_job.splits)
next
  case (LockRejected err)
  with assms obtain e where step: "auth_step c ev = store_job e c (tab_state c, Threw err)"
    by (auto simp: lock_rejected_def split: option.splits refresh_job.splits)
  from store_job_outcome [OF assms [unfolded step]] caught_outcome show ?thesis unfolding step by auto
next
  case (RefreshEvent wake)
  with assms refresh_event_outcome [of wake c outcome] show ?thesis by simp
next
  case (Refresh has_locks)
  with assms show ?thesis
    by (auto simp: refreshAuthentication_def runRefresh_def run_enter_def store_job_def settle_def Let_def split: if_splits)
next
  case (Bootstrap has_locks)
  with assms show ?thesis
    by (auto simp: bootstrapAuthentication_def refreshAuthentication_def runRefresh_def run_enter_def store_job_def settle_def Let_def
        split: if_splits option.splits)
qed (use assms in \<open>auto split: sum.splits\<close>)

theorem refresh_outcome_matches_state_witness:
  "let c = (client_init [] [] 0)\<lparr>refreshPromise := Some (Running 0 (AwaitResponse 0 True None))\<rparr>;
       c' = auth_step c (RefreshEvent (Response \<lparr>res_status = 401, res_data = None, res_error = None\<rparr>)) in
     outcomes c' = [Anonymous] \<and> signed_out (tab_state c') \<and> refreshPromise c' = None"
proof -
  let ?c = "(client_init [] [] 0)\<lparr>refreshPromise := Some (Running 0 (AwaitResponse 0 True None))\<rparr>"
  let ?e = "RefreshEvent (Response \<lparr>res_status = 401, res_data = None, res_error = None\<rparr>)"
  have o: "outcomes (auth_step ?c ?e) = outcomes ?c @ [Anonymous]"
    by (simp add: client_init_def refresh_event_def run_response_def is_object_def json_string_def store_job_def
        settle_def)
  from refresh_outcome_matches_state [OF o] o show ?thesis by (simp add: Let_def client_init_def outcome_state_def)
qed

end
