(* ===== verification/HttpClient.thy ===== *)
theory HttpClient
  imports AuthRefresh
begin

text \<open>
  The HTTP client of the web application, \<open>web/src/lib/http-client.ts\<close>: sharing of identical GET
  requests in flight, the response interceptors with token rotation, and the single retry after a
  refresh; with the error messages of \<open>web/src/lib/server-error-message.ts\<close>.  Sending a request, the
  translation function and the toasts are outside; the model records what is sent and shown.
\<close>

section \<open>Error messages\<close>

definition serverErrorMessageKeys :: "jsstr list" where
  "serverErrorMessageKeys = [js ''AUTH_SESSION_LIMIT'', js ''AUTH_SESSION_ISSUANCE_LIMIT'', js ''TELEGRAM_BIND_DISABLED'',
     js ''TELEGRAM_BIND_INVALID_REQUEST'', js ''TELEGRAM_BIND_FLOW_INVALID'', js ''TELEGRAM_BIND_SESSION_INVALID'',
     js ''TELEGRAM_BIND_ALREADY_BOUND'', js ''TELEGRAM_BIND_USER_DELETED'', js ''TELEGRAM_BIND_USER_DISABLED'',
     js ''TELEGRAM_BIND_INTERNAL_ERROR'']"

definition serverErrorPayload :: "json option \<Rightarrow> json option" where
  "serverErrorPayload v =
     (if \<not> is_object v then None
      else let response = json_opt_get v (js ''response'') in
        if is_object response \<and> is_object (json_opt_get response (js ''data''))
        then json_opt_get response (js ''data'') else v)"

text \<open>
  The code whose entry in the table of messages is shown; the lookup also finds the inherited members
  of the table object.
\<close>

definition getServerErrorMessageKey :: "json option \<Rightarrow> jsstr option" where
  "getServerErrorMessageKey v = (case json_opt_get (serverErrorPayload v) (js ''code'') of
       Some (JStr c) \<Rightarrow> if c \<in> set (serverErrorMessageKeys @ object_prototype_members) then Some c else None
     | _ \<Rightarrow> None)"

datatype toast = SessionExpiredToast | ServerErrorToast jsstr | MessageToast json | RequestFailedToast

section \<open>Identical GET requests in flight\<close>

record http_client =
  inFlightGet :: "(jsstr \<times> nat) list"
  pending :: "(nat \<times> jsstr option) list"
  next_request :: nat

definition get_key :: "jsstr option \<Rightarrow> jsstr \<Rightarrow> jsstr option \<Rightarrow> jsstr" where
  "get_key sid url params =
     (case sid of Some s \<Rightarrow> if s = [] then js ''anonymous'' else s | None \<Rightarrow> js ''anonymous'')
       @ js '':'' @ url @ js ''?'' @ (case params of Some p \<Rightarrow> p | None \<Rightarrow> js ''{}'')"

definition originalGet :: "jsstr option \<Rightarrow> http_client \<Rightarrow> nat \<times> http_client" where
  "originalGet key h = (next_request h, h\<lparr>pending := (next_request h, key) # pending h, next_request := Suc (next_request h)\<rparr>)"

definition api_get :: "bool \<Rightarrow> jsstr option \<Rightarrow> jsstr option \<Rightarrow> jsstr \<Rightarrow> http_client \<Rightarrow> nat \<times> http_client" where
  "api_get disableDuplicate params sid url h =
     (if disableDuplicate then originalGet None h
      else let key = get_key sid url params in
        case map_of (inFlightGet h) key of
          Some existing \<Rightarrow> (existing, h)
        | None \<Rightarrow> let (r, h1) = originalGet (Some key) h in (r, h1\<lparr>inFlightGet := AList.update key r (inFlightGet h1)\<rparr>))"

text \<open>A request settles; the \<open>finally\<close> of a shared one removes its key.\<close>

definition settle_request :: "nat \<Rightarrow> http_client \<Rightarrow> http_client" where
  "settle_request r h =
     (let h1 = h\<lparr>pending := AList.delete r (pending h)\<rparr> in
      case map_of (pending h) r of
        Some (Some key) \<Rightarrow> h1\<lparr>inFlightGet := AList.delete key (inFlightGet h1)\<rparr>
      | _ \<Rightarrow> h1)"

datatype http_event = Get bool "jsstr option" "jsstr option" jsstr | Settle nat

fun http_step :: "http_client \<Rightarrow> http_event \<Rightarrow> http_client" where
  "http_step h (Get disable params sid url) = snd (api_get disable params sid url h)"
| "http_step h (Settle r) = settle_request r h"

definition http_init :: http_client where
  "http_init = \<lparr>inFlightGet = [], pending = [], next_request = 0\<rparr>"

text \<open>The table holds exactly the pending shared requests under their keys.\<close>

definition http_inv :: "http_client \<Rightarrow> bool" where
  "http_inv h \<longleftrightarrow> (\<forall>k r. map_of (inFlightGet h) k = Some r \<longleftrightarrow> map_of (pending h) r = Some (Some k))
     \<and> (\<forall>r k. map_of (pending h) r = Some k \<longrightarrow> r < next_request h)"

lemma http_invD:
  "http_inv h \<Longrightarrow> map_of (inFlightGet h) k = Some r \<longleftrightarrow> map_of (pending h) r = Some (Some k)"
  "http_inv h \<Longrightarrow> map_of (pending h) r = Some ko \<Longrightarrow> r < next_request h"
  by (auto simp: http_inv_def)

lemma http_invI:
  "(\<And>k r. map_of (inFlightGet h) k = Some r \<longleftrightarrow> map_of (pending h) r = Some (Some k)) \<Longrightarrow>
   (\<And>r ko. map_of (pending h) r = Some ko \<Longrightarrow> r < next_request h) \<Longrightarrow> http_inv h"
  by (auto simp: http_inv_def)

lemma pending_fresh: "http_inv h \<Longrightarrow> map_of (pending h) (next_request h) = None"
  using http_invD(2) [of h "next_request h"] by (cases "map_of (pending h) (next_request h)") auto

lemma originalGet_inv: "http_inv h \<Longrightarrow> http_inv (snd (originalGet None h))"
  using pending_fresh [of h] http_invD [of h]
  by (intro http_invI) (auto simp: originalGet_def less_SucI split: if_splits)

lemma originalGet_shared_inv:
  assumes "http_inv h" "map_of (inFlightGet h) key = None"
  shows "http_inv ((snd (originalGet (Some key) h))\<lparr>inFlightGet := AList.update key (next_request h) (inFlightGet h)\<rparr>)"
proof -
  have "map_of (pending h) r \<noteq> Some (Some key)" for r using http_invD(1) [OF assms(1), of key r] assms(2) by simp
  then show ?thesis
    using assms(2) pending_fresh [OF assms(1)] http_invD [OF assms(1)]
    by (intro http_invI) (auto simp: originalGet_def update_conv' less_SucI split: if_splits)
qed

lemma api_get_inv: "http_inv h \<Longrightarrow> http_inv (snd (api_get disable params sid url h))"
  using originalGet_inv [of h] originalGet_shared_inv [of h "get_key sid url params"]
  by (auto simp: api_get_def Let_def originalGet_def split: option.splits)

lemma settle_request_inv:
  assumes "http_inv h"
  shows "http_inv (settle_request r h)"
proof (rule http_invI)
  fix k r'
  show "map_of (inFlightGet (settle_request r h)) k = Some r' \<longleftrightarrow> map_of (pending (settle_request r h)) r' = Some (Some k)"
    using http_invD(1) [OF assms, of k r'] http_invD(1) [OF assms, of k r]
    by (cases "map_of (pending h) r") (auto simp: settle_request_def Let_def delete_conv' split: option.splits)
next
  fix r' ko
  assume "map_of (pending (settle_request r h)) r' = Some ko"
  then show "r' < next_request (settle_request r h)"
    using http_invD(2) [OF assms, of r'] by (auto simp: settle_request_def Let_def delete_conv' split: option.splits if_splits)
qed

interpretation http: guarded_machine http_step http_init http_inv
proof
  show "http_inv http_init" by (simp add: http_inv_def http_init_def)
next
  fix h e
  assume "http_inv h"
  then show "http_inv (http_step h e)" by (cases e) (simp_all add: api_get_inv settle_request_inv)
qed

section \<open>Interceptors\<close>

record ApiRequestConfig =
  cfg_skipBusinessError :: bool
  cfg_skipErrorHandler :: bool
  cfg_skipAuthRefresh :: bool
  cfg_authRetry :: bool
  cfg_acceptAuthRotation :: bool
  cfg_Authorization :: "jsstr option"

definition on_request :: "tab \<Rightarrow> ApiRequestConfig \<Rightarrow> ApiRequestConfig" where
  "on_request w cfg =
     (if token_truthy (st_accessToken (auth w))
      then cfg\<lparr>cfg_Authorization := Some (js ''Bearer '' @ the (st_accessToken (auth w)))\<rparr> else cfg)"

definition on_success ::
  "ApiRequestConfig \<Rightarrow> json option \<Rightarrow> tab \<Rightarrow> (AuthRotationError, toast list \<times> tab) result" where
  "on_success cfg data w =
     rbind (if cfg_acceptAuthRotation cfg \<and> json_opt_get data (js ''success'') = Some (JBool True)
            then applyAuthRotation (json_opt_get data (js ''data'')) w else Inr w) (\<lambda>w1.
     Inr (if \<not> cfg_skipBusinessError cfg \<and> json_opt_get data (js ''success'') = Some (JBool False)
          then [case getServerErrorMessageKey data of
                  Some k \<Rightarrow> ServerErrorToast k
                | None \<Rightarrow> if json_truthy (json_opt_get data (js ''message''))
                          then MessageToast (the (json_opt_get data (js ''message''))) else RequestFailedToast]
          else [], w1))"

text \<open>
  The error interceptor up to its \<open>await\<close>: it either refreshes, with the configuration marked, or ends
  with toasts, a redirect to the sign-in page and the new state.
\<close>

datatype error_action =
    AwaitRefresh ApiRequestConfig
  | Rejected "toast list" bool tab

definition error_message :: "json option \<Rightarrow> json option \<Rightarrow> toast" where
  "error_message err data =
     (case getServerErrorMessageKey err of
        Some k \<Rightarrow> ServerErrorToast k
      | None \<Rightarrow> if json_truthy (json_opt_get data (js ''message'')) then MessageToast (the (json_opt_get data (js ''message'')))
                else if json_truthy (json_opt_get err (js ''message'')) then MessageToast (the (json_opt_get err (js ''message'')))
                else RequestFailedToast)"

definition on_error :: "ApiRequestConfig option \<Rightarrow> nat option \<Rightarrow> json option \<Rightarrow> json option \<Rightarrow> tab \<Rightarrow> error_action" where
  "on_error cfg status err data w =
     (let quiet = (case cfg of Some c \<Rightarrow> cfg_skipErrorHandler c | None \<Rightarrow> False) in
      if status = Some 401 then
        (case cfg of
           Some c \<Rightarrow>
             if \<not> cfg_skipAuthRefresh c \<and> \<not> cfg_authRetry c then AwaitRefresh (c\<lparr>cfg_authRetry := True\<rparr>)
             else if cfg_authRetry c
             then Rejected (if quiet then [] else [SessionExpiredToast]) True (clearAuthentication False BootComplete w)
             else Rejected (if quiet then [] else [SessionExpiredToast]) False w
         | None \<Rightarrow> Rejected [SessionExpiredToast] False w)
      else Rejected (if quiet then [] else [error_message err data]) False w)"

datatype retry_action = Resend ApiRequestConfig | GiveUp "toast list" bool

definition on_refreshed :: "ApiRequestConfig \<Rightarrow> RefreshOutcome \<Rightarrow> tab \<Rightarrow> retry_action" where
  "on_refreshed cfg outcome w =
     (case outcome of
        Authenticated _ \<Rightarrow> Resend (on_request w cfg)
      | TransientError _ \<Rightarrow> GiveUp [] False
      | _ \<Rightarrow> GiveUp (if cfg_skipErrorHandler cfg then [] else [SessionExpiredToast]) True)"

text \<open>
  One API request with its retries.  \<open>server\<close> answers the n-th time it is sent with a status and data,
  \<open>refresh\<close> is the outcome of the refresh made after the n-th answer, with the state it leaves.
\<close>

datatype request_result = Success "toast list" tab | RotationFailed AuthRotationError | Failure "toast list" bool tab

function (sequential) request ::
  "(nat \<Rightarrow> (json option, nat option \<times> json option \<times> json option) sum) \<Rightarrow> (nat \<Rightarrow> tab \<Rightarrow> RefreshOutcome \<times> tab) \<Rightarrow> nat
     \<Rightarrow> ApiRequestConfig \<Rightarrow> tab \<Rightarrow> nat \<times> request_result" where
  "request server refresh n cfg w =
     (let cfg1 = on_request w cfg in
      case server n of
        Inl data \<Rightarrow> (Suc n, case on_success cfg1 data w of Inl e \<Rightarrow> RotationFailed e | Inr (ts, w1) \<Rightarrow> Success ts w1)
      | Inr (status, data, err) \<Rightarrow>
          (case on_error (Some cfg1) status err data w of
             Rejected ts redirect w1 \<Rightarrow> (Suc n, Failure ts redirect w1)
           | AwaitRefresh cfg2 \<Rightarrow>
               let (outcome, w1) = refresh n w in
               (case on_refreshed cfg2 outcome w1 of
                  GiveUp ts redirect \<Rightarrow> (Suc n, Failure ts redirect w1)
                | Resend cfg3 \<Rightarrow> request server refresh (Suc n) cfg3 w1)))"
  by pat_completeness auto

lemma on_request_retry [simp]: "cfg_authRetry (on_request w cfg) = cfg_authRetry cfg"
  by (simp add: on_request_def)

lemma on_error_AwaitRefresh:
  "on_error (Some c) status err data w = AwaitRefresh c' \<Longrightarrow> \<not> cfg_authRetry c \<and> cfg_authRetry c'"
  by (auto simp: on_error_def Let_def split: if_splits)

lemma on_refreshed_Resend: "on_refreshed c outcome w = Resend c' \<Longrightarrow> cfg_authRetry c' = cfg_authRetry c"
  by (auto simp: on_refreshed_def split: RefreshOutcome.splits)

termination request
proof (relation "measure (\<lambda>(server, refresh, n, cfg, w). if cfg_authRetry cfg then 0 else 1)")
qed (auto dest!: on_error_AwaitRefresh on_refreshed_Resend)

declare request.simps [simp del]

lemma pending_key_unique:
  "http_inv h \<Longrightarrow> map_of (pending h) r1 = Some (Some k) \<Longrightarrow> map_of (pending h) r2 = Some (Some k) \<Longrightarrow> r1 = r2"
  using http_invD(1) [of h k r1] http_invD(1) [of h k r2] by simp

lemma api_get_shares:
  assumes inv: "http_inv h" and get: "api_get False params sid url h = (r, h')"
  shows "map_of (pending h') r = Some (Some (get_key sid url params))
     \<and> (if \<exists>r. map_of (pending h) r = Some (Some (get_key sid url params))
         then h' = h \<and> map_of (pending h) r = Some (Some (get_key sid url params))
         else next_request h' = Suc (next_request h))
     \<and> (\<forall>r1 r2. \<not> (map_of (pending h') r1 = Some (Some (get_key sid url params))
           \<and> map_of (pending h') r2 = Some (Some (get_key sid url params)) \<and> r1 \<noteq> r2))"
proof -
  have inv': "http_inv h'" using api_get_inv [OF inv, of False params sid url] get by simp
  have uniq: "\<forall>r1 r2. \<not> (map_of (pending h') r1 = Some (Some (get_key sid url params))
           \<and> map_of (pending h') r2 = Some (Some (get_key sid url params)) \<and> r1 \<noteq> r2)"
    using pending_key_unique [OF inv'] by blast
  show ?thesis
  proof (cases "map_of (inFlightGet h) (get_key sid url params)")
    case (Some r0)
    with get have "r = r0" "h' = h" by (simp_all add: api_get_def Let_def)
    moreover have "map_of (pending h) r0 = Some (Some (get_key sid url params))"
      using http_invD(1) [OF inv] Some by blast
    ultimately show ?thesis using uniq by auto
  next
    case None
    then have "\<not> (\<exists>r. map_of (pending h) r = Some (Some (get_key sid url params)))"
      unfolding http_invD(1) [OF inv, symmetric] by simp
    moreover have "map_of (pending h') r = Some (Some (get_key sid url params))" "next_request h' = Suc (next_request h)"
      using get None by (auto simp: api_get_def originalGet_def Let_def)
    ultimately show ?thesis using uniq by (simp only: if_False) blast
  qed
qed

section \<open>Properties\<close>

text \<open>
  C39. A request is sent at most twice: whatever the server answers and whatever the refreshes give, a
  request that has not been retried is sent again at most once.
\<close>

theorem request_sent_at_most_twice:
  "fst (request server refresh n cfg w) \<le> (if cfg_authRetry cfg then n + 1 else n + 2)"
proof (induction server refresh n cfg w rule: request.induct)
  case (1 server refresh n cfg w)
  show ?case
  proof (cases "server n")
    case (Inl data)
    then show ?thesis by (simp add: request.simps [of server refresh n cfg w] Let_def)
  next
    case (Inr a)
    obtain status data err where a: "a = (status, data, err)" by (cases a)
    show ?thesis
    proof (cases "on_error (Some (on_request w cfg)) status err data w")
      case (Rejected ts redirect w1)
      with Inr a show ?thesis by (simp add: request.simps [of server refresh n cfg w] Let_def)
    next
      case (AwaitRefresh cfg2)
      obtain outcome w1 where r: "refresh n w = (outcome, w1)" by (cases "refresh n w")
      have c: "\<not> cfg_authRetry cfg" "cfg_authRetry cfg2" using on_error_AwaitRefresh [OF AwaitRefresh] by simp_all
      show ?thesis
      proof (cases "on_refreshed cfg2 outcome w1")
        case (Resend cfg3)
        with "1.IH" [OF refl Inr a [symmetric] refl AwaitRefresh refl r [symmetric] Resend] on_refreshed_Resend [OF Resend] c
        show ?thesis using Inr a AwaitRefresh r by (simp add: request.simps [of server refresh n cfg w] Let_def)
      next
        case (GiveUp ts redirect)
        with Inr a AwaitRefresh r show ?thesis by (simp add: request.simps [of server refresh n cfg w] Let_def)
      qed
    qed
  qed
qed

text \<open>
  C40. Identical GET requests share one request while it is in flight, and only then: after any sequence
  of calls and completions, a second GET with the same key returns the pending request without
  sending, a first one is sent, and no key has two pending requests.
\<close>

theorem identical_gets_share:
  "let h = run_machine http_step http_init evs; key = get_key sid url params; (r, h') = api_get False params sid url h in
     map_of (pending h') r = Some (Some key)
     \<and> (if \<exists>r. map_of (pending h) r = Some (Some key) then h' = h \<and> map_of (pending h) r = Some (Some key)
        else next_request h' = Suc (next_request h))
     \<and> (\<forall>r1 r2. \<not> (map_of (pending h') r1 = Some (Some key) \<and> map_of (pending h') r2 = Some (Some key) \<and> r1 \<noteq> r2))"
proof -
  have inv: "http_inv (run_machine http_step http_init evs)" by (rule http.inv_run)
  obtain r h' where get: "api_get False params sid url (run_machine http_step http_init evs) = (r, h')"
    by (cases "api_get False params sid url (run_machine http_step http_init evs)")
  show ?thesis unfolding Let_def get prod.case by (rule api_get_shares [OF inv get])
qed

end
