(* ===== verification/AuthSession.thy ===== *)
theory AuthSession
  imports AuthRefresh
begin

text \<open>
  Properties of the session operations of \<open>web/src/lib/auth-session.ts\<close> that involve several of them:
  token rotation, the playground data of a previous account, sign-out across tabs, the bootstrap and
  the request headers.
\<close>

section \<open>Sample data\<close>

definition sample_user :: "rat \<Rightarrow> AuthUser" where
  "sample_user i = \<lparr>usr_id = Fin i, usr_username = js ''u'', usr_role = Fin 1,
     usr_fields = [(js ''id'', JNum (Fin i)), (js ''username'', JStr (js ''u'')), (js ''role'', JNum (Fin 1))]\<rparr>"

definition sample_login :: "jsstr \<Rightarrow> LoginSession" where
  "sample_login sid = \<lparr>ses_sid = sid, ses_current = True, ses_login_method = [], ses_ip = [], ses_user_agent = [],
     ses_created_at = Fin 0, ses_last_active_at = Fin 0, ses_expires_at = Fin 9\<rparr>"

definition sample_bundle :: "rat \<Rightarrow> jsstr \<Rightarrow> AuthBundle" where
  "sample_bundle i sid = \<lparr>bun_access_token = js ''tok'', bun_token_type = js ''Bearer'',
     bun_access_expires_at = Fin 100, bun_user = sample_user i, bun_session = sample_login sid\<rparr>"

definition login_json :: "jsstr \<Rightarrow> json" where
  "login_json sid = JObj [(js ''sid'', JStr sid), (js ''current'', JBool True), (js ''login_method'', JStr []),
     (js ''ip'', JStr []), (js ''user_agent'', JStr []), (js ''created_at'', JNum (Fin 0)),
     (js ''last_active_at'', JNum (Fin 0)), (js ''expires_at'', JNum (Fin 9))]"

definition bundle_json :: "rat \<Rightarrow> jsstr \<Rightarrow> json" where
  "bundle_json i sid = JObj [(js ''access_token'', JStr (js ''tok'')), (js ''token_type'', JStr (js ''Bearer'')),
     (js ''access_expires_at'', JNum (Fin 100)), (js ''user'', JObj (usr_fields (sample_user i))),
     (js ''session'', login_json sid)]"

definition response_ok :: "rat \<Rightarrow> jsstr \<Rightarrow> AuthRefreshHTTPResponse" where
  "response_ok i sid = \<lparr>res_status = 200,
     res_data = Some (JObj [(js ''success'', JBool True), (js ''data'', bundle_json i sid)]), res_error = None\<rparr>"

definition response_mismatch :: AuthRefreshHTTPResponse where
  "response_mismatch = \<lparr>res_status = 409,
     res_data = Some (JObj [(js ''success'', JBool False), (js ''code'', JStr (js ''AUTH_SESSION_MISMATCH''))]),
     res_error = None\<rparr>"

lemma json_reads [simp]:
  "json_string (Some (JStr s)) = Some s" "json_number (Some (JNum n)) = Some n" "json_bool (Some (JBool b)) = Some b"
  by (simp_all add: json_string_def json_number_def json_bool_def)

lemma isLoginSession_sample: "sid \<noteq> [] \<Longrightarrow> isLoginSession (Some (login_json sid)) = Some (sample_login sid)"
  by (simp add: isLoginSession_def login_json_def sample_login_def)

lemma isAuthBundle_sample:
  "sid \<noteq> [] \<Longrightarrow> 0 < i \<Longrightarrow> of_int \<lfloor>i\<rfloor> = i \<Longrightarrow> isAuthBundle (Some (bundle_json i sid)) = Some (sample_bundle i sid)"
  using isLoginSession_sample [of sid]
  by (simp add: isAuthBundle_def hasValidTokenFields_def isAuthUser_def bundle_json_def sample_bundle_def
      sample_user_def num_is_integer_def is_finite_def num_val_def num_less_def)

definition sample_tab :: tab where
  "sample_tab = \<lparr>auth = setBundle (sample_bundle 1 (js ''a'')) useAuthStore_initial, authEpoch = 1,
     localStorage = [(js ''playground_messages'', js ''x''), (js ''theme'', js ''y'')], storage_fault = None,
     published = [],
     authSyncSource = js ''t1'', next_identifier = [], now_ms = 5000\<rparr>"

lemmas sample_tab_defs = sample_tab_def sample_bundle_def sample_user_def sample_login_def useAuthStore_initial_def
  store_ops current_sid_def current_user_id_def

section \<open>Rotation\<close>

text \<open>
  C36. Token rotation never changes who is signed in: a rotation that is accepted (and does not ask
  for re-authentication) replaces the token and its expiry, keeps the user and the session id, keeps
  the stored data, and publishes nothing to other tabs.
\<close>

theorem rotation_keeps_identity:
  assumes "applyAuthRotation v w = Inr w'" "\<not> reauthentication_required v"
  shows "st_user (auth w') = st_user (auth w) \<and> current_sid w' = current_sid w \<and> st_user (auth w) \<noteq> None
     \<and> localStorage w' = localStorage w \<and> published w' = published w \<and> authEpoch w' = authEpoch w + 1
     \<and> (\<exists>tok. st_accessToken (auth w') = Some tok \<and> tok \<noteq> [])"
proof -
  from assms obtain r user session where r: "isAuthTokenRotation v = Some r" "st_user (auth w) = Some user"
    "st_session (auth w) = Some session" "ses_sid (rot_session r) = ses_sid session"
    "w' = applyAuthBundle \<lparr>bun_access_token = rot_access_token r, bun_token_type = rot_token_type r,
        bun_access_expires_at = rot_access_expires_at r, bun_user = user, bun_session = rot_session r\<rparr> False w"
    by (auto simp: applyAuthRotation_def split: if_splits option.splits)
  have "rot_access_token r \<noteq> []"
    using r(1) by (auto simp: isAuthTokenRotation_def hasValidTokenFields_def split: option.splits if_splits)
  with r show ?thesis by (auto simp: applyAuthBundle_def Let_def store_ops current_sid_def current_user_id_def)
qed

definition rotation_json :: json where
  "rotation_json = JObj [(js ''access_token'', JStr (js ''new'')), (js ''token_type'', JStr (js ''Bearer'')),
     (js ''access_expires_at'', JNum (Fin 200)), (js ''session'', login_json (js ''a''))]"

theorem rotation_keeps_identity_witness:
  "\<exists>w'. applyAuthRotation (Some rotation_json) sample_tab = Inr w' \<and> st_user (auth w') = Some (sample_user 1)
     \<and> current_sid w' = Some (js ''a'')"
proof -
  have rot: "isAuthTokenRotation (Some rotation_json) = Some \<lparr>rot_access_token = js ''new'', rot_token_type = js ''Bearer'',
      rot_access_expires_at = Fin 200, rot_session = sample_login (js ''a'')\<rparr>"
    using isLoginSession_sample [of "js ''a''"]
    by (simp add: isAuthTokenRotation_def hasValidTokenFields_def rotation_json_def sample_login_def is_finite_def
        num_less_def num_val_def)
  have nr: "\<not> reauthentication_required (Some rotation_json)" by (simp add: reauthentication_required_def rotation_json_def)
  have "\<exists>w'. applyAuthRotation (Some rotation_json) sample_tab = Inr w'"
    using rot nr by (simp add: applyAuthRotation_def sample_tab_defs)
  then obtain w' where w': "applyAuthRotation (Some rotation_json) sample_tab = Inr w'" by blast
  from rotation_keeps_identity [OF w' nr] w' show ?thesis by (simp add: sample_tab_defs)
qed

section \<open>Playground data of a previous account\<close>



text \<open>A storage that throws at once keeps the conversations of the previous account.\<close>

lemma blocked_storage_keeps_playground: "storage_fault w = Some 0 \<Longrightarrow> localStorage (clearAuthentication sync boot w) = localStorage w"
  by (simp add: clearAuthentication_storage clearPlaygroundData_def Let_def)

text \<open>
  The exception: when a refresh is answered with \<open>AUTH_SESSION_MISMATCH\<close>, the retry first resets
  the store, so the account that the second response signs in is not compared with the previous one
  and the previous account's playground data stays in the storage.
\<close>

lemma mismatch_retry_keeps_playground:
  assumes "isAuthBundle (json_opt_get (res_data ok) (js ''data'')) = Some b"
    and "json_opt_get (res_data ok) (js ''success'') = Some (JBool True)" "is_object (res_data ok)"
  shows "let rt = store_runtime (authEpoch w);
       (w1, r1) = runner_step rt (w, AwaitResponse race True sid) (Response response_mismatch);
       (w2, r2) = runner_step rt (w1, r1) (Response ok)
     in r2 = Returned (Authenticated b) \<and> st_user (auth w2) = Some (bun_user b) \<and> localStorage w2 = localStorage w"
proof -
  let ?w1 = "w\<lparr>auth := reset_auth BootIdle (auth w)\<rparr>"
  have first: "runner_step (store_runtime (authEpoch w)) (w, AwaitResponse race True sid) (Response response_mismatch)
      = (?w1, AwaitResponse 0 False (current_sid ?w1))"
    by (simp add: run_response_def response_mismatch_def is_object_def runtime_clear_def run_enter_def)
  have "localStorage (applyAuthBundle b False ?w1) = localStorage w"
    by (simp add: applyAuthBundle_def Let_def current_user_id_def store_ops)
  with assms first show ?thesis
    by (simp add: run_response_def Let_def setBundle_def del: js_Cons js_Nil)
qed

section \<open>Sign-out across tabs\<close>

text \<open>
  C38. Signing out in one tab signs out every other tab of the same session: the event that the first
  tab publishes, when it reaches another tab of the same session within a minute, leaves that tab with
  no user, no credentials and, unless its storage throws, no playground data, navigating to the sign-in page,
  and the other tab publishes nothing in turn.  The publishing tab ignores its own event.
\<close>

theorem sign_out_reaches_other_tabs:
  assumes "current_sid w = Some sid" "sid \<noteq> []" "current_sid v = Some sid" "authSyncSource v \<noteq> authSyncSource w"
    and "num_less (math_abs (num_sub (Fin (of_int (now_ms v))) (Fin (of_int (now_ms w))))) (Fin 60000)"
  shows "\<exists>ev. published (clearAuthentication True BootComplete w) = published w @ [ev]
     \<and> deliver (Some ev) (clearAuthentication True BootComplete w) = None \<and> deliver (Some ev) v = Some ev
     \<and> (let (action, q', v') = on_sync_event clear_queries (Some target) ev (q, v) in
          action = Navigate target \<and> q' = clear_queries q \<and> st_user (auth v') = None
          \<and> st_accessToken (auth v') = None \<and> st_session (auth v') = None \<and> (storage_fault v = None \<longrightarrow> playground_empty v')
          \<and> published v' = published v)"
proof -
  let ?ev = "\<lparr>ev_kind = SyncSignedOut, ev_sid = sid, ev_source = authSyncSource w, ev_nonce = next_identifier w,
      ev_timestamp = Fin (of_int (now_ms w))\<rparr>"
  have pub: "published (clearAuthentication True BootComplete w) = published w @ [?ev]"
    using assms(1,2) by (simp add: clearAuthentication_def publishAuthSessionEvent_def Let_def)
  have own: "deliver (Some ?ev) (clearAuthentication True BootComplete w) = None" by (simp add: deliver_def)
  have other: "deliver (Some ?ev) v = Some ?ev" using assms(4,5) by (simp add: deliver_def)
  have quiet: "published (clearAuthentication False BootComplete v) = published v"
    by (simp add: clearAuthentication_def Let_def split: option.splits)
  have "on_sync_event clear_queries (Some target) ?ev (q, v)
      = (Navigate target, clear_queries q, clearAuthentication False BootComplete v)"
    using assms(2,3) by (simp add: on_sync_event_def Let_def clearAuthenticatedClientState_def)
  with pub own other quiet show ?thesis by (intro exI [of _ ?ev]) (simp add: reset_auth_def clearAuthentication_playground)
qed

theorem sign_out_reaches_other_tabs_witness:
  "\<exists>ev. deliver (Some ev) (sample_tab\<lparr>authSyncSource := js ''t2''\<rparr>) = Some ev
     \<and> published (clearAuthentication True BootComplete sample_tab) = [ev]"
proof -
  have h: "current_sid sample_tab = Some (js ''a'')" "js ''a'' \<noteq> []"
    "current_sid (sample_tab\<lparr>authSyncSource := js ''t2''\<rparr>) = Some (js ''a'')"
    "authSyncSource (sample_tab\<lparr>authSyncSource := js ''t2''\<rparr>) \<noteq> authSyncSource sample_tab"
    "num_less (math_abs (num_sub (Fin (of_int (now_ms (sample_tab\<lparr>authSyncSource := js ''t2''\<rparr>))))
       (Fin (of_int (now_ms sample_tab))))) (Fin 60000)"
    by (simp_all add: sample_tab_defs num_sub_def num_add_def num_neg_def is_finite_def num_val_def round_signed_def
        sign_neg_def signed_zero_def math_abs_def num_less_def)
  from sign_out_reaches_other_tabs [OF h, of "\<lambda>q. q" "js ''/sign-in''" "()"]
  show ?thesis by (auto simp: sample_tab_def)
qed

section \<open>Bootstrap and headers\<close>

text \<open>
  The bootstrap answers \<open>authenticated\<close> at once only with the stored, unexpired credentials, and
  leaves user, token and session as they were; otherwise it answers \<open>anonymous\<close> only when there is
  no signed-in user with a session.
\<close>

lemma bootstrap_sound:
  assumes "bootstrapAuthentication has_locks c = (Some outcome, c')"
  shows "(case outcome of
       Authenticated b \<Rightarrow> num_less (now_seconds (tab_state c)) (bun_access_expires_at b)
         \<and> auth (tab_state c') = (setBundle b (auth (tab_state c)))\<lparr>st_pending2FAFlowToken := st_pending2FAFlowToken (auth (tab_state c))\<rparr>
     | Anonymous \<Rightarrow> c' = c \<and> (st_user (auth (tab_state c)) = None \<or> st_session (auth (tab_state c)) = None)
     | _ \<Rightarrow> False)"
proof (cases "currentValidAuthBundle (tab_state c)")
  case None
  with assms show ?thesis by (auto simp: bootstrapAuthentication_def Let_def split: if_splits)
next
  case (Some b)
  with assms have o: "outcome = Authenticated b"
    "c' = c\<lparr>tab_state := on_auth (setBootstrapState BootComplete) (tab_state c)\<rparr>"
    by (auto simp: bootstrapAuthentication_def Let_def)
  have le: "num_truthy x \<Longrightarrow> \<not> num_le x (Fin y) \<Longrightarrow> num_less (Fin y) x" for x y
    by (cases x) (auto simp: num_truthy_def num_le_def num_less_def num_eq_def is_finite_def num_val_def)
  from Some have "num_less (now_seconds (tab_state c)) (bun_access_expires_at b)"
    "st_user (auth (tab_state c)) = Some (bun_user b)" "st_accessToken (auth (tab_state c)) = Some (bun_access_token b)"
    "st_accessExpiresAt (auth (tab_state c)) = Some (bun_access_expires_at b)"
    "st_session (auth (tab_state c)) = Some (bun_session b)"
    by (auto simp: currentValidAuthBundle_def now_seconds_def le split: option.splits if_splits)
  with o show ?thesis by (simp add: store_ops)
qed

end
