(* ===== verification/JsNumText.thy ===== *)
theory JsNumText
  imports JsJson
begin

text \<open>
  Text of numbers: \<open>String(x)\<close> (the shortest decimal that reads back as the number) and
  \<open>x.toFixed(f)\<close>, after the algorithms of ECMAScript, the JavaScript \<open>sort\<close> as a stable sort
  by a comparator, and \<open>String\<close> and \<open>Number\<close> of JSON data.
\<close>

section \<open>Number to string\<close>

text \<open>The exponent \<open>n\<close> with \<open>10 ^ (n - 1) \<le> x < 10 ^ n\<close>, within the range of binary64.\<close>

definition dec_exp :: "rat \<Rightarrow> int" where
  "dec_exp x = (case find (\<lambda>n. 10 powi (n - 1) \<le> x \<and> x < 10 powi n) [-323..309] of Some n \<Rightarrow> n | None \<Rightarrow> 0)"

text \<open>The shortest digits \<open>s\<close> with \<open>k\<close> places: \<open>s * 10 ^ (n - k)\<close> rounds to \<open>x\<close>, \<open>s\<close> nearest.\<close>

definition digits_for :: "rat \<Rightarrow> int \<Rightarrow> nat \<Rightarrow> int" where
  "digits_for x n k = round_half_even (x / 10 powi (n - int k))"

definition shortest :: "rat \<Rightarrow> int \<times> nat \<times> int" where
  "shortest x =
     (let n = dec_exp x;
          k = (case find (\<lambda>k. round_num (of_int (digits_for x n k) * 10 powi (n - int k)) = Fin x) [1..<18] of
                 Some k \<Rightarrow> k | None \<Rightarrow> 17);
          s = digits_for x n k
      in if s = 10 ^ k then (10 ^ (k - 1), k, n + 1) else (s, k, n))"

definition exponent_text :: "int \<Rightarrow> jsstr" where
  "exponent_text e = js ''e'' @ (if 0 \<le> e then js ''+'' else js ''-'') @ nat_text (nat \<bar>e\<bar>)"

definition decimal_layout :: "jsstr \<Rightarrow> nat \<Rightarrow> int \<Rightarrow> jsstr" where
  "decimal_layout ds k n =
     (if int k \<le> n \<and> n \<le> 21 then ds @ replicate (nat (n - int k)) 48
      else if 0 < n \<and> n \<le> 21 then take (nat n) ds @ js ''.'' @ drop (nat n) ds
      else if -6 < n \<and> n \<le> 0 then js ''0.'' @ replicate (nat (- n)) 48 @ ds
      else if k = 1 then ds @ exponent_text (n - 1)
      else take 1 ds @ js ''.'' @ drop 1 ds @ exponent_text (n - 1))"

text \<open>
  An integer below \<open>2 ^ 53\<close> is its own shortest decimal up to trailing zeros, which the layout restores.
\<close>

definition positive_text :: "rat \<Rightarrow> jsstr" where
  "positive_text x =
     (if of_int \<lfloor>x\<rfloor> = x \<and> x < 2 ^ 53 then nat_text (nat \<lfloor>x\<rfloor>)
      else case shortest x of (s, k, n) \<Rightarrow> decimal_layout (nat_text (nat s)) k n)"

definition num_text :: "number \<Rightarrow> jsstr" where
  "num_text n = (case n of
       NaN \<Rightarrow> js ''NaN'' | PInf \<Rightarrow> js ''Infinity'' | NInf \<Rightarrow> js ''-Infinity'' | NZero \<Rightarrow> js ''0''
     | Fin x \<Rightarrow> if x = 0 then js ''0'' else if x < 0 then js ''-'' @ positive_text (- x) else positive_text x)"

lemma num_text_nat: "n < 2 ^ 53 \<Longrightarrow> num_text (Fin (of_nat n)) = nat_text n"
proof -
  assume "n < 2 ^ 53"
  then have "(of_nat n :: rat) < 2 ^ 53" by (metis of_nat_less_iff of_nat_numeral of_nat_power)
  then show ?thesis by (auto simp: num_text_def positive_text_def nat_text.simps)
qed

lemma find_unique:
  assumes "n \<in> set xs" "P n" "\<And>m. P m \<Longrightarrow> m = n"
  shows "find P xs = Some n"
proof (cases "find P xs")
  case None
  with assms(1,2) show ?thesis unfolding find_None_iff by blast
next
  case (Some m)
  then have "P m" unfolding find_Some_iff by blast
  with Some assms(3)[of m] show ?thesis by blast
qed

lemma dec_exp_unique:
  assumes "10 powi (n - 1) \<le> x" "x < 10 powi n" "-323 \<le> n" "n \<le> 309"
  shows "dec_exp x = n"
proof -
  have mono: "i \<le> j \<Longrightarrow> (10 :: rat) powi i \<le> 10 powi j" for i j by (rule power_int_increasing) simp_all
  have "m = n" if "10 powi (m - 1) \<le> x \<and> x < 10 powi m" for m
  proof (rule ccontr)
    assume "m \<noteq> n"
    then consider "m \<le> n - 1" | "n \<le> m - 1" by linarith
    then show False using mono[of m "n - 1"] mono[of n "m - 1"] that assms(1,2) by cases auto
  qed
  then have "\<And>m. 10 powi (m - 1) \<le> x \<and> x < 10 powi m \<Longrightarrow> m = n" .
  moreover have "n \<in> set [-323..309]" unfolding set_upto atLeastAtMost_iff using assms(3,4) by (rule conjI)
  moreover have "10 powi (n - 1) \<le> x \<and> x < 10 powi n" using assms(1,2) by (rule conjI)
  ultimately have "find (\<lambda>n. 10 powi (n - 1) \<le> x \<and> x < 10 powi n) [-323..309] = Some n" by (intro find_unique)
  then show ?thesis unfolding dec_exp_def by (simp only: option.case)
qed

text \<open>The text of a number with a fraction.\<close>

lemma round_num_half: "round_num (5 / 2) = Fin (5 / 2)"
  using round_num_exact [OF representableI [of 5 "-1"]] by simp

lemma num_text_half: "num_text (Fin (5 / 2)) = js ''2.5''"
proof -
  have "dec_exp (5 / 2) = 1" by (rule dec_exp_unique) simp_all
  moreover have "\<lfloor>5 / 2 :: rat\<rfloor> = 2" by (simp add: floor_eq_iff)
  moreover have "digits_for (5 / 2) 1 1 = 2" "digits_for (5 / 2) 1 2 = 25" by code_simp+
  moreover have "[1..<18] = 1 # 2 # [3..<18]" by (simp add: upt_conv_Cons numeral_2_eq_2 [symmetric])
  ultimately have "shortest (5 / 2) = (25, 2, 1)" "\<lfloor>5 / 2 :: rat\<rfloor> = 2"
    by (simp_all add: shortest_def round_num_half Let_def)
  then show ?thesis by (simp add: num_text_def positive_text_def decimal_layout_def nat_text.simps)
qed

section \<open>Fixed-point text\<close>

text \<open>\<open>x.toFixed(f)\<close> for a finite non-negative number below \<open>10 ^ 21\<close>.\<close>

definition fixed_text :: "nat \<Rightarrow> number \<Rightarrow> jsstr" where
  "fixed_text f x =
     (let n = nat \<lfloor>num_val x * 10 ^ f + 1 / 2\<rfloor>;
          m = nat_text n;
          p = replicate (f + 1 - length m) 48 @ m
      in if f = 0 then m else take (length p - f) p @ js ''.'' @ drop (length p - f) p)"

section \<open>Stable sorting by a comparator\<close>

fun insert_by :: "('a \<Rightarrow> 'a \<Rightarrow> int) \<Rightarrow> 'a \<Rightarrow> 'a list \<Rightarrow> 'a list" where
  "insert_by cmp x [] = [x]"
| "insert_by cmp x (y # ys) = (if cmp x y \<le> 0 then x # y # ys else y # insert_by cmp x ys)"

definition sort_by :: "('a \<Rightarrow> 'a \<Rightarrow> int) \<Rightarrow> 'a list \<Rightarrow> 'a list" where
  "sort_by cmp xs = foldr (insert_by cmp) xs []"

text \<open>\<open>c || d\<close> on comparator results, and \<open>b - a\<close> on numbers used as one.\<close>

definition or_cmp :: "int \<Rightarrow> int \<Rightarrow> int" where
  "or_cmp c d = (if c \<noteq> 0 then c else d)"

definition cmp_desc :: "number \<Rightarrow> number \<Rightarrow> int" where
  "cmp_desc a b = (if num_less b a then -1 else if num_less a b then 1 else 0)"

lemma set_insert_by [simp]: "set (insert_by cmp x ys) = insert x (set ys)"
  by (induction ys) auto

lemma set_sort_by [simp]: "set (sort_by cmp xs) = set xs"
  by (induction xs) (auto simp: sort_by_def)

lemma length_insert_by [simp]: "length (insert_by cmp x ys) = Suc (length ys)"
  by (induction ys) auto

lemma length_sort_by [simp]: "length (sort_by cmp xs) = length xs"
  by (induction xs) (auto simp: sort_by_def)

lemma sum_list_insert_by:
  fixes f :: "'a \<Rightarrow> 'b::comm_monoid_add"
  shows "sum_list (map f (insert_by cmp x ys)) = f x + sum_list (map f ys)"
  by (induction ys) (auto simp: ac_simps)

lemma sum_list_sort_by:
  fixes f :: "'a \<Rightarrow> 'b::comm_monoid_add"
  shows "sum_list (map f (sort_by cmp xs)) = sum_list (map f xs)"
  by (induction xs) (auto simp: sort_by_def sum_list_insert_by)

text \<open>A comparator that orders: total and transitive up to equivalence.\<close>

definition ordering_cmp :: "('a \<Rightarrow> 'a \<Rightarrow> int) \<Rightarrow> bool" where
  "ordering_cmp cmp \<longleftrightarrow> (\<forall>a b. cmp a b \<le> 0 \<or> cmp b a \<le> 0) \<and> (\<forall>a b c. cmp a b \<le> 0 \<longrightarrow> cmp b c \<le> 0 \<longrightarrow> cmp a c \<le> 0)"

lemma sorted_insert_by:
  assumes "ordering_cmp cmp" "sorted_wrt (\<lambda>a b. cmp a b \<le> 0) ys"
  shows "sorted_wrt (\<lambda>a b. cmp a b \<le> 0) (insert_by cmp x ys)"
  using assms(2)
proof (induction ys)
  case (Cons y ys)
  have total: "cmp a b \<le> 0 \<or> cmp b a \<le> 0" and trans: "cmp a b \<le> 0 \<Longrightarrow> cmp b c \<le> 0 \<Longrightarrow> cmp a c \<le> 0" for a b c
    using assms(1) unfolding ordering_cmp_def by blast+
  show ?case
  proof (cases "cmp x y \<le> 0")
    case True
    then show ?thesis using Cons.prems trans[of x y] by auto
  next
    case False
    then show ?thesis using Cons total[of x y] by auto
  qed
qed simp

lemma sorted_sort_by: "ordering_cmp cmp \<Longrightarrow> sorted_wrt (\<lambda>a b. cmp a b \<le> 0) (sort_by cmp xs)"
  by (induction xs) (auto simp: sort_by_def intro: sorted_insert_by)

section \<open>Conversions of JSON data\<close>

text \<open>\<open>String(v)\<close> and \<open>Number(v)\<close> of JSON data.\<close>

fun json_toString :: "json \<Rightarrow> jsstr" where
  "json_toString JNull = js ''null''"
| "json_toString (JBool b) = (if b then js ''true'' else js ''false'')"
| "json_toString (JNum n) = num_text n"
| "json_toString (JStr s) = s"
| "json_toString (JArr vs) = js_join (js '','') (map (\<lambda>v. if v = JNull then [] else json_toString v) vs)"
| "json_toString (JObj m) = js ''[object Object]''"

definition json_toNumber :: "json option \<Rightarrow> number" where
  "json_toNumber v = (case v of
       None \<Rightarrow> NaN
     | Some JNull \<Rightarrow> Fin 0
     | Some (JBool b) \<Rightarrow> if b then Fin 1 else Fin 0
     | Some (JNum n) \<Rightarrow> n
     | Some (JStr s) \<Rightarrow> js_Number s
     | Some w \<Rightarrow> js_Number (json_toString w))"

end
