(* ===== verification/FlowGraph.thy ===== *)
theory FlowGraph
  imports JsNumText JsJson "HOL-Library.AList"
begin

text \<open>
  The dashboard's flow graph (features/dashboard/lib/flow.ts with its types in
  features/dashboard/types.ts): usage rows become paths through the stages a role may see, the paths
  are limited to the top nodes of each stage, and nodes and links accumulate the metrics of the paths
  through them.  A JavaScript \<open>Map\<close> is an association list in insertion order.  The collation
  \<open>localeCompare\<close>, the formatter \<open>Intl.NumberFormat\<close> and the color schemes of the chart package are
  the parameters in the record \<open>flow_env\<close>.  FlowTotals has the theorems.
\<close>

section \<open>Insertion-ordered maps\<close>

text \<open>\<open>const v = m.get(k) ?? d; ... m.set(k, f(v))\<close>.\<close>

definition upsert :: "'k \<Rightarrow> 'v \<Rightarrow> ('v \<Rightarrow> 'v) \<Rightarrow> ('k \<times> 'v) list \<Rightarrow> ('k \<times> 'v) list" where
  "upsert k d f m = AList.update k (f (case map_of m k of None \<Rightarrow> d | Some v \<Rightarrow> v)) m"

section \<open>Data\<close>

record flow_env =
  localeCompare :: "jsstr \<Rightarrow> jsstr \<Rightarrow> int"
  intlFormat :: "number \<Rightarrow> jsstr"
  dataScheme :: "(nat option \<times> jsstr option list) list"

datatype FlowNodeKind = KUser | KNode | KToken | KGroup | KModel | KChannel

datatype FlowMetric = MQuota | MTokens | MRequests

datatype FlowRole = RRoot | RAdmin | RUser

datatype FlowOverflowMode = Aggregate | Hide

record FlowQuotaDataItem =
  user_id :: "number option"
  username :: "jsstr option"
  node_name :: "jsstr option"
  use_group :: "jsstr option"
  token_id :: "number option"
  token_name :: "jsstr option"
  channel_id :: "number option"
  channel_name :: "jsstr option"
  model_name :: "jsstr option"
  token_used :: "number option"
  row_count :: "number option"
  row_quota :: "number option"

record FlowMetrics =
  m_quota :: number
  m_tokens :: number
  m_requests :: number

record FlowPathNode =
  p_id :: jsstr
  p_label :: jsstr
  p_kind :: FlowNodeKind

record PreparedFlowPath =
  pp_path :: "FlowPathNode list"
  pp_metrics :: FlowMetrics

record FlowNodeRank =
  r_node :: FlowPathNode
  r_value :: number

record FlowNodeFilter =
  f_kind :: FlowNodeKind
  f_id :: jsstr

record FlowLinkSelection =
  s_source :: jsstr
  s_target :: jsstr

type_synonym FlowPathContext = "(number \<Rightarrow> jsstr) option"

record FlowGraphOptions =
  topNodeLimit :: "number option"
  overflowMode :: "FlowOverflowMode option"
  otherNodeLabel :: "(FlowNodeKind \<Rightarrow> jsstr) option"
  activeNode :: "FlowNodeFilter option"
  activeLink :: "FlowLinkSelection option"
  maskSensitive :: bool

record FlowBuildOptions = FlowGraphOptions +
  o_role :: "FlowRole option"
  selectedUsers :: "jsstr list option"
  selectedNodes :: "FlowNodeFilter list option"
  o_colorPalette :: "jsstr list option"
  visibleStages :: "FlowNodeKind list option"
  o_deletedTokenLabel :: FlowPathContext

record DashboardFlowNode =
  n_id :: jsstr
  n_label :: jsstr
  n_kind :: FlowNodeKind
  n_value :: number
  n_requests :: number
  n_quota :: number
  n_tokens :: number
  n_color :: jsstr
  n_colorKey :: jsstr
  n_highlighted :: "bool option"
  n_dimmed :: "bool option"

record DashboardFlowLink =
  l_source :: jsstr
  l_target :: jsstr
  l_value :: number
  l_requests :: number
  l_quota :: number
  l_tokens :: number
  l_sourceLabel :: jsstr
  l_targetLabel :: jsstr
  l_color :: jsstr
  l_linkColor :: jsstr
  l_linkAlpha :: number
  l_hoverColor :: jsstr
  l_colorKey :: jsstr
  l_share :: number
  l_highlighted :: "bool option"
  l_dimmed :: "bool option"

record DashboardFlowGraph =
  fg_nodes :: "DashboardFlowNode list"
  fg_links :: "DashboardFlowLink list"

record FlowUserFilterOption =
  u_value :: jsstr
  u_label :: jsstr
  u_valueLabel :: jsstr
  u_valueRaw :: number
  u_color :: jsstr

record FlowNodeFilterOption = FlowUserFilterOption +
  u_kind :: FlowNodeKind

record FlowFilterOptions =
  fo_users :: "FlowUserFilterOption list"
  fo_nodes :: "FlowNodeFilterOption list"

record ProcessedFlowData =
  pf_summary :: FlowMetrics
  pf_flow :: DashboardFlowGraph
  pf_filterOptions :: FlowFilterOptions

section \<open>Rows to paths\<close>

definition numberValue :: "number option \<Rightarrow> number" where
  "numberValue v = (case v of None \<Rightarrow> Fin 0 | Some n \<Rightarrow> if is_finite n then n else Fin 0)"

definition rowMetrics :: "FlowQuotaDataItem \<Rightarrow> FlowMetrics" where
  "rowMetrics row = \<lparr>m_quota = numberValue (row_quota row), m_tokens = numberValue (token_used row),
     m_requests = numberValue (row_count row)\<rparr>"

definition metricValue :: "FlowMetrics \<Rightarrow> FlowMetric \<Rightarrow> number" where
  "metricValue metrics metric =
     (if metric = MRequests then m_requests metrics else if metric = MTokens then m_tokens metrics else m_quota metrics)"

text \<open>\<open>s || d\<close> on an optional string.\<close>

definition str_or :: "jsstr option \<Rightarrow> jsstr \<Rightarrow> jsstr" where
  "str_or s d = (case s of None \<Rightarrow> d | Some t \<Rightarrow> if t = [] then d else t)"

definition num_positive :: "number \<Rightarrow> bool" where
  "num_positive n = num_less (Fin 0) n"

definition userNode :: "FlowQuotaDataItem \<Rightarrow> FlowPathNode" where
  "userNode row = (let userID = numberValue (user_id row) in
     \<lparr>p_id = (if num_positive userID then js ''user:'' @ num_text userID else js ''user:'' @ str_or (username row) (js ''unknown'')),
      p_label = str_or (username row) (if num_positive userID then js ''user-'' @ num_text userID else js ''Unknown User''),
      p_kind = KUser\<rparr>)"

definition nodeNameNode :: "FlowQuotaDataItem \<Rightarrow> FlowPathNode" where
  "nodeNameNode row = (let nodeName = str_or (node_name row) (js ''default-node'') in
     \<lparr>p_id = js ''node:'' @ nodeName, p_label = nodeName, p_kind = KNode\<rparr>)"

definition deletedTokenLabel :: "number \<Rightarrow> FlowPathContext \<Rightarrow> jsstr" where
  "deletedTokenLabel tokenID ctx =
     (if num_le tokenID (Fin 0) then js ''Unknown Token''
      else case ctx of Some label \<Rightarrow> label tokenID | None \<Rightarrow> js ''token-'' @ num_text tokenID)"

definition tokenNode :: "FlowQuotaDataItem \<Rightarrow> FlowPathContext \<Rightarrow> FlowPathNode" where
  "tokenNode row ctx = (let tokenID = numberValue (token_id row) in
     \<lparr>p_id = (if num_positive tokenID then js ''token:'' @ num_text tokenID else js ''token:'' @ str_or (token_name row) (js ''unknown'')),
      p_label = str_or (token_name row) (deletedTokenLabel tokenID ctx),
      p_kind = KToken\<rparr>)"

definition groupNode :: "FlowQuotaDataItem \<Rightarrow> FlowPathNode" where
  "groupNode row = (let useGroup = str_or (use_group row) (js ''unknown'') in
     \<lparr>p_id = js ''group:'' @ useGroup, p_label = useGroup, p_kind = KGroup\<rparr>)"

definition modelNode :: "FlowQuotaDataItem \<Rightarrow> FlowPathNode" where
  "modelNode row = (let model = str_or (model_name row) (js ''unknown'') in
     \<lparr>p_id = js ''model:'' @ model, p_label = str_or (model_name row) (js ''Unknown Model''), p_kind = KModel\<rparr>)"

definition channelNode :: "FlowQuotaDataItem \<Rightarrow> FlowPathNode" where
  "channelNode row = (let channelID = numberValue (channel_id row) in
     \<lparr>p_id = (if num_positive channelID then js ''channel:'' @ num_text channelID
              else js ''channel:'' @ str_or (channel_name row) (js ''unknown'')),
      p_label = str_or (channel_name row) (if num_positive channelID then js ''channel-'' @ num_text channelID else js ''Unknown''),
      p_kind = KChannel\<rparr>)"

fun NODE_BUILDERS :: "FlowNodeKind \<Rightarrow> FlowQuotaDataItem \<Rightarrow> FlowPathContext \<Rightarrow> FlowPathNode" where
  "NODE_BUILDERS KUser row ctx = userNode row"
| "NODE_BUILDERS KNode row ctx = nodeNameNode row"
| "NODE_BUILDERS KToken row ctx = tokenNode row ctx"
| "NODE_BUILDERS KGroup row ctx = groupNode row"
| "NODE_BUILDERS KModel row ctx = modelNode row"
| "NODE_BUILDERS KChannel row ctx = channelNode row"

fun getFlowStages :: "FlowRole \<Rightarrow> FlowNodeKind list" where
  "getFlowStages RRoot = [KUser, KNode, KToken, KGroup, KModel, KChannel]"
| "getFlowStages RAdmin = [KUser, KGroup, KModel, KChannel]"
| "getFlowStages RUser = [KToken, KGroup, KModel]"

definition MIN_FLOW_STAGES :: nat where
  "MIN_FLOW_STAGES = 2"

definition resolveVisibleStages :: "FlowRole \<Rightarrow> FlowNodeKind list option \<Rightarrow> FlowNodeKind list" where
  "resolveVisibleStages role visible = (let stages = getFlowStages role in
     case visible of
       None \<Rightarrow> stages
     | Some vs \<Rightarrow> let filtered = filter (\<lambda>stage. stage \<in> set vs) stages
                  in if MIN_FLOW_STAGES \<le> length filtered then filtered else stages)"

definition flowPathForStages :: "FlowQuotaDataItem \<Rightarrow> FlowNodeKind list \<Rightarrow> FlowPathContext \<Rightarrow> FlowPathNode list" where
  "flowPathForStages row stages ctx = map (\<lambda>stage. NODE_BUILDERS stage row ctx) stages"

section \<open>Colors\<close>

definition DEFAULT_FLOW_CHART_COLOR :: jsstr where
  "DEFAULT_FLOW_CHART_COLOR = js ''#1664FF''"

text \<open>The package's list of schemes is not empty; entries of a scheme that are not strings are \<open>None\<close>.\<close>

definition getDashboardChartColors :: "flow_env \<Rightarrow> nat \<Rightarrow> jsstr list" where
  "getDashboardChartColors env domainLength =
     (let scheme = (case find (\<lambda>item. case fst item of None \<Rightarrow> True | Some m \<Rightarrow> m = 0 \<or> domainLength \<le> m) (dataScheme env) of
                      Some item \<Rightarrow> item | None \<Rightarrow> last (dataScheme env))
      in List.map_filter id (snd scheme))"

definition colorAt :: "flow_env \<Rightarrow> nat \<Rightarrow> jsstr list option \<Rightarrow> jsstr" where
  "colorAt env index palette =
     (let colors = (case palette of Some p \<Rightarrow> if p \<noteq> [] then p else getDashboardChartColors env (index + 1)
                    | None \<Rightarrow> getDashboardChartColors env (index + 1))
      in if colors = [] then DEFAULT_FLOW_CHART_COLOR else colors ! (index mod length colors))"

definition colorPalette :: "flow_env \<Rightarrow> nat \<Rightarrow> jsstr list option \<Rightarrow> jsstr list" where
  "colorPalette env colorCount palette =
     (let own = (let colors = getDashboardChartColors env colorCount
                 in if colors \<noteq> [] then colors else [DEFAULT_FLOW_CHART_COLOR])
      in case palette of Some p \<Rightarrow> if p \<noteq> [] then p else own | None \<Rightarrow> own)"

definition alphaColor :: "jsstr \<Rightarrow> number \<Rightarrow> jsstr \<times> number" where
  "alphaColor color alpha =
     (let normalized = js_trim color;
          hex = (if starts_with normalized (js ''#'') then drop 1 normalized else normalized)
      in if \<not> (length hex = 6 \<and> list_all is_hex hex) then (normalized, alpha)
         else let v = val_in_base 16 hex;
                  red = (v div 2 ^ 16) mod 256; green = (v div 2 ^ 8) mod 256; blue = v mod 256
              in (js ''rgba('' @ nat_text red @ js '', '' @ nat_text green @ js '', '' @ nat_text blue @ js '', ''
                    @ fixed_text 2 alpha @ js '')'', Fin 1))"

definition stableColorMap :: "flow_env \<Rightarrow> jsstr list \<Rightarrow> jsstr list option \<Rightarrow> (jsstr \<times> jsstr) list" where
  "stableColorMap env keys palette =
     (let uniqueKeys = unique keys; colors = colorPalette env (length uniqueKeys) palette
      in map (\<lambda>(index, key). (key, colorAt env index (Some colors))) (enumerate 0 uniqueKeys))"

section \<open>Row filters\<close>

definition filterRows :: "FlowQuotaDataItem list \<Rightarrow> jsstr list option \<Rightarrow> FlowQuotaDataItem list" where
  "filterRows rows selected =
     (let users = (case selected of None \<Rightarrow> [] | Some us \<Rightarrow> us)
      in if users = [] then rows else filter (\<lambda>row. p_id (userNode row) \<in> set users) rows)"

fun kind_name :: "FlowNodeKind \<Rightarrow> jsstr" where
  "kind_name KUser = js ''user''"
| "kind_name KNode = js ''node''"
| "kind_name KToken = js ''token''"
| "kind_name KGroup = js ''group''"
| "kind_name KModel = js ''model''"
| "kind_name KChannel = js ''channel''"

definition nodeFilterKey :: "FlowNodeFilter \<Rightarrow> jsstr" where
  "nodeFilterKey flt = kind_name (f_kind flt) @ 0 # f_id flt"

definition normalizeSelectedNodeFilters ::
    "FlowNodeFilter list option \<Rightarrow> FlowNodeKind list \<Rightarrow> (FlowNodeKind \<times> jsstr set) list" where
  "normalizeSelectedNodeFilters selected stages =
     foldl (\<lambda>filters flt. if f_kind flt \<notin> set stages then filters
                          else upsert (f_kind flt) {} (insert (f_id flt)) filters)
       [] (case selected of None \<Rightarrow> [] | Some fs \<Rightarrow> fs)"

definition pathMatchesNodeFilters :: "FlowPathNode list \<Rightarrow> (FlowNodeKind \<times> jsstr set) list \<Rightarrow> bool" where
  "pathMatchesNodeFilters path filters =
     (let byKind = foldl (\<lambda>m node. upsert (p_kind node) {} (insert (p_id node)) m) [] path
      in list_all (\<lambda>(kind, selectedIds). case map_of byKind kind of
                      None \<Rightarrow> False
                    | Some pathIds \<Rightarrow> selectedIds \<inter> pathIds \<noteq> {}) filters)"

definition filterRowsByNodes ::
    "FlowQuotaDataItem list \<Rightarrow> FlowNodeFilter list option \<Rightarrow> FlowNodeKind list \<Rightarrow> FlowPathContext \<Rightarrow> FlowQuotaDataItem list" where
  "filterRowsByNodes rows selected stages ctx =
     (let filters = normalizeSelectedNodeFilters selected stages
      in if filters = [] then rows
         else filter (\<lambda>row. pathMatchesNodeFilters (flowPathForStages row stages ctx) filters) rows)"

definition selectedNodeFiltersExceptKind :: "FlowNodeFilter list option \<Rightarrow> FlowNodeKind \<Rightarrow> FlowNodeFilter list option" where
  "selectedNodeFiltersExceptKind selected kind =
     (let filtered = filter (\<lambda>flt. f_kind flt \<noteq> kind) (case selected of None \<Rightarrow> [] | Some fs \<Rightarrow> fs)
      in if filtered \<noteq> [] then Some filtered else None)"

section \<open>Accumulating nodes and links\<close>

definition new_node :: "FlowPathNode \<Rightarrow> jsstr \<Rightarrow> jsstr \<Rightarrow> DashboardFlowNode" where
  "new_node node color colorKey =
     \<lparr>n_id = p_id node, n_label = p_label node, n_kind = p_kind node, n_value = Fin 0, n_requests = Fin 0,
      n_quota = Fin 0, n_tokens = Fin 0, n_color = color, n_colorKey = colorKey, n_highlighted = None, n_dimmed = None\<rparr>"

definition grow_node :: "FlowMetrics \<Rightarrow> FlowMetric \<Rightarrow> DashboardFlowNode \<Rightarrow> DashboardFlowNode" where
  "grow_node metrics metric previous = previous
     \<lparr>n_value := num_add (n_value previous) (metricValue metrics metric),
      n_requests := num_add (n_requests previous) (m_requests metrics),
      n_quota := num_add (n_quota previous) (m_quota metrics),
      n_tokens := num_add (n_tokens previous) (m_tokens metrics)\<rparr>"

definition addNode :: "(jsstr \<times> DashboardFlowNode) list \<Rightarrow> FlowPathNode \<Rightarrow> FlowMetrics \<Rightarrow> FlowMetric \<Rightarrow> jsstr \<Rightarrow> jsstr
    \<Rightarrow> (jsstr \<times> DashboardFlowNode) list" where
  "addNode m node metrics metric color colorKey =
     upsert (p_id node) (new_node node color colorKey) (grow_node metrics metric) m"

definition new_link :: "FlowPathNode \<Rightarrow> FlowPathNode \<Rightarrow> jsstr \<Rightarrow> jsstr \<Rightarrow> DashboardFlowLink" where
  "new_link source target color colorKey =
     \<lparr>l_source = p_id source, l_target = p_id target, l_value = Fin 0, l_requests = Fin 0, l_quota = Fin 0,
      l_tokens = Fin 0, l_sourceLabel = p_label source, l_targetLabel = p_label target, l_color = color,
      l_linkColor = color, l_linkAlpha = Fin 1, l_hoverColor = color, l_colorKey = colorKey, l_share = Fin 0,
      l_highlighted = None, l_dimmed = None\<rparr>"

definition grow_link :: "FlowMetrics \<Rightarrow> FlowMetric \<Rightarrow> DashboardFlowLink \<Rightarrow> DashboardFlowLink" where
  "grow_link metrics metric previous = previous
     \<lparr>l_value := num_add (l_value previous) (metricValue metrics metric),
      l_requests := num_add (l_requests previous) (m_requests metrics),
      l_quota := num_add (l_quota previous) (m_quota metrics),
      l_tokens := num_add (l_tokens previous) (m_tokens metrics)\<rparr>"

definition pathLinkKey :: "FlowPathNode \<Rightarrow> FlowPathNode \<Rightarrow> jsstr" where
  "pathLinkKey source target = p_id source @ 0 # p_id target"

definition linkStableKey :: "('a) DashboardFlowLink_scheme \<Rightarrow> jsstr" where
  "linkStableKey link = l_source link @ 0 # l_target link"

definition addLink :: "(jsstr \<times> DashboardFlowLink) list \<Rightarrow> FlowPathNode \<Rightarrow> FlowPathNode \<Rightarrow> FlowMetrics \<Rightarrow> FlowMetric
    \<Rightarrow> jsstr \<Rightarrow> jsstr \<Rightarrow> (jsstr \<times> DashboardFlowLink) list" where
  "addLink m source target metrics metric color colorKey =
     upsert (pathLinkKey source target) (new_link source target color colorKey) (grow_link metrics metric) m"

definition byValueThenLabel :: "flow_env \<Rightarrow> ('a \<Rightarrow> number) \<Rightarrow> ('a \<Rightarrow> jsstr) \<Rightarrow> 'a \<Rightarrow> 'a \<Rightarrow> int" where
  "byValueThenLabel env val label a b = or_cmp (cmp_desc (val a) (val b)) (localeCompare env (label a) (label b))"

text \<open>
  The links of one source, by value, get opacities from 0.24 to 0.44 (a single link 0.34); the order of
  the list does not change.  \<open>link_rank\<close> is the position of a link among those of its source.
\<close>

definition byValueThenKey :: "flow_env \<Rightarrow> DashboardFlowLink \<Rightarrow> DashboardFlowLink \<Rightarrow> int" where
  "byValueThenKey env a b = or_cmp (cmp_desc (l_value a) (l_value b)) (localeCompare env (linkStableKey a) (linkStableKey b))"

definition link_rank :: "flow_env \<Rightarrow> DashboardFlowLink list \<Rightarrow> nat \<Rightarrow> DashboardFlowLink \<Rightarrow> nat \<times> nat" where
  "link_rank env links i link =
     (let sourceLinks = filter (\<lambda>(j, l). l_source l = l_source link) (enumerate 0 links);
          sortedLinks = sort_by (\<lambda>a b. byValueThenKey env (snd a) (snd b)) sourceLinks
      in (length (takeWhile (\<lambda>(j, l). j \<noteq> i) sortedLinks), length sortedLinks))"

definition link_alpha :: "nat \<times> nat \<Rightarrow> number" where
  "link_alpha rank = (case rank of (index, n) \<Rightarrow>
     if n = 1 then round_num (34 / 100)
     else num_add (round_num (24 / 100))
            (num_mul (num_div (Fin (of_nat index)) (Fin (of_nat (max (n - 1) 1)))) (round_num (2 / 10))))"

definition assignLinkDisplayColors :: "flow_env \<Rightarrow> DashboardFlowLink list \<Rightarrow> DashboardFlowLink list" where
  "assignLinkDisplayColors env links =
     map (\<lambda>(i, link). case alphaColor (l_color link) (link_alpha (link_rank env links i link)) of
            (color, alpha) \<Rightarrow> link\<lparr>l_linkColor := color, l_linkAlpha := alpha, l_hoverColor := l_color link\<rparr>)
       (enumerate 0 links)"

definition buildSummary :: "FlowQuotaDataItem list \<Rightarrow> FlowMetrics" where
  "buildSummary rows = foldl (\<lambda>summary row. let metrics = rowMetrics row in summary
       \<lparr>m_quota := num_add (m_quota summary) (m_quota metrics),
        m_tokens := num_add (m_tokens summary) (m_tokens metrics),
        m_requests := num_add (m_requests summary) (m_requests metrics)\<rparr>)
     \<lparr>m_quota = Fin 0, m_tokens = Fin 0, m_requests = Fin 0\<rparr> rows"

section \<open>The top nodes of a stage\<close>

definition normalizeTopNodeLimit :: "number option \<Rightarrow> nat option" where
  "normalizeTopNodeLimit limit = (case limit of
       None \<Rightarrow> None
     | Some n \<Rightarrow> let parsed = math_floor n
                 in if is_finite parsed \<and> num_positive parsed then Some (nat \<lfloor>num_val parsed\<rfloor>) else None)"

fun OTHER_FLOW_NODE_IDS :: "FlowNodeKind \<Rightarrow> jsstr" where
  "OTHER_FLOW_NODE_IDS KUser = js ''user:__other__''"
| "OTHER_FLOW_NODE_IDS KNode = js ''node:__other__''"
| "OTHER_FLOW_NODE_IDS KToken = js ''token:__other__''"
| "OTHER_FLOW_NODE_IDS KGroup = js ''group:__other__''"
| "OTHER_FLOW_NODE_IDS KModel = js ''model:__other__''"
| "OTHER_FLOW_NODE_IDS KChannel = js ''channel:__other__''"

fun DEFAULT_OTHER_FLOW_NODE_LABELS :: "FlowNodeKind \<Rightarrow> jsstr" where
  "DEFAULT_OTHER_FLOW_NODE_LABELS KUser = js ''Other users''"
| "DEFAULT_OTHER_FLOW_NODE_LABELS KNode = js ''Other nodes''"
| "DEFAULT_OTHER_FLOW_NODE_LABELS KToken = js ''Other tokens''"
| "DEFAULT_OTHER_FLOW_NODE_LABELS KGroup = js ''Other groups''"
| "DEFAULT_OTHER_FLOW_NODE_LABELS KModel = js ''Other models''"
| "DEFAULT_OTHER_FLOW_NODE_LABELS KChannel = js ''Other channels''"

definition FLOW_NODE_KINDS :: "FlowNodeKind list" where
  "FLOW_NODE_KINDS = [KUser, KNode, KToken, KGroup, KModel, KChannel]"

definition otherFlowNode :: "FlowNodeKind \<Rightarrow> (FlowNodeKind \<Rightarrow> jsstr) option \<Rightarrow> FlowPathNode" where
  "otherFlowNode kind labeler =
     \<lparr>p_id = OTHER_FLOW_NODE_IDS kind,
      p_label = (case labeler of Some label \<Rightarrow> label kind | None \<Rightarrow> DEFAULT_OTHER_FLOW_NODE_LABELS kind),
      p_kind = kind\<rparr>"

type_synonym stage_totals = "(FlowNodeKind \<times> (jsstr \<times> FlowNodeRank) list) list"

definition add_rank :: "number \<Rightarrow> stage_totals \<Rightarrow> FlowPathNode \<Rightarrow> stage_totals" where
  "add_rank v totals node = (case map_of totals (p_kind node) of
       None \<Rightarrow> totals
     | Some stageTotals \<Rightarrow> AList.update (p_kind node)
         (upsert (p_id node) \<lparr>r_node = node, r_value = Fin 0\<rparr> (\<lambda>current. current\<lparr>r_value := num_add (r_value current) v\<rparr>)
            stageTotals) totals)"

definition byRank :: "flow_env \<Rightarrow> FlowNodeRank \<Rightarrow> FlowNodeRank \<Rightarrow> int" where
  "byRank env a b = or_cmp (cmp_desc (r_value a) (r_value b))
     (or_cmp (localeCompare env (p_label (r_node a)) (p_label (r_node b)))
        (localeCompare env (p_id (r_node a)) (p_id (r_node b))))"

definition rank_rows ::
    "FlowQuotaDataItem list \<Rightarrow> FlowMetric \<Rightarrow> FlowNodeKind list \<Rightarrow> FlowPathContext \<Rightarrow> stage_totals" where
  "rank_rows rows metric stages ctx =
     foldl (\<lambda>totals row. foldl (add_rank (metricValue (rowMetrics row) metric)) totals (flowPathForStages row stages ctx))
       (map (\<lambda>stage. (stage, [])) stages) rows"

definition buildTopNodeSets :: "flow_env \<Rightarrow> FlowQuotaDataItem list \<Rightarrow> FlowMetric \<Rightarrow> FlowNodeKind list \<Rightarrow> nat option
    \<Rightarrow> FlowPathContext \<Rightarrow> (FlowNodeKind \<times> jsstr set) list option" where
  "buildTopNodeSets env rows metric stages limit ctx = (case limit of
       None \<Rightarrow> None
     | Some n \<Rightarrow> if n = 0 then None else
         Some (map (\<lambda>(kind, stageTotals).
             (kind, set (map (\<lambda>rank. p_id (r_node rank)) (take n (sort_by (byRank env) (map snd stageTotals))))))
           (rank_rows rows metric stages ctx)))"

definition isTopFlowNode :: "FlowPathNode \<Rightarrow> (FlowNodeKind \<times> jsstr set) list \<Rightarrow> bool" where
  "isTopFlowNode node topNodeSets = (case map_of topNodeSets (p_kind node) of None \<Rightarrow> True | Some ids \<Rightarrow> p_id node \<in> ids)"

definition applyTopNodeLimit :: "FlowPathNode list \<Rightarrow> (FlowNodeKind \<times> jsstr set) list option \<Rightarrow> FlowOverflowMode
    \<Rightarrow> (FlowNodeKind \<Rightarrow> jsstr) option \<Rightarrow> FlowPathNode list option" where
  "applyTopNodeLimit path topNodeSets mode labeler = (case topNodeSets of
       None \<Rightarrow> Some path
     | Some sets \<Rightarrow>
         if \<not> list_ex (\<lambda>node. \<not> isTopFlowNode node sets) path then Some path
         else if mode = Hide then None
         else Some (map (\<lambda>node. if isTopFlowNode node sets then node else otherFlowNode (p_kind node) labeler) path))"

section \<open>Highlighting and masking\<close>

definition pathContainsFlowNode :: "FlowPathNode list \<Rightarrow> FlowNodeFilter \<Rightarrow> bool" where
  "pathContainsFlowNode path flt = list_ex (\<lambda>node. p_kind node = f_kind flt \<and> p_id node = f_id flt) path"

definition path_links :: "FlowPathNode list \<Rightarrow> (FlowPathNode \<times> FlowPathNode) list" where
  "path_links path = zip path (tl path)"

definition pathContainsFlowLink :: "FlowPathNode list \<Rightarrow> FlowLinkSelection \<Rightarrow> bool" where
  "pathContainsFlowLink path link = list_ex (\<lambda>(a, b). p_id a = s_source link \<and> p_id b = s_target link) (path_links path)"

definition buildFlowHighlightSets :: "PreparedFlowPath list \<Rightarrow> FlowNodeFilter option \<Rightarrow> FlowLinkSelection option
    \<Rightarrow> FlowNodeKind list \<Rightarrow> (jsstr set \<times> jsstr set) option" where
  "buildFlowHighlightSets prepared node link stages =
     (let nodeActive = (case node of None \<Rightarrow> False | Some n \<Rightarrow> f_kind n \<in> set stages) in
      if \<not> nodeActive \<and> link = None then None
      else let matchesPath = (\<lambda>path. case link of
                  Some l \<Rightarrow> pathContainsFlowLink path l
                | None \<Rightarrow> (case node of Some n \<Rightarrow> pathContainsFlowNode path n | None \<Rightarrow> False));
               matching = filter matchesPath (map pp_path prepared);
               nodes = \<Union> (set (map (\<lambda>path. set (map p_id path)) matching));
               links = \<Union> (set (map (\<lambda>path. set (map (\<lambda>(a, b). pathLinkKey a b) (path_links path))) matching))
           in if nodes = {} then None else Some (nodes, links))"

definition FLOW_MASK_TEXT :: jsstr where
  "FLOW_MASK_TEXT = [8226, 8226, 8226, 8226]"

definition maskFlowLabel :: "jsstr \<Rightarrow> jsstr" where
  "maskFlowLabel label = (if label = [] then label else FLOW_MASK_TEXT)"

definition SENSITIVE_FLOW_KINDS :: "FlowNodeKind set" where
  "SENSITIVE_FLOW_KINDS = {KUser, KNode, KToken, KGroup, KChannel}"

definition masked_node :: "DashboardFlowNode \<Rightarrow> bool" where
  "masked_node node \<longleftrightarrow> n_kind node \<in> SENSITIVE_FLOW_KINDS \<and> n_id node \<notin> OTHER_FLOW_NODE_IDS ` set FLOW_NODE_KINDS"

definition maskFlowGraphLabels :: "(jsstr \<times> DashboardFlowNode) list \<Rightarrow> (jsstr \<times> DashboardFlowLink) list
    \<Rightarrow> (jsstr \<times> DashboardFlowNode) list \<times> (jsstr \<times> DashboardFlowLink) list" where
  "maskFlowGraphLabels nodes links =
     (let maskedById = foldl (\<lambda>m node. AList.update (n_id node) (maskFlowLabel (n_label node)) m) []
                         (filter masked_node (map snd nodes));
          relabel = (\<lambda>id label. case map_of maskedById id of Some masked \<Rightarrow> masked | None \<Rightarrow> label)
      in (map (\<lambda>(k, node). (k, if masked_node node then node\<lparr>n_label := maskFlowLabel (n_label node)\<rparr> else node)) nodes,
          map (\<lambda>(k, link). (k, link\<lparr>l_sourceLabel := relabel (l_source link) (l_sourceLabel link),
                                     l_targetLabel := relabel (l_target link) (l_targetLabel link)\<rparr>)) links))"

definition highlight_node :: "jsstr set \<Rightarrow> DashboardFlowNode \<Rightarrow> DashboardFlowNode" where
  "highlight_node ids node = node\<lparr>n_highlighted := Some (n_id node \<in> ids), n_dimmed := Some (n_id node \<notin> ids)\<rparr>"

definition highlight_link :: "jsstr set \<Rightarrow> DashboardFlowLink \<Rightarrow> DashboardFlowLink" where
  "highlight_link keys link = link\<lparr>l_highlighted := Some (linkStableKey link \<in> keys),
     l_dimmed := Some (linkStableKey link \<notin> keys)\<rparr>"

definition applyFlowHighlights :: "DashboardFlowNode list \<Rightarrow> DashboardFlowLink list \<Rightarrow> (jsstr set \<times> jsstr set) option
    \<Rightarrow> DashboardFlowNode list \<times> DashboardFlowLink list" where
  "applyFlowHighlights nodes links sets = (case sets of
       None \<Rightarrow> (nodes, links)
     | Some (ids, keys) \<Rightarrow> (map (highlight_node ids) nodes, map (highlight_link keys) links))"

section \<open>The graph\<close>

definition prepare_paths :: "flow_env \<Rightarrow> FlowQuotaDataItem list \<Rightarrow> FlowMetric \<Rightarrow> FlowNodeKind list \<Rightarrow> FlowPathContext
    \<Rightarrow> ('a) FlowGraphOptions_scheme \<Rightarrow> PreparedFlowPath list" where
  "prepare_paths env rows metric stages ctx options =
     (let topNodeSets = buildTopNodeSets env rows metric stages (normalizeTopNodeLimit (topNodeLimit options)) ctx;
          mode = (case overflowMode options of Some m \<Rightarrow> m | None \<Rightarrow> Aggregate)
      in List.map_filter (\<lambda>row. case applyTopNodeLimit (flowPathForStages row stages ctx) topNodeSets mode (otherNodeLabel options) of
              None \<Rightarrow> None
            | Some path \<Rightarrow> Some \<lparr>pp_path = path, pp_metrics = rowMetrics row\<rparr>) rows)"

definition first_ids :: "PreparedFlowPath list \<Rightarrow> jsstr list" where
  "first_ids prepared = filter (\<lambda>id. id \<noteq> []) (map (\<lambda>p. p_id (hd (pp_path p))) (filter (\<lambda>p. pp_path p \<noteq> []) prepared))"

definition root_color :: "flow_env \<Rightarrow> jsstr list option \<Rightarrow> PreparedFlowPath list \<Rightarrow> jsstr \<Rightarrow> jsstr" where
  "root_color env palette prepared rid =
     (case map_of (stableColorMap env (sort_by (localeCompare env) (first_ids prepared)) palette) rid of
        Some color \<Rightarrow> color | None \<Rightarrow> colorAt env 0 palette)"

definition add_path_nodes :: "(jsstr \<Rightarrow> jsstr) \<Rightarrow> FlowMetric \<Rightarrow> (jsstr \<times> DashboardFlowNode) list \<Rightarrow> PreparedFlowPath
    \<Rightarrow> (jsstr \<times> DashboardFlowNode) list" where
  "add_path_nodes color metric nodes prepared = (case pp_path prepared of
       [] \<Rightarrow> nodes
     | first # _ \<Rightarrow> foldl (\<lambda>m node. addNode m node (pp_metrics prepared) metric (color (p_id first)) (p_id first)) nodes (pp_path prepared))"

definition add_path_links :: "(jsstr \<Rightarrow> jsstr) \<Rightarrow> FlowMetric \<Rightarrow> (jsstr \<times> DashboardFlowLink) list \<Rightarrow> PreparedFlowPath
    \<Rightarrow> (jsstr \<times> DashboardFlowLink) list" where
  "add_path_links color metric links prepared = (case pp_path prepared of
       [] \<Rightarrow> links
     | first # _ \<Rightarrow> foldl (\<lambda>m (source, target). addLink m source target (pp_metrics prepared) metric (color (p_id first)) (p_id first))
                    links (path_links (pp_path prepared)))"

definition bySourceTarget :: "flow_env \<Rightarrow> DashboardFlowLink \<Rightarrow> DashboardFlowLink \<Rightarrow> int" where
  "bySourceTarget env a b = or_cmp (localeCompare env (l_source a) (l_source b)) (localeCompare env (l_target a) (l_target b))"

definition link_total :: "jsstr list \<Rightarrow> DashboardFlowLink list \<Rightarrow> number" where
  "link_total firstStepSources links =
     foldl (\<lambda>acc link. num_add acc (l_value link)) (Fin 0) (filter (\<lambda>link. l_source link \<in> set firstStepSources) links)"

definition set_share :: "number \<Rightarrow> DashboardFlowLink \<Rightarrow> DashboardFlowLink" where
  "set_share tot link = link\<lparr>l_share := (if num_positive tot then num_div (l_value link) tot else Fin 0)\<rparr>"

definition buildFlowGraph :: "flow_env \<Rightarrow> FlowQuotaDataItem list \<Rightarrow> FlowMetric \<Rightarrow> FlowRole \<Rightarrow> jsstr list option
    \<Rightarrow> FlowNodeKind list option \<Rightarrow> FlowPathContext \<Rightarrow> ('a) FlowGraphOptions_scheme \<Rightarrow> DashboardFlowGraph" where
  "buildFlowGraph env rows metric role palette visible ctx options =
     (let stages = resolveVisibleStages role visible;
          prepared = prepare_paths env rows metric stages ctx options;
          color = root_color env palette prepared;
          nodes = foldl (add_path_nodes color metric) [] prepared;
          links = foldl (add_path_links color metric) [] prepared;
          (nodes, links) = (if maskSensitive options then maskFlowGraphLabels nodes links else (nodes, links));
          (node_values, link_values) = applyFlowHighlights (map snd nodes) (map snd links)
             (buildFlowHighlightSets prepared (activeNode options) (activeLink options) stages);
          flowLinks = sort_by (bySourceTarget env) link_values;
          tot = link_total (first_ids prepared) flowLinks
      in \<lparr>fg_nodes = sort_by (byValueThenLabel env n_value n_label) node_values,
          fg_links = assignLinkDisplayColors env (map (set_share tot) flowLinks)\<rparr>)"

section \<open>Filter options\<close>

definition buildUserFilterOptions :: "flow_env \<Rightarrow> FlowQuotaDataItem list \<Rightarrow> FlowMetric \<Rightarrow> jsstr list option
    \<Rightarrow> FlowUserFilterOption list" where
  "buildUserFilterOptions env rows metric palette =
     (let colors = stableColorMap env (sort_by (localeCompare env) (map (\<lambda>row. p_id (userNode row)) rows)) palette;
          users = foldl (\<lambda>m row.
            let user = userNode row in
            if (case user_id row of None \<Rightarrow> True | Some n \<Rightarrow> \<not> num_truthy n) \<and> str_or (username row) [] = [] then m
            else upsert (p_id user)
                   (p_label user, Fin 0, case map_of colors (p_id user) of Some c \<Rightarrow> c | None \<Rightarrow> colorAt env 0 palette)
                   (\<lambda>(label, v, c). (label, num_add v (metricValue (rowMetrics row) metric), c)) m) [] rows
      in sort_by (byValueThenLabel env u_valueRaw u_label)
           (map (\<lambda>(id, label, v, c). \<lparr>u_value = id, u_label = label, u_valueLabel = intlFormat env v, u_valueRaw = v, u_color = c\<rparr>) users))"

fun index_in :: "'a list \<Rightarrow> 'a \<Rightarrow> nat option" where
  "index_in [] x = None"
| "index_in (y # ys) x = (if x = y then Some 0 else map_option Suc (index_in ys x))"

definition stage_options :: "flow_env \<Rightarrow> FlowQuotaDataItem list \<Rightarrow> FlowMetric \<Rightarrow> jsstr list option
    \<Rightarrow> FlowPathContext \<Rightarrow> (jsstr \<times> jsstr) list \<Rightarrow> FlowNodeKind \<Rightarrow> FlowNodeFilterOption list" where
  "stage_options env candidateRows metric palette ctx colors stage =
     (let totals = foldl (\<lambda>m row. let node = NODE_BUILDERS stage row ctx in
            upsert (nodeFilterKey \<lparr>f_kind = p_kind node, f_id = p_id node\<rparr>) \<lparr>r_node = node, r_value = Fin 0\<rparr>
              (\<lambda>current. current\<lparr>r_value := num_add (r_value current) (metricValue (rowMetrics row) metric)\<rparr>) m) [] candidateRows
      in map (\<lambda>(_, rank). \<lparr>u_value = p_id (r_node rank), u_label = p_label (r_node rank),
              u_valueLabel = intlFormat env (r_value rank), u_valueRaw = r_value rank,
              u_color = (case map_of colors (p_id (r_node rank)) of Some c \<Rightarrow> c | None \<Rightarrow> colorAt env 0 palette),
              u_kind = p_kind (r_node rank)\<rparr>) totals)"

definition byStageThenValue :: "flow_env \<Rightarrow> FlowNodeKind list \<Rightarrow> FlowNodeFilterOption \<Rightarrow> FlowNodeFilterOption \<Rightarrow> int" where
  "byStageThenValue env stages a b =
     (let order = (\<lambda>kind. case index_in stages kind of Some i \<Rightarrow> int i | None \<Rightarrow> 0)
      in or_cmp (order (u_kind a) - order (u_kind b))
           (or_cmp (cmp_desc (u_valueRaw a) (u_valueRaw b))
              (or_cmp (localeCompare env (u_label a) (u_label b)) (localeCompare env (u_value a) (u_value b)))))"

definition buildNodeFilterOptions :: "flow_env \<Rightarrow> FlowQuotaDataItem list \<Rightarrow> FlowMetric \<Rightarrow> FlowRole \<Rightarrow> FlowNodeKind list option
    \<Rightarrow> jsstr list option \<Rightarrow> FlowPathContext \<Rightarrow> FlowNodeFilter list option \<Rightarrow> FlowNodeFilterOption list" where
  "buildNodeFilterOptions env rows metric role visible palette ctx selected =
     (let stages = resolveVisibleStages role visible;
          colorIds = unique (concat (map (\<lambda>row. map p_id (flowPathForStages row stages ctx)) rows));
          colors = stableColorMap env (sort_by (localeCompare env) colorIds) palette
      in sort_by (byStageThenValue env stages)
           (concat (map (\<lambda>stage. stage_options env
                (filterRowsByNodes rows (selectedNodeFiltersExceptKind selected stage) stages ctx)
                metric palette ctx colors stage) stages)))"

definition buildFlowFilterOptions :: "flow_env \<Rightarrow> FlowQuotaDataItem list \<Rightarrow> FlowMetric \<Rightarrow> jsstr list option \<Rightarrow> FlowRole
    \<Rightarrow> FlowNodeKind list option \<Rightarrow> FlowNodeFilter list option \<Rightarrow> FlowFilterOptions" where
  "buildFlowFilterOptions env rows metric palette role visible selected =
     \<lparr>fo_users = buildUserFilterOptions env rows metric palette,
      fo_nodes = buildNodeFilterOptions env rows metric role visible palette None selected\<rparr>"

definition buildDashboardFlowData :: "flow_env \<Rightarrow> FlowQuotaDataItem list \<Rightarrow> FlowMetric \<Rightarrow> FlowBuildOptions \<Rightarrow> ProcessedFlowData" where
  "buildDashboardFlowData env rows metric options =
     (let role = (case o_role options of Some r \<Rightarrow> r | None \<Rightarrow> RUser);
          palette = o_colorPalette options;
          ctx = o_deletedTokenLabel options;
          stages = resolveVisibleStages role (visibleStages options);
          userFilteredRows = filterRows rows (selectedUsers options);
          filteredRows = filterRowsByNodes userFilteredRows (selectedNodes options) stages ctx
      in \<lparr>pf_summary = buildSummary filteredRows,
          pf_flow = buildFlowGraph env filteredRows metric role palette (visibleStages options) ctx options,
          pf_filterOptions =
            \<lparr>fo_users = buildUserFilterOptions env rows metric palette,
             fo_nodes = buildNodeFilterOptions env userFilteredRows metric role (visibleStages options) palette ctx
                          (selectedNodes options)\<rparr>\<rparr>)"

end
