(* ===== verification/FlowTotals.thy ===== *)
theory FlowTotals
  imports FlowGraph
begin

text \<open>
  What the flow graph of FlowGraph shows.  The locale \<open>tally\<close> is the contract of the accumulating
  maps (\<open>addNode\<close>, \<open>addLink\<close>, the ranks of \<open>buildTopNodeSets\<close>): an entry holds the sum of the weights
  of the events with its key.  It is interpreted for the nodes and for the links; the conservation laws of
  the graph follow from it.
\<close>

section \<open>Accumulating maps\<close>

definition tally_map :: "('e \<Rightarrow> 'k) \<Rightarrow> ('e \<Rightarrow> 'v) \<Rightarrow> ('e \<Rightarrow> 'v \<Rightarrow> 'v) \<Rightarrow> 'e list \<Rightarrow> ('k \<times> 'v) list" where
  "tally_map key fresh grow es = foldl (\<lambda>m e. upsert (key e) (fresh e) (grow e) m) [] es"

lemma map_of_upsert:
  "map_of (upsert k d f m) x = (if x = k then Some (f (case map_of m k of None \<Rightarrow> d | Some v \<Rightarrow> v)) else map_of m x)"
  by (simp add: upsert_def update_conv')

lemma keys_upsert: "fst ` set (upsert k d f m) = insert k (fst ` set m)"
  by (simp add: upsert_def dom_update)

lemma distinct_upsert: "distinct (map fst m) \<Longrightarrow> distinct (map fst (upsert k d f m))"
  by (simp add: upsert_def distinct_update)

lemma foldl_foldl: "foldl (\<lambda>m p. foldl g m (es p)) m ps = foldl g m (concat (map es ps))"
  by (induction ps arbitrary: m) auto

lemma tally_map_snoc:
  "tally_map key fresh grow (es @ [e]) = upsert (key e) (fresh e) (grow e) (tally_map key fresh grow es)"
  by (simp add: tally_map_def)

lemma distinct_tally_map: "distinct (map fst (tally_map key fresh grow es))"
proof (induction es rule: rev_induct)
  case Nil
  then show ?case by (simp add: tally_map_def)
next
  case (snoc e es)
  then show ?case by (simp only: tally_map_snoc distinct_upsert)
qed

lemma map_of_tally_map:
  "map_of (tally_map key fresh grow es) k = (case filter (\<lambda>e. key e = k) es of
       [] \<Rightarrow> None
     | e # rest \<Rightarrow> Some (foldl (\<lambda>v e. grow e v) (fresh e) (e # rest)))"
proof (induction es rule: rev_induct)
  case Nil
  then show ?case by (simp add: tally_map_def)
next
  case (snoc e es)
  then show ?case by (auto simp: tally_map_snoc map_of_upsert split: list.splits)
qed

lemma keys_tally_map: "fst ` set (tally_map key fresh grow es) = key ` set es"
proof (induction es rule: rev_induct)
  case Nil
  then show ?case by (simp add: tally_map_def)
next
  case (snoc e es)
  then show ?case by (simp add: tally_map_snoc keys_upsert)
qed

lemma mem_tally_map:
  "(k, v) \<in> set (tally_map key fresh grow es) \<longleftrightarrow> map_of (tally_map key fresh grow es) k = Some v"
  using distinct_tally_map by (metis map_of_eq_Some_iff)

lemma foldl_grow_keeps:
  "(\<And>e v. att (grow e v) = att v) \<Longrightarrow> att (foldl (\<lambda>v e. grow e v) v es) = att v"
  by (induction es arbitrary: v) auto

text \<open>What growing does not change, an entry has from the first event with its key.\<close>

lemma tally_map_attribute:
  assumes "(k, v) \<in> set (tally_map key fresh grow es)" "\<And>e v. att (grow e v) = att v"
  shows "\<exists>e \<in> set es. key e = k \<and> att v = att (fresh e)"
proof -
  from assms(1) obtain e rest where e: "filter (\<lambda>e. key e = k) es = e # rest"
    and v: "v = foldl (\<lambda>v e. grow e v) (fresh e) (e # rest)"
    by (auto simp: mem_tally_map map_of_tally_map split: list.splits)
  from e have "e \<in> set (filter (\<lambda>e. key e = k) es)" by simp
  moreover have "att v = att (fresh e)" unfolding v by (rule foldl_grow_keeps) (rule assms(2))
  ultimately show ?thesis by auto
qed

section \<open>Exact sums\<close>

text \<open>A natural number, as counts, tokens and quota are.\<close>

definition is_count :: "number \<Rightarrow> bool" where
  "is_count n \<longleftrightarrow> is_finite n \<and> (num_val n = of_nat (nat \<lfloor>num_val n\<rfloor>))"

lemma is_count_nonneg: "is_count n \<Longrightarrow> 0 \<le> num_val n"
  unfolding is_count_def by (metis of_nat_0_le_iff)

lemma is_count_Fin [simp]: "is_count (Fin (of_nat n))" "is_count (Fin 0)" "is_count (Fin 1)" "is_count (Fin (numeral k))"
  by (simp_all add: is_count_def is_finite_def num_val_def)

lemma is_count_add:
  assumes "is_count a" "is_count b" "num_val a + num_val b \<le> 2 ^ 53"
  shows "is_count (num_add a b) \<and> num_val (num_add a b) = num_val a + num_val b"
proof -
  obtain x y where x: "num_val a = of_nat x" and y: "num_val b = of_nat y" using assms(1,2) unfolding is_count_def by blast
  have sum: "num_val a + num_val b = of_nat (x + y)" by (simp add: x y)
  have "x + y \<le> 2 ^ 53" using assms(3) unfolding sum by (metis of_nat_le_iff of_nat_numeral of_nat_power)
  then have "representable (of_int (int (x + y)))" by (intro representable_int) simp
  then have rep: "representable (num_val a + num_val b)" unfolding sum by simp
  have "denotes a (num_val a)" "denotes b (num_val b)" using assms(1,2) by (simp_all add: is_count_def denotes_def)
  from denotes_num_add[OF this rep] have "is_finite (num_add a b)" "num_val (num_add a b) = of_nat (x + y)"
    unfolding sum denotes_def by auto
  then show ?thesis unfolding is_count_def sum by simp
qed

lemma count_sum:
  assumes "list_all is_count ws" "is_count a" "num_val a + sum_list (map num_val ws) \<le> 2 ^ 53"
  shows "is_count (foldl num_add a ws) \<and> num_val (foldl num_add a ws) = num_val a + sum_list (map num_val ws)"
  using assms
proof (induction ws arbitrary: a)
  case (Cons w ws)
  have "0 \<le> sum_list (map num_val ws)"
    using Cons.prems(1) by (intro sum_list_nonneg) (auto simp: list_all_iff is_count_nonneg)
  then have add: "is_count (num_add a w) \<and> num_val (num_add a w) = num_val a + num_val w"
    using Cons.prems by (intro is_count_add) auto
  then show ?case using Cons.IH[of "num_add a w"] Cons.prems by (auto simp: add.assoc)
qed simp

lemma filter_sum_le:
  fixes f :: "'a \<Rightarrow> rat"
  assumes "\<And>x. x \<in> set xs \<Longrightarrow> 0 \<le> f x"
  shows "sum_list (map f (filter P xs)) \<le> sum_list (map f xs)"
  using assms by (induction xs) (auto simp: add_increasing)

text \<open>Summing by key and then over the keys is summing over the events.\<close>

lemma sum_by_keys:
  fixes f :: "'a \<Rightarrow> 'b::comm_monoid_add"
  assumes "distinct ks" "key ` set es \<subseteq> set ks"
  shows "(\<Sum>k\<leftarrow>filter Q ks. sum_list (map f (filter (\<lambda>e. key e = k) es))) = sum_list (map f (filter (\<lambda>e. Q (key e)) es))"
  using assms(2)
proof (induction es)
  case (Cons e es)
  have split: "(\<Sum>k\<leftarrow>filter Q ks. sum_list (map f (filter (\<lambda>e. key e = k) (e # es))))
      = (\<Sum>k\<leftarrow>filter Q ks. (if key e = k then f e else 0)) + (\<Sum>k\<leftarrow>filter Q ks. sum_list (map f (filter (\<lambda>e. key e = k) es)))"
    unfolding sum_list_addf[symmetric] by (intro arg_cong[where f = sum_list] map_cong) auto
  have "(\<Sum>k\<leftarrow>filter Q ks. (if key e = k then f e else 0)) = (if Q (key e) then f e else 0)"
    using assms(1) Cons.prems by (subst sum_list_distinct_conv_sum_set) (auto simp: sum.delta)
  then show ?case using Cons by (simp only: split) auto
qed simp

locale tally =
  fixes val :: "'v \<Rightarrow> number" and key :: "'e \<Rightarrow> 'k" and fresh :: "'e \<Rightarrow> 'v" and grow :: "'e \<Rightarrow> 'v \<Rightarrow> 'v"
    and weight :: "'e \<Rightarrow> number"
  assumes val_fresh: "val (fresh e) = Fin 0" and val_grow: "val (grow e v) = num_add (val v) (weight e)"
begin

lemma val_foldl: "val (foldl (\<lambda>v e. grow e v) v es) = foldl num_add (val v) (map weight es)"
  by (induction es arbitrary: v) (simp_all add: val_grow)

lemma entry_value:
  assumes "(k, v) \<in> set (tally_map key fresh grow es)"
  shows "val v = foldl num_add (Fin 0) (map weight (filter (\<lambda>e. key e = k) es))"
  using assms by (auto simp: mem_tally_map map_of_tally_map val_foldl val_fresh val_grow split: list.splits)

lemma entry_exact:
  assumes "(k, v) \<in> set (tally_map key fresh grow es)" "list_all (\<lambda>e. is_count (weight e)) es"
    "sum_list (map (\<lambda>e. num_val (weight e)) (filter (\<lambda>e. key e = k) es)) \<le> 2 ^ 53"
  shows "num_val (val v) = sum_list (map (\<lambda>e. num_val (weight e)) (filter (\<lambda>e. key e = k) es))"
proof -
  have "num_val (foldl num_add (Fin 0) (map weight (filter (\<lambda>e. key e = k) es)))
      = sum_list (map num_val (map weight (filter (\<lambda>e. key e = k) es)))"
    using count_sum[of "map weight (filter (\<lambda>e. key e = k) es)" "Fin 0"] assms(2,3)
    by (auto simp: list_all_iff num_val_def comp_def)
  then show ?thesis unfolding entry_value[OF assms(1)] by (simp add: comp_def)
qed

lemma group_exact:
  assumes "list_all (\<lambda>e. is_count (weight e)) es"
    "\<forall>k. sum_list (map (\<lambda>e. num_val (weight e)) (filter (\<lambda>e. key e = k) es)) \<le> 2 ^ 53"
  shows "(\<Sum>(k, v)\<leftarrow>filter (\<lambda>(k, v). Q k) (tally_map key fresh grow es). num_val (val v))
      = sum_list (map (\<lambda>e. num_val (weight e)) (filter (\<lambda>e. Q (key e)) es))"
proof -
  let ?m = "tally_map key fresh grow es" and ?f = "\<lambda>k. sum_list (map (\<lambda>e. num_val (weight e)) (filter (\<lambda>e. key e = k) es))"
  have "(\<Sum>(k, v)\<leftarrow>filter (\<lambda>(k, v). Q k) ?m. num_val (val v)) = (\<Sum>(k, v)\<leftarrow>filter (\<lambda>(k, v). Q k) ?m. ?f k)"
    using entry_exact[OF _ assms(1)] assms(2) by (intro arg_cong[where f = sum_list] map_cong) auto
  also have "\<dots> = (\<Sum>k\<leftarrow>filter Q (map fst ?m). ?f k)"
    by (simp add: filter_map comp_def case_prod_unfold)
  also have "\<dots> = sum_list (map (\<lambda>e. num_val (weight e)) (filter (\<lambda>e. Q (key e)) es))"
    by (rule sum_by_keys) (simp_all only: distinct_tally_map keys_tally_map set_map)
  finally show ?thesis .
qed

end

section \<open>Nodes and links as tallies\<close>

type_synonym node_event = "FlowPathNode \<times> jsstr \<times> FlowMetrics"
type_synonym link_event = "(FlowPathNode \<times> FlowPathNode) \<times> jsstr \<times> FlowMetrics"

definition node_events :: "PreparedFlowPath list \<Rightarrow> node_event list" where
  "node_events prepared = concat (map (\<lambda>p. map (\<lambda>n. (n, p_id (hd (pp_path p)), pp_metrics p)) (pp_path p)) prepared)"

definition link_events :: "PreparedFlowPath list \<Rightarrow> link_event list" where
  "link_events prepared = concat (map (\<lambda>p. map (\<lambda>l. (l, p_id (hd (pp_path p)), pp_metrics p)) (path_links (pp_path p))) prepared)"

definition node_key :: "node_event \<Rightarrow> jsstr" where
  "node_key e = p_id (fst e)"

definition link_key :: "link_event \<Rightarrow> jsstr" where
  "link_key e = (case fst e of (a, b) \<Rightarrow> pathLinkKey a b)"

definition node_fresh :: "(jsstr \<Rightarrow> jsstr) \<Rightarrow> node_event \<Rightarrow> DashboardFlowNode" where
  "node_fresh color e = (case e of (n, r, m) \<Rightarrow> new_node n (color r) r)"

definition link_fresh :: "(jsstr \<Rightarrow> jsstr) \<Rightarrow> link_event \<Rightarrow> DashboardFlowLink" where
  "link_fresh color e = (case e of ((a, b), r, m) \<Rightarrow> new_link a b (color r) r)"

definition event_weight :: "FlowMetric \<Rightarrow> 'a \<times> jsstr \<times> FlowMetrics \<Rightarrow> number" where
  "event_weight metric e = metricValue (snd (snd e)) metric"

definition node_grow :: "FlowMetric \<Rightarrow> node_event \<Rightarrow> DashboardFlowNode \<Rightarrow> DashboardFlowNode" where
  "node_grow metric e = grow_node (snd (snd e)) metric"

definition link_grow :: "FlowMetric \<Rightarrow> link_event \<Rightarrow> DashboardFlowLink \<Rightarrow> DashboardFlowLink" where
  "link_grow metric e = grow_link (snd (snd e)) metric"

lemmas event_defs = node_key_def link_key_def node_fresh_def link_fresh_def event_weight_def node_grow_def link_grow_def

interpretation node_tally: tally n_value node_key "node_fresh color" "node_grow metric" "event_weight metric"
  for color metric
  by unfold_locales (auto simp: event_defs new_node_def grow_node_def)

interpretation link_tally: tally l_value link_key "link_fresh color" "link_grow metric" "event_weight metric"
  for color metric
  by unfold_locales (auto simp: event_defs new_link_def grow_link_def split: prod.splits)

abbreviation flow_nodes :: "(jsstr \<Rightarrow> jsstr) \<Rightarrow> FlowMetric \<Rightarrow> PreparedFlowPath list \<Rightarrow> (jsstr \<times> DashboardFlowNode) list" where
  "flow_nodes color metric prepared \<equiv> tally_map node_key (node_fresh color) (node_grow metric) (node_events prepared)"

abbreviation flow_links :: "(jsstr \<Rightarrow> jsstr) \<Rightarrow> FlowMetric \<Rightarrow> PreparedFlowPath list \<Rightarrow> (jsstr \<times> DashboardFlowLink) list" where
  "flow_links color metric prepared \<equiv> tally_map link_key (link_fresh color) (link_grow metric) (link_events prepared)"

lemma add_path_nodes_tally: "foldl (add_path_nodes color metric) [] prepared = flow_nodes color metric prepared"
proof -
  have "add_path_nodes color metric = (\<lambda>m p. foldl (\<lambda>m e. upsert (node_key e) (node_fresh color e) (node_grow metric e) m) m
      (map (\<lambda>n. (n, p_id (hd (pp_path p)), pp_metrics p)) (pp_path p)))"
    by (rule ext, rule ext) (auto simp: add_path_nodes_def addNode_def foldl_map event_defs split: list.splits)
  then show ?thesis by (simp add: tally_map_def node_events_def foldl_foldl)
qed

lemma add_path_links_tally: "foldl (add_path_links color metric) [] prepared = flow_links color metric prepared"
proof -
  have "add_path_links color metric = (\<lambda>m p. foldl (\<lambda>m e. upsert (link_key e) (link_fresh color e) (link_grow metric e) m) m
      (map (\<lambda>l. (l, p_id (hd (pp_path p)), pp_metrics p)) (path_links (pp_path p))))"
    by (rule ext, rule ext)
      (auto simp: add_path_links_def addLink_def foldl_map event_defs path_links_def case_prod_unfold split: list.splits)
  then show ?thesis by (simp add: tally_map_def link_events_def foldl_foldl)
qed

section \<open>Identifiers\<close>

text \<open>A name without the separator U+0000 of the keys.\<close>

definition plain :: "jsstr option \<Rightarrow> bool" where
  "plain s \<longleftrightarrow> (case s of None \<Rightarrow> True | Some t \<Rightarrow> 0 \<notin> set t)"

definition plain_row :: "FlowQuotaDataItem \<Rightarrow> bool" where
  "plain_row row \<longleftrightarrow> plain (username row) \<and> plain (node_name row) \<and> plain (use_group row) \<and> plain (token_name row)
     \<and> plain (channel_name row) \<and> plain (model_name row)"

text \<open>The identifier of a path node starts with its kind and a colon.\<close>

definition kind_of_id :: "jsstr \<Rightarrow> jsstr" where
  "kind_of_id i = takeWhile (\<lambda>c. c \<noteq> 58) i"

definition wf_path_node :: "FlowPathNode \<Rightarrow> bool" where
  "wf_path_node n \<longleftrightarrow> kind_of_id (p_id n) = kind_name (p_kind n)"

lemma plain_nat_text: "0 \<notin> set (nat_text n)"
  by (rule nat_text_no) simp

lemma plain_exponent: "0 \<notin> set (exponent_text e)"
  using plain_nat_text by (simp add: exponent_text_def)

lemma plain_layout: "0 \<notin> set ds \<Longrightarrow> 0 \<notin> set (decimal_layout ds k n)"
  using plain_exponent by (auto simp: decimal_layout_def dest: in_set_takeD in_set_dropD)

lemma plain_num_text: "0 \<notin> set (num_text n)"
  using plain_nat_text plain_layout
  by (auto simp: num_text_def positive_text_def split: number.splits prod.splits)

lemma plain_str_or: "plain s \<Longrightarrow> 0 \<notin> set d \<Longrightarrow> 0 \<notin> set (str_or s d)"
  by (auto simp: plain_def str_or_def split: option.splits)

lemmas node_builder_defs = userNode_def nodeNameNode_def tokenNode_def groupNode_def modelNode_def channelNode_def Let_def

lemma NODE_BUILDERS_kind [simp]: "p_kind (NODE_BUILDERS k row ctx) = k"
  by (cases k) (simp_all add: node_builder_defs)

lemma NODE_BUILDERS_wf: "wf_path_node (NODE_BUILDERS k row ctx)"
  by (cases k) (auto simp: wf_path_node_def kind_of_id_def node_builder_defs)

lemma NODE_BUILDERS_plain: "plain_row row \<Longrightarrow> 0 \<notin> set (p_id (NODE_BUILDERS k row ctx))"
  by (cases k) (auto simp: node_builder_defs plain_row_def plain_num_text plain_str_or)

lemma otherFlowNode_kind [simp]: "p_kind (otherFlowNode k labeler) = k"
  by (simp add: otherFlowNode_def)

lemma otherFlowNode_wf: "wf_path_node (otherFlowNode k labeler)"
  by (cases k) (auto simp: wf_path_node_def kind_of_id_def otherFlowNode_def)

lemma otherFlowNode_plain: "0 \<notin> set (p_id (otherFlowNode k labeler))"
  by (cases k) (auto simp: otherFlowNode_def)

lemma kind_name_inj [simp]: "kind_name a = kind_name b \<longleftrightarrow> a = b"
  by (cases a; cases b) auto

lemma wf_same_id: "wf_path_node a \<Longrightarrow> wf_path_node b \<Longrightarrow> p_id a = p_id b \<Longrightarrow> p_kind a = p_kind b"
  unfolding wf_path_node_def by (metis kind_name_inj)

section \<open>Prepared paths\<close>

definition wf_path :: "FlowNodeKind list \<Rightarrow> FlowPathNode list \<Rightarrow> bool" where
  "wf_path stages path \<longleftrightarrow> map p_kind path = stages \<and> list_all wf_path_node path"

definition plain_path :: "FlowPathNode list \<Rightarrow> bool" where
  "plain_path path \<longleftrightarrow> list_all (\<lambda>n. 0 \<notin> set (p_id n)) path"

lemma applyTopNodeLimit_cases:
  assumes "applyTopNodeLimit path sets mode labeler = Some path'"
  shows "\<exists>keep. path' = map (\<lambda>n. if keep n then n else otherFlowNode (p_kind n) labeler) path"
proof (cases "path' = path")
  case True
  then show ?thesis by (intro exI[of _ "\<lambda>_. True"]) simp
next
  case False
  then show ?thesis using assms by (auto simp: applyTopNodeLimit_def split: option.splits if_splits)
qed

lemma prepare_paths_path:
  assumes "p \<in> set (prepare_paths env rows metric stages ctx options)"
  shows "\<exists>row keep. row \<in> set rows \<and> pp_metrics p = rowMetrics row
    \<and> pp_path p = map (\<lambda>n. if keep n then n else otherFlowNode (p_kind n) (otherNodeLabel options)) (flowPathForStages row stages ctx)"
  using assms applyTopNodeLimit_cases
  by (fastforce simp: prepare_paths_def map_filter_def Let_def split: option.splits)

lemma prepare_paths_wf: "p \<in> set (prepare_paths env rows metric stages ctx options) \<Longrightarrow> wf_path stages (pp_path p)"
  by (drule prepare_paths_path)
    (auto simp: wf_path_def flowPathForStages_def list_all_iff NODE_BUILDERS_wf otherFlowNode_wf intro!: map_idI)

lemma prepare_paths_plain:
  "list_all plain_row rows \<Longrightarrow> p \<in> set (prepare_paths env rows metric stages ctx options) \<Longrightarrow> plain_path (pp_path p)"
  by (drule prepare_paths_path)
    (auto simp: plain_path_def flowPathForStages_def list_all_iff NODE_BUILDERS_plain otherFlowNode_plain)

lemma prepare_paths_counts:
  "list_all (\<lambda>row. is_count (metricValue (rowMetrics row) metric)) rows \<Longrightarrow>
   p \<in> set (prepare_paths env rows metric stages ctx options) \<Longrightarrow> is_count (metricValue (pp_metrics p) metric)"
  by (drule prepare_paths_path) (auto simp: list_all_iff)

lemma map_filter_sum_le:
  fixes f :: "'b \<Rightarrow> rat"
  assumes "\<forall>x \<in> set xs. 0 \<le> g x" "\<forall>x \<in> set xs. \<forall>y. h x = Some y \<longrightarrow> f y = g x"
  shows "sum_list (map f (List.map_filter h xs)) \<le> sum_list (map g xs)"
  using assms
proof (induction xs)
  case (Cons x xs)
  then show ?case by (cases "h x") (auto simp: map_filter_simps add_increasing)
qed (simp add: map_filter_simps)

lemma prepare_paths_total:
  assumes "list_all (\<lambda>row. is_count (metricValue (rowMetrics row) metric)) rows"
  shows "(\<Sum>p\<leftarrow>prepare_paths env rows metric stages ctx options. num_val (metricValue (pp_metrics p) metric))
    \<le> (\<Sum>row\<leftarrow>rows. num_val (metricValue (rowMetrics row) metric))"
  unfolding prepare_paths_def Let_def using assms
  by (intro map_filter_sum_le) (auto simp: list_all_iff is_count_nonneg split: option.splits)

lemma stages_distinct: "distinct (resolveVisibleStages role visible)"
  by (cases role) (auto simp: resolveVisibleStages_def Let_def split: option.splits)

lemma stages_two: "2 \<le> length (resolveVisibleStages role visible)"
  by (cases role) (auto simp: resolveVisibleStages_def MIN_FLOW_STAGES_def Let_def split: option.splits)

lemma wf_path_distinct_ids:
  assumes "wf_path stages path" "distinct stages"
  shows "distinct (map p_id path)"
proof -
  have "inj_on p_id (set path)"
    using assms wf_same_id unfolding wf_path_def inj_on_def list_all_iff
    by (metis distinct_map inj_on_def)
  then show ?thesis using assms by (auto simp: wf_path_def distinct_map)
qed

section \<open>Sums over paths\<close>

lemma sum_filter_concat:
  fixes f :: "'a \<Rightarrow> 'b::comm_monoid_add"
  shows "sum_list (map f (filter P (concat xss))) = (\<Sum>xs\<leftarrow>xss. sum_list (map f (filter P xs)))"
  by (induction xss) auto

lemma sum_one:
  fixes w :: "'b::comm_monoid_add"
  shows "distinct (map g xs) \<Longrightarrow> sum_list (map (\<lambda>_. w) (filter (\<lambda>x. g x = u) xs)) = (if u \<in> g ` set xs then w else 0)"
  by (induction xs) auto

lemma path_links_fst: "map fst (path_links path) = butlast path"
  unfolding path_links_def by (induction path) (auto simp: butlast_conv_take map_fst_zip_take)

lemma path_links_snd: "map snd (path_links path) = tl path"
  unfolding path_links_def by (simp add: map_snd_zip_take)

lemma path_link_ends:
  "(\<lambda>l. p_id (fst l)) ` set (path_links path) = p_id ` set (butlast path)"
  "(\<lambda>l. p_id (snd l)) ` set (path_links path) = p_id ` set (tl path)"
  unfolding path_links_fst[symmetric] path_links_snd[symmetric] by (simp_all add: image_image)

abbreviation path_weight :: "FlowMetric \<Rightarrow> PreparedFlowPath \<Rightarrow> rat" where
  "path_weight metric p \<equiv> num_val (metricValue (pp_metrics p) metric)"

lemma node_event_sum:
  assumes "\<forall>p \<in> set prepared. distinct (map p_id (pp_path p))"
  shows "sum_list (map (\<lambda>e. num_val (event_weight metric e)) (filter (\<lambda>e. node_key e = u) (node_events prepared)))
    = (\<Sum>p\<leftarrow>prepared. if u \<in> p_id ` set (pp_path p) then path_weight metric p else 0)"
  unfolding node_events_def sum_filter_concat map_map
  using assms by (intro arg_cong[where f = sum_list] map_cong)
    (auto simp: filter_map comp_def node_key_def event_weight_def sum_one)

lemma link_event_sum:
  fixes end_of :: "FlowPathNode \<times> FlowPathNode \<Rightarrow> FlowPathNode"
  assumes "\<forall>p \<in> set prepared. distinct (map (\<lambda>l. p_id (end_of l)) (path_links (pp_path p)))"
  shows "sum_list (map (\<lambda>e. num_val (event_weight metric e)) (filter (\<lambda>e. p_id (end_of (fst e)) = u) (link_events prepared)))
    = (\<Sum>p\<leftarrow>prepared. if u \<in> (\<lambda>l. p_id (end_of l)) ` set (path_links (pp_path p)) then path_weight metric p else 0)"
  unfolding link_events_def sum_filter_concat map_map
  using assms by (intro arg_cong[where f = sum_list] map_cong)
    (auto simp: filter_map comp_def event_weight_def sum_one[where g = "\<lambda>l. p_id (end_of l)"])

section \<open>What display leaves alone\<close>

definition node_core :: "DashboardFlowNode \<Rightarrow> jsstr \<times> FlowNodeKind \<times> number" where
  "node_core n = (n_id n, n_kind n, n_value n)"

definition link_core :: "DashboardFlowLink \<Rightarrow> jsstr \<times> jsstr \<times> number" where
  "link_core l = (l_source l, l_target l, l_value l)"

lemma mask_core:
  "map (\<lambda>x. node_core (snd x)) (fst (maskFlowGraphLabels nodes links)) = map (\<lambda>x. node_core (snd x)) nodes"
  "map (\<lambda>x. link_core (snd x)) (snd (maskFlowGraphLabels nodes links)) = map (\<lambda>x. link_core (snd x)) links"
  by (auto simp: maskFlowGraphLabels_def Let_def node_core_def link_core_def)

lemma highlight_core:
  "map node_core (fst (applyFlowHighlights nodes links sets)) = map node_core nodes"
  "map link_core (snd (applyFlowHighlights nodes links sets)) = map link_core links"
  by (auto simp: applyFlowHighlights_def highlight_node_def highlight_link_def node_core_def link_core_def split: option.splits)

lemma colors_core: "map link_core (assignLinkDisplayColors env links) = map link_core links"
proof -
  have "map link_core (assignLinkDisplayColors env links) = map (\<lambda>p. link_core (snd p)) (enumerate 0 links)"
    by (auto simp: assignLinkDisplayColors_def link_core_def split: prod.splits)
  also have "\<dots> = map link_core (map snd (enumerate 0 links))" by (simp only: map_map comp_def)
  finally show ?thesis by (simp del: map_map)
qed

lemma share_core: "map link_core (map (set_share t) links) = map link_core links"
  by (simp add: set_share_def link_core_def)

text \<open>The graph before it is sorted and colored.\<close>

definition raw_graph :: "flow_env \<Rightarrow> FlowQuotaDataItem list \<Rightarrow> FlowMetric \<Rightarrow> FlowRole \<Rightarrow> jsstr list option
    \<Rightarrow> FlowNodeKind list option \<Rightarrow> FlowPathContext \<Rightarrow> ('a) FlowGraphOptions_scheme
    \<Rightarrow> (jsstr \<times> DashboardFlowNode) list \<times> (jsstr \<times> DashboardFlowLink) list" where
  "raw_graph env rows metric role palette visible ctx options =
     (let prepared = prepare_paths env rows metric (resolveVisibleStages role visible) ctx options;
          color = root_color env palette prepared
      in (flow_nodes color metric prepared, flow_links color metric prepared))"

definition displayed_graph :: "flow_env \<Rightarrow> FlowQuotaDataItem list \<Rightarrow> FlowMetric \<Rightarrow> FlowRole \<Rightarrow> jsstr list option
    \<Rightarrow> FlowNodeKind list option \<Rightarrow> FlowPathContext \<Rightarrow> ('a) FlowGraphOptions_scheme
    \<Rightarrow> DashboardFlowNode list \<times> DashboardFlowLink list" where
  "displayed_graph env rows metric role palette visible ctx options =
     (let (nodes, links) = raw_graph env rows metric role palette visible ctx options;
          (nodes, links) = (if maskSensitive options then maskFlowGraphLabels nodes links else (nodes, links));
          prepared = prepare_paths env rows metric (resolveVisibleStages role visible) ctx options
      in applyFlowHighlights (map snd nodes) (map snd links)
           (buildFlowHighlightSets prepared (activeNode options) (activeLink options) (resolveVisibleStages role visible)))"

lemma buildFlowGraph_displayed:
  "\<exists>t. buildFlowGraph env rows metric role palette visible ctx options =
     \<lparr>fg_nodes = sort_by (byValueThenLabel env n_value n_label) (fst (displayed_graph env rows metric role palette visible ctx options)),
      fg_links = assignLinkDisplayColors env (map (set_share t)
        (sort_by (bySourceTarget env) (snd (displayed_graph env rows metric role palette visible ctx options))))\<rparr>"
  unfolding buildFlowGraph_def displayed_graph_def raw_graph_def Let_def
  by (auto simp: add_path_nodes_tally add_path_links_tally split: prod.splits)

lemma displayed_core:
  "map node_core (fst (displayed_graph env rows metric role palette visible ctx options))
     = map (\<lambda>x. node_core (snd x)) (fst (raw_graph env rows metric role palette visible ctx options))"
  "map link_core (snd (displayed_graph env rows metric role palette visible ctx options))
     = map (\<lambda>x. link_core (snd x)) (snd (raw_graph env rows metric role palette visible ctx options))"
proof -
  obtain nodes links where raw: "raw_graph env rows metric role palette visible ctx options = (nodes, links)" by fastforce
  show "map node_core (fst (displayed_graph env rows metric role palette visible ctx options))
     = map (\<lambda>x. node_core (snd x)) (fst (raw_graph env rows metric role palette visible ctx options))"
    unfolding displayed_graph_def raw Let_def using mask_core(1)[of nodes links]
    by (auto simp: highlight_core comp_def split: prod.splits)
  show "map link_core (snd (displayed_graph env rows metric role palette visible ctx options))
     = map (\<lambda>x. link_core (snd x)) (snd (raw_graph env rows metric role palette visible ctx options))"
    unfolding displayed_graph_def raw Let_def using mask_core(2)[of nodes links]
    by (auto simp: highlight_core comp_def split: prod.splits)
qed

lemma sum_core:
  fixes f :: "'c \<Rightarrow> 'b::comm_monoid_add"
  assumes "map core xs = map core' ys"
  shows "(\<Sum>x\<leftarrow>xs. f (core x)) = (\<Sum>y\<leftarrow>ys. f (core' y))"
  using arg_cong[OF assms, of "\<lambda>zs. sum_list (map f zs)"] by (simp add: comp_def)

lemma graph_link_sum:
  fixes f :: "_ \<Rightarrow> rat"
  shows "(\<Sum>l\<leftarrow>fg_links (buildFlowGraph env rows metric role palette visible ctx options). f (link_core l))
    = (\<Sum>x\<leftarrow>snd (raw_graph env rows metric role palette visible ctx options). f (link_core (snd x)))"
proof -
  obtain t where g: "fg_links (buildFlowGraph env rows metric role palette visible ctx options)
     = assignLinkDisplayColors env (map (set_share t) (sort_by (bySourceTarget env) (snd (displayed_graph env rows metric role palette visible ctx options))))"
    using buildFlowGraph_displayed[of env rows metric role palette visible ctx options] by auto
  show ?thesis unfolding g sum_core[OF colors_core] sum_core[OF share_core] sum_list_sort_by
    by (rule sum_core[OF displayed_core(2)])
qed

lemma graph_node_sum:
  fixes f :: "_ \<Rightarrow> rat"
  shows "(\<Sum>n\<leftarrow>fg_nodes (buildFlowGraph env rows metric role palette visible ctx options). f (node_core n))
    = (\<Sum>x\<leftarrow>fst (raw_graph env rows metric role palette visible ctx options). f (node_core (snd x)))"
  using buildFlowGraph_displayed[of env rows metric role palette visible ctx options]
  by (auto simp: sum_list_sort_by sum_core[OF displayed_core(1)])

lemma graph_node_cores:
  "node_core ` set (fg_nodes (buildFlowGraph env rows metric role palette visible ctx options))
    = (\<lambda>x. node_core (snd x)) ` set (fst (raw_graph env rows metric role palette visible ctx options))"
proof -
  have "fg_nodes (buildFlowGraph env rows metric role palette visible ctx options)
     = sort_by (byValueThenLabel env n_value n_label) (fst (displayed_graph env rows metric role palette visible ctx options))"
    using buildFlowGraph_displayed[of env rows metric role palette visible ctx options] by auto
  then show ?thesis
    using arg_cong[OF displayed_core(1)[of env rows metric role palette visible ctx options], of set]
    by (simp only: set_map set_sort_by)
qed

section \<open>Conservation\<close>

definition countable_paths :: "FlowNodeKind list \<Rightarrow> FlowMetric \<Rightarrow> PreparedFlowPath list \<Rightarrow> bool" where
  "countable_paths stages metric prepared \<longleftrightarrow> distinct stages
     \<and> (\<forall>p \<in> set prepared. wf_path stages (pp_path p) \<and> is_count (metricValue (pp_metrics p) metric))
     \<and> (\<Sum>p\<leftarrow>prepared. path_weight metric p) \<le> 2 ^ 53"

lemma partial_weight_le:
  assumes "countable_paths stages metric prepared"
  shows "(\<Sum>p\<leftarrow>prepared. if P p then path_weight metric p else 0) \<le> 2 ^ 53"
proof -
  have "(\<Sum>p\<leftarrow>prepared. if P p then path_weight metric p else 0) \<le> (\<Sum>p\<leftarrow>prepared. path_weight metric p)"
    using assms by (intro sum_list_mono) (auto simp: countable_paths_def is_count_nonneg)
  then show ?thesis using assms by (simp add: countable_paths_def)
qed

lemma countable_distinct: "countable_paths stages metric prepared \<Longrightarrow> \<forall>p \<in> set prepared. distinct (map p_id (pp_path p))"
  unfolding countable_paths_def using wf_path_distinct_ids by blast

lemma countable_link_ends:
  assumes "countable_paths stages metric prepared"
  shows "\<forall>p \<in> set prepared. distinct (map (\<lambda>l. p_id (fst l)) (path_links (pp_path p)))"
    "\<forall>p \<in> set prepared. distinct (map (\<lambda>l. p_id (snd l)) (path_links (pp_path p)))"
proof -
  have "map (\<lambda>l. p_id (fst l)) (path_links path) = butlast (map p_id path)"
    "map (\<lambda>l. p_id (snd l)) (path_links path) = tl (map p_id path)" for path
    using arg_cong[OF path_links_fst, of "map p_id" path] arg_cong[OF path_links_snd, of "map p_id" path]
    by (simp_all add: map_butlast map_tl comp_def)
  then show "\<forall>p \<in> set prepared. distinct (map (\<lambda>l. p_id (fst l)) (path_links (pp_path p)))"
    "\<forall>p \<in> set prepared. distinct (map (\<lambda>l. p_id (snd l)) (path_links (pp_path p)))"
    using countable_distinct[OF assms] by (auto simp: distinct_butlast distinct_tl)
qed

lemma event_counts:
  "countable_paths stages metric prepared \<Longrightarrow> list_all (\<lambda>e. is_count (event_weight metric e)) (node_events prepared)"
  "countable_paths stages metric prepared \<Longrightarrow> list_all (\<lambda>e. is_count (event_weight metric e)) (link_events prepared)"
  by (auto simp: list_all_iff event_weight_def node_events_def link_events_def countable_paths_def)

text \<open>The value of a node is the sum of the metrics of the paths through it.\<close>

lemma node_value:
  assumes "countable_paths stages metric prepared" "(k, v) \<in> set (flow_nodes color metric prepared)"
  shows "num_val (n_value v) = (\<Sum>p\<leftarrow>prepared. if k \<in> p_id ` set (pp_path p) then path_weight metric p else 0)"
  using node_tally.entry_exact[OF assms(2) event_counts(1)[OF assms(1)]]
    partial_weight_le[OF assms(1)] node_event_sum[OF countable_distinct[OF assms(1)]]
  by simp

lemma node_entry:
  assumes "(k, v) \<in> set (flow_nodes color metric prepared)"
  shows "n_id v = k" "\<exists>p \<in> set prepared. \<exists>n \<in> set (pp_path p). p_id n = k \<and> p_kind n = n_kind v"
proof -
  from tally_map_attribute[OF assms, of "\<lambda>v. (n_id v, n_kind v)"]
  obtain e where "e \<in> set (node_events prepared)" "node_key e = k" "(n_id v, n_kind v) = (n_id (node_fresh color e), n_kind (node_fresh color e))"
    by (auto simp: node_grow_def grow_node_def)
  then show "n_id v = k" "\<exists>p \<in> set prepared. \<exists>n \<in> set (pp_path p). p_id n = k \<and> p_kind n = n_kind v"
    by (auto simp: node_events_def event_defs new_node_def) blast
qed

text \<open>The two ends of a link key.\<close>

definition key_source :: "jsstr \<Rightarrow> jsstr" where
  "key_source k = takeWhile (\<lambda>c. c \<noteq> 0) k"

definition key_target :: "jsstr \<Rightarrow> jsstr" where
  "key_target k = tl (dropWhile (\<lambda>c. c \<noteq> 0) k)"

lemma key_ends:
  assumes "0 \<notin> set (p_id a)"
  shows "key_source (pathLinkKey a b) = p_id a" "key_target (pathLinkKey a b) = p_id b"
proof -
  have "\<forall>c \<in> set (p_id a). c \<noteq> 0" using assms by metis
  then show "key_source (pathLinkKey a b) = p_id a" "key_target (pathLinkKey a b) = p_id b"
    by (simp_all add: key_source_def key_target_def pathLinkKey_def takeWhile_append2 dropWhile_append2)
qed

lemma link_event_plain:
  assumes "\<forall>p \<in> set prepared. plain_path (pp_path p)" "e \<in> set (link_events prepared)"
  shows "key_source (link_key e) = p_id (fst (fst e))" "key_target (link_key e) = p_id (snd (fst e))"
proof -
  from assms(2) obtain p a b where p: "p \<in> set prepared" "(a, b) \<in> set (path_links (pp_path p))" "fst e = (a, b)"
    by (auto simp: link_events_def)
  then have "a \<in> set (pp_path p)" by (auto simp: path_links_def dest: set_zip_leftD)
  then have "0 \<notin> set (p_id a)" using assms(1) p(1) by (auto simp: plain_path_def list_all_iff)
  then show "key_source (link_key e) = p_id (fst (fst e))" "key_target (link_key e) = p_id (snd (fst e))"
    using key_ends p(3) by (simp_all add: link_key_def)
qed

lemma link_entry:
  assumes "\<forall>p \<in> set prepared. plain_path (pp_path p)" "(k, v) \<in> set (flow_links color metric prepared)"
  shows "l_source v = key_source k \<and> l_target v = key_target k"
proof -
  from tally_map_attribute[OF assms(2), of "\<lambda>v. (l_source v, l_target v)"]
  obtain e where e: "e \<in> set (link_events prepared)" "link_key e = k"
    and v: "(l_source v, l_target v) = (l_source (link_fresh color e), l_target (link_fresh color e))"
    by (auto simp: link_grow_def grow_link_def)
  from v have "l_source v = p_id (fst (fst e))" "l_target v = p_id (snd (fst e))"
    by (auto simp: link_fresh_def new_link_def split: prod.splits)
  then show ?thesis using link_event_plain[OF assms(1) e(1)] e(2) by simp
qed

lemma link_key_sum_le:
  assumes "countable_paths stages metric prepared" "\<forall>p \<in> set prepared. plain_path (pp_path p)"
  shows "sum_list (map (\<lambda>e. num_val (event_weight metric e)) (filter (\<lambda>e. link_key e = k) (link_events prepared))) \<le> 2 ^ 53"
proof -
  let ?es = "filter (\<lambda>e. p_id (fst (fst e)) = key_source k) (link_events prepared)"
  have "filter (\<lambda>e. link_key e = k) (link_events prepared) = filter (\<lambda>e. link_key e = k) ?es"
    using link_event_plain(1)[OF assms(2)] by (auto simp: filter_filter intro!: filter_cong)
  moreover have "sum_list (map (\<lambda>e. num_val (event_weight metric e)) (filter (\<lambda>e. link_key e = k) ?es))
      \<le> sum_list (map (\<lambda>e. num_val (event_weight metric e)) ?es)"
    using event_counts(2)[OF assms(1)] by (intro filter_sum_le) (auto simp: list_all_iff is_count_nonneg)
  moreover have "\<dots> \<le> 2 ^ 53"
    unfolding link_event_sum[OF countable_link_ends(1)[OF assms(1)]] by (rule partial_weight_le[OF assms(1)])
  ultimately show ?thesis by simp
qed

lemma sum_if_filter:
  fixes f :: "'a \<Rightarrow> 'b::comm_monoid_add"
  shows "(\<Sum>x\<leftarrow>xs. if P x then f x else 0) = sum_list (map f (filter P xs))"
  by (induction xs) auto

lemma link_sums:
  assumes "countable_paths stages metric prepared" "\<forall>p \<in> set prepared. plain_path (pp_path p)"
  shows "(\<Sum>x\<leftarrow>flow_links color metric prepared. if l_source (snd x) = u then num_val (l_value (snd x)) else 0)
      = (\<Sum>p\<leftarrow>prepared. if u \<in> p_id ` set (butlast (pp_path p)) then path_weight metric p else 0)" (is ?out)
    and "(\<Sum>x\<leftarrow>flow_links color metric prepared. if l_target (snd x) = u then num_val (l_value (snd x)) else 0)
      = (\<Sum>p\<leftarrow>prepared. if u \<in> p_id ` set (tl (pp_path p)) then path_weight metric p else 0)" (is ?inc)
proof -
  have group: "(\<Sum>x\<leftarrow>flow_links color metric prepared. if Q (fst x) then num_val (l_value (snd x)) else 0)
      = sum_list (map (\<lambda>e. num_val (event_weight metric e)) (filter (\<lambda>e. Q (link_key e)) (link_events prepared)))" for Q
    using link_tally.group_exact[OF event_counts(2)[OF assms(1)], of Q] link_key_sum_le[OF assms]
    by (simp add: sum_if_filter case_prod_unfold)
  have "(\<Sum>x\<leftarrow>flow_links color metric prepared. if l_source (snd x) = u then num_val (l_value (snd x)) else 0)
      = (\<Sum>x\<leftarrow>flow_links color metric prepared. if key_source (fst x) = u then num_val (l_value (snd x)) else 0)"
    using link_entry[OF assms(2)] by (intro arg_cong[where f = sum_list] map_cong) auto
  also have "\<dots> = sum_list (map (\<lambda>e. num_val (event_weight metric e)) (filter (\<lambda>e. p_id (fst (fst e)) = u) (link_events prepared)))"
    unfolding group[of "\<lambda>k. key_source k = u"]
    using link_event_plain(1)[OF assms(2)] by (intro arg_cong[where f = "\<lambda>es. sum_list (map _ es)"] filter_cong) auto
  finally show ?out unfolding link_event_sum[OF countable_link_ends(1)[OF assms(1)]] path_link_ends .
  have "(\<Sum>x\<leftarrow>flow_links color metric prepared. if l_target (snd x) = u then num_val (l_value (snd x)) else 0)
      = (\<Sum>x\<leftarrow>flow_links color metric prepared. if key_target (fst x) = u then num_val (l_value (snd x)) else 0)"
    using link_entry[OF assms(2)] by (intro arg_cong[where f = sum_list] map_cong) auto
  also have "\<dots> = sum_list (map (\<lambda>e. num_val (event_weight metric e)) (filter (\<lambda>e. p_id (snd (fst e)) = u) (link_events prepared)))"
    unfolding group[of "\<lambda>k. key_target k = u"]
    using link_event_plain(2)[OF assms(2)] by (intro arg_cong[where f = "\<lambda>es. sum_list (map _ es)"] filter_cong) auto
  finally show ?inc unfolding link_event_sum[OF countable_link_ends(2)[OF assms(1)]] path_link_ends .
qed

text \<open>Rows whose metric is a count, with a total that stays exact.\<close>

definition exact_rows :: "FlowMetric \<Rightarrow> FlowQuotaDataItem list \<Rightarrow> bool" where
  "exact_rows metric rows \<longleftrightarrow> list_all (\<lambda>row. is_count (metricValue (rowMetrics row) metric)) rows
     \<and> (\<Sum>row\<leftarrow>rows. num_val (metricValue (rowMetrics row) metric)) \<le> 2 ^ 53"

lemma prepared_countable:
  assumes "exact_rows metric rows"
  shows "countable_paths (resolveVisibleStages role visible) metric
    (prepare_paths env rows metric (resolveVisibleStages role visible) ctx options)"
  using assms prepare_paths_wf prepare_paths_counts prepare_paths_total[of metric rows] stages_distinct
  unfolding countable_paths_def exact_rows_def by (blast intro: order_trans)

lemma end_kind:
  assumes "wf_path stages path" "wf_path stages path'" "n \<in> set path'" "p_id n = u"
  shows "p_kind n \<noteq> last stages \<Longrightarrow> u \<in> p_id ` set path \<longleftrightarrow> u \<in> p_id ` set (butlast path)"
    and "p_kind n \<noteq> hd stages \<Longrightarrow> u \<in> p_id ` set path \<longleftrightarrow> u \<in> p_id ` set (tl path)"
proof -
  have wf: "wf_path_node n" "m \<in> set path \<Longrightarrow> wf_path_node m" for m
    using assms by (auto simp: wf_path_def list_all_iff)
  have kinds: "path \<noteq> [] \<Longrightarrow> p_kind (last path) = last stages" "path \<noteq> [] \<Longrightarrow> p_kind (hd path) = hd stages"
    using assms(1) by (auto simp: wf_path_def last_map hd_map)
  have same: "m \<in> set path \<Longrightarrow> p_id m = u \<Longrightarrow> p_kind m = p_kind n" for m
    using wf_same_id[OF wf(2) wf(1), of m] assms(4) by simp
  show "p_kind n \<noteq> last stages \<Longrightarrow> u \<in> p_id ` set path \<longleftrightarrow> u \<in> p_id ` set (butlast path)"
    using kinds(1) same by (cases path rule: rev_cases) auto
  show "p_kind n \<noteq> hd stages \<Longrightarrow> u \<in> p_id ` set path \<longleftrightarrow> u \<in> p_id ` set (tl path)"
    using kinds(2) same by (cases path) auto
qed

lemma prepared_conserved:
  assumes "countable_paths stages metric prepared" "\<forall>p \<in> set prepared. plain_path (pp_path p)"
    "(k, v) \<in> set (flow_nodes color metric prepared)"
  shows "n_kind v \<noteq> last stages \<Longrightarrow>
      (\<Sum>x\<leftarrow>flow_links color metric prepared. if l_source (snd x) = k then num_val (l_value (snd x)) else 0) = num_val (n_value v)"
    and "n_kind v \<noteq> hd stages \<Longrightarrow>
      (\<Sum>x\<leftarrow>flow_links color metric prepared. if l_target (snd x) = k then num_val (l_value (snd x)) else 0) = num_val (n_value v)"
proof -
  obtain p' n where p': "p' \<in> set prepared" and n: "n \<in> set (pp_path p')" "p_id n = k" "p_kind n = n_kind v"
    using node_entry(2)[OF assms(3)] by blast
  have wf: "p \<in> set prepared \<Longrightarrow> wf_path stages (pp_path p)" for p using assms(1) by (auto simp: countable_paths_def)
  note ends = end_kind[OF wf wf[OF p'] n(1,2)]
  show "n_kind v \<noteq> last stages \<Longrightarrow>
      (\<Sum>x\<leftarrow>flow_links color metric prepared. if l_source (snd x) = k then num_val (l_value (snd x)) else 0) = num_val (n_value v)"
    unfolding link_sums(1)[OF assms(1,2)] node_value[OF assms(1,3)] using ends(1) n(3)
    by (intro arg_cong[where f = sum_list] map_cong) auto
  show "n_kind v \<noteq> hd stages \<Longrightarrow>
      (\<Sum>x\<leftarrow>flow_links color metric prepared. if l_target (snd x) = k then num_val (l_value (snd x)) else 0) = num_val (n_value v)"
    unfolding link_sums(2)[OF assms(1,2)] node_value[OF assms(1,3)] using ends(2) n(3)
    by (intro arg_cong[where f = sum_list] map_cong) auto
qed

text \<open>
  C9.  Conservation: in the flow graph of rows whose metric is a count (with names free of the key
  separator and a total of at most \<open>2 ^ 53\<close>), the links leaving a node that is not in the last column add up
  to the node's value, and so do the links entering a node that is not in the first column, whatever the
  role, the visible stages, the top-node limit and the overflow mode.
\<close>

theorem flow_conserved:
  assumes "list_all plain_row rows" "exact_rows metric rows"
    "n \<in> set (fg_nodes (buildFlowGraph env rows metric role palette visible ctx options))"
  shows "(n_kind n \<noteq> last (resolveVisibleStages role visible) \<longrightarrow>
       (\<Sum>l\<leftarrow>fg_links (buildFlowGraph env rows metric role palette visible ctx options).
          if l_source l = n_id n then num_val (l_value l) else 0) = num_val (n_value n))
    \<and> (n_kind n \<noteq> hd (resolveVisibleStages role visible) \<longrightarrow>
       (\<Sum>l\<leftarrow>fg_links (buildFlowGraph env rows metric role palette visible ctx options).
          if l_target l = n_id n then num_val (l_value l) else 0) = num_val (n_value n))"
proof -
  let ?stages = "resolveVisibleStages role visible"
  let ?prepared = "prepare_paths env rows metric ?stages ctx options"
  let ?color = "root_color env palette ?prepared"
  let ?raw = "raw_graph env rows metric role palette visible ctx options"
  have raw: "?raw = (flow_nodes ?color metric ?prepared, flow_links ?color metric ?prepared)" by (simp add: raw_graph_def Let_def)
  have "node_core n \<in> (\<lambda>x. node_core (snd x)) ` set (fst ?raw)"
    using assms(3) graph_node_cores[of env rows metric role palette visible ctx options] by blast
  then obtain k v where kv: "(k, v) \<in> set (flow_nodes ?color metric ?prepared)" and n: "node_core n = node_core v"
    by (auto simp: raw)
  have plain: "\<forall>p \<in> set ?prepared. plain_path (pp_path p)" using prepare_paths_plain[OF assms(1)] by blast
  note flows = prepared_conserved[OF prepared_countable[OF assms(2)] plain kv]
  have core: "n_id n = k" "n_kind n = n_kind v" "n_value n = n_value v" using n node_entry(1)[OF kv] by (auto simp: node_core_def)
  show ?thesis
    using flows graph_link_sum[of "\<lambda>(s, t, x). if s = k then num_val x else 0" env rows metric role palette visible ctx options]
      graph_link_sum[of "\<lambda>(s, t, x). if t = k then num_val x else 0" env rows metric role palette visible ctx options]
    by (simp add: core raw link_core_def)
qed

definition demo_env :: flow_env where
  "demo_env = \<lparr>localeCompare = (\<lambda>a b. if js_less a b then -1 else if a = b then 0 else 1), intlFormat = num_text,
     dataScheme = [(None, [Some (js ''#1664FF'')])]\<rparr>"

definition demo_row :: "nat \<Rightarrow> string \<Rightarrow> string \<Rightarrow> nat \<Rightarrow> FlowQuotaDataItem" where
  "demo_row token grp model quota =
     \<lparr>user_id = Some (Fin 7), username = Some (js ''ada''), node_name = None, use_group = Some (js grp), token_id = Some (Fin (of_nat token)),
      token_name = Some (js ''key''), channel_id = None, channel_name = None, model_name = Some (js model),
      token_used = None, row_count = Some (Fin 1), row_quota = Some (Fin (of_nat quota))\<rparr>"

definition demo_rows :: "FlowQuotaDataItem list" where
  "demo_rows = [demo_row 1 ''a'' ''m'' 10, demo_row 1 ''b'' ''m'' 20, demo_row 2 ''b'' ''m'' 5]"

definition demo_options :: FlowBuildOptions where
  "demo_options = \<lparr>topNodeLimit = None, overflowMode = None, otherNodeLabel = None, activeNode = None, activeLink = None,
     maskSensitive = True, o_role = Some RUser, selectedUsers = None, selectedNodes = None, o_colorPalette = None,
     visibleStages = None, o_deletedTokenLabel = None\<rparr>"

lemmas demo_defs = demo_env_def demo_row_def demo_rows_def demo_options_def

lemma demo_rows_ok: "list_all plain_row demo_rows" "exact_rows MQuota demo_rows"
  by (simp_all add: demo_defs plain_row_def plain_def exact_rows_def rowMetrics_def metricValue_def numberValue_def is_finite_def
      num_val_def)

lemma num_add_Fin: "num_add (Fin x) (Fin y) = (if x + y = 0 then Fin 0 else round_num (x + y))"
  by (auto simp: num_add_def is_finite_def num_val_def round_signed_def sign_neg_def signed_zero_def)

definition demo_node :: "FlowNodeKind \<Rightarrow> string \<Rightarrow> string \<Rightarrow> FlowPathNode" where
  "demo_node k i l = \<lparr>p_id = js i, p_label = js l, p_kind = k\<rparr>"

lemma demo_paths:
  "map (\<lambda>row. \<lparr>pp_path = flowPathForStages row [KToken, KGroup, KModel] None, pp_metrics = rowMetrics row\<rparr>) demo_rows =
    [\<lparr>pp_path = [demo_node KToken ''token:1'' ''key'', demo_node KGroup ''group:a'' ''a'', demo_node KModel ''model:m'' ''m''],
      pp_metrics = \<lparr>m_quota = Fin 10, m_tokens = Fin 0, m_requests = Fin 1\<rparr>\<rparr>,
     \<lparr>pp_path = [demo_node KToken ''token:1'' ''key'', demo_node KGroup ''group:b'' ''b'', demo_node KModel ''model:m'' ''m''],
      pp_metrics = \<lparr>m_quota = Fin 20, m_tokens = Fin 0, m_requests = Fin 1\<rparr>\<rparr>,
     \<lparr>pp_path = [demo_node KToken ''token:2'' ''key'', demo_node KGroup ''group:b'' ''b'', demo_node KModel ''model:m'' ''m''],
      pp_metrics = \<lparr>m_quota = Fin 5, m_tokens = Fin 0, m_requests = Fin 1\<rparr>\<rparr>]"
  by (simp add: demo_node_def demo_rows_def demo_row_def flowPathForStages_def node_builder_defs num_positive_def num_less_def str_or_def
        numberValue_def is_finite_def num_val_def num_text_def positive_text_def rowMetrics_def nat_text.simps)

lemma demo_tally:
  "map (\<lambda>x. node_core (snd x)) (flow_nodes color MQuota
   (map (\<lambda>row. \<lparr>pp_path = flowPathForStages row [KToken, KGroup, KModel] None, pp_metrics = rowMetrics row\<rparr>) demo_rows)) =
   [(js ''token:1'', KToken, Fin 30), (js ''group:a'', KGroup, Fin 10), (js ''model:m'', KModel, Fin 35),
    (js ''group:b'', KGroup, Fin 25), (js ''token:2'', KToken, Fin 5)]"
  unfolding demo_paths
  by (simp add: demo_node_def tally_map_def node_events_def event_defs
        upsert_def new_node_def grow_node_def metricValue_def num_add_Fin node_core_def)

lemma demo_token_node:
  "(js ''token:1'', KToken, Fin 30) \<in> node_core ` set (fg_nodes (buildFlowGraph demo_env demo_rows MQuota RUser None None None demo_options))"
proof -
  have "prepare_paths demo_env demo_rows MQuota (resolveVisibleStages RUser None) None demo_options
      = map (\<lambda>row. \<lparr>pp_path = flowPathForStages row [KToken, KGroup, KModel] None, pp_metrics = rowMetrics row\<rparr>) demo_rows"
    by (simp add: prepare_paths_def resolveVisibleStages_def buildTopNodeSets_def normalizeTopNodeLimit_def applyTopNodeLimit_def
        demo_options_def map_filter_def Let_def)
  then have "(js ''token:1'', KToken, Fin 30) \<in> set (map (\<lambda>x. node_core (snd x))
      (fst (raw_graph demo_env demo_rows MQuota RUser None None None demo_options)))"
    by (simp add: raw_graph_def Let_def demo_tally del: js_Cons js_Nil)
  then show ?thesis unfolding graph_node_cores set_map .
qed

theorem flow_conserved_witness:
  "(\<Sum>l\<leftarrow>fg_links (buildFlowGraph demo_env demo_rows MQuota RUser None None None demo_options).
      if l_source l = js ''token:1'' then num_val (l_value l) else 0) = 30"
proof -
  obtain n where n: "n \<in> set (fg_nodes (buildFlowGraph demo_env demo_rows MQuota RUser None None None demo_options))"
    "node_core n = (js ''token:1'', KToken, Fin 30)"
    using demo_token_node by force
  have "KToken \<noteq> last (resolveVisibleStages RUser None)" by (simp add: resolveVisibleStages_def)
  then show ?thesis using flow_conserved[OF demo_rows_ok n(1)] n(2) by (simp add: node_core_def num_val_def)
qed

section \<open>Every column carries the total\<close>

lemma buildSummary_sum:
  "metricValue (buildSummary rows) metric = foldl num_add (Fin 0) (map (\<lambda>row. metricValue (rowMetrics row) metric) rows)"
proof -
  have "metricValue (foldl (\<lambda>summary row. let metrics = rowMetrics row in summary
       \<lparr>m_quota := num_add (m_quota summary) (m_quota metrics),
        m_tokens := num_add (m_tokens summary) (m_tokens metrics),
        m_requests := num_add (m_requests summary) (m_requests metrics)\<rparr>) s rows) metric
     = foldl num_add (metricValue s metric) (map (\<lambda>row. metricValue (rowMetrics row) metric) rows)" for s
    by (induction rows arbitrary: s) (simp_all add: Let_def metricValue_def)
  then show ?thesis by (simp add: buildSummary_def metricValue_def)
qed

lemma summary_exact:
  "exact_rows metric rows \<Longrightarrow>
   num_val (metricValue (buildSummary rows) metric) = (\<Sum>row\<leftarrow>rows. num_val (metricValue (rowMetrics row) metric))"
  using count_sum[of "map (\<lambda>row. metricValue (rowMetrics row) metric) rows" "Fin 0"]
  unfolding exact_rows_def buildSummary_sum by (simp add: list_all_iff comp_def num_val_def)

lemma map_filter_total: "(\<And>x. \<exists>y. h x = Some y \<and> f y = g x) \<Longrightarrow> map f (List.map_filter h xs) = map g xs"
proof (induction xs)
  case (Cons x xs)
  then obtain y where "h x = Some y" "f y = g x" by blast
  with Cons show ?case by (simp add: map_filter_simps)
qed (simp add: map_filter_simps)

lemma prepare_all_paths:
  assumes "overflowMode options \<noteq> Some Hide"
  shows "map pp_metrics (prepare_paths env rows metric stages ctx options) = map rowMetrics rows"
proof -
  obtain mode where mode: "(case overflowMode options of Some m \<Rightarrow> m | None \<Rightarrow> Aggregate) = mode" "mode \<noteq> Hide"
    using assms by (cases "overflowMode options") auto
  have "\<exists>path'. applyTopNodeLimit path sets mode labeler = Some path'" for path sets labeler
    using mode(2) by (auto simp: applyTopNodeLimit_def split: option.splits)
  then show ?thesis unfolding prepare_paths_def Let_def mode(1)
    by (intro map_filter_total) (metis (no_types, lifting) option.simps(5) PreparedFlowPath.select_convs(2))
qed

lemma stage_sum:
  assumes "countable_paths stages metric prepared" "stage \<in> set stages"
  shows "(\<Sum>x\<leftarrow>flow_nodes color metric prepared. if n_kind (snd x) = stage then num_val (n_value (snd x)) else 0)
    = (\<Sum>p\<leftarrow>prepared. path_weight metric p)"
proof -
  have wf: "wf_path stages (pp_path p)" if "p \<in> set prepared" for p using assms(1) that by (auto simp: countable_paths_def)
  have entry: "n_kind v = stage \<longleftrightarrow> kind_of_id k = kind_name stage" if "(k, v) \<in> set (flow_nodes color metric prepared)" for k v
    using node_entry(2)[OF that] wf by (fastforce simp: wf_path_def list_all_iff wf_path_node_def)
  have key: "kind_of_id (node_key e) = kind_name (p_kind (fst e))" if "e \<in> set (node_events prepared)" for e
    using that wf by (fastforce simp: node_events_def node_key_def wf_path_def list_all_iff wf_path_node_def)
  have "(\<Sum>x\<leftarrow>flow_nodes color metric prepared. if n_kind (snd x) = stage then num_val (n_value (snd x)) else 0)
      = (\<Sum>x\<leftarrow>flow_nodes color metric prepared. if kind_of_id (fst x) = kind_name stage then num_val (n_value (snd x)) else 0)"
    using entry by (intro arg_cong[where f = sum_list] map_cong refl) (metis prod.collapse)
  also have "\<dots> = sum_list (map (\<lambda>e. num_val (event_weight metric e)) (filter (\<lambda>e. kind_of_id (node_key e) = kind_name stage) (node_events prepared)))"
    using node_tally.group_exact[OF event_counts(1)[OF assms(1)], of "\<lambda>k. kind_of_id k = kind_name stage"]
      partial_weight_le[OF assms(1)] node_event_sum[OF countable_distinct[OF assms(1)]]
    by (simp add: sum_if_filter case_prod_unfold)
  also have "filter (\<lambda>e. kind_of_id (node_key e) = kind_name stage) (node_events prepared) = filter (\<lambda>e. p_kind (fst e) = stage) (node_events prepared)"
    using key by (intro filter_cong) auto
  also have "sum_list (map (\<lambda>e. num_val (event_weight metric e)) (filter (\<lambda>e. p_kind (fst e) = stage) (node_events prepared)))
      = (\<Sum>p\<leftarrow>prepared. path_weight metric p)"
    unfolding node_events_def sum_filter_concat map_map
  proof (intro arg_cong[where f = sum_list] map_cong refl)
    fix p assume "p \<in> set prepared"
    then have "map p_kind (pp_path p) = stages" "distinct stages" using wf assms(1) by (auto simp: wf_path_def countable_paths_def)
    then have "distinct (map p_kind (pp_path p))" "stage \<in> p_kind ` set (pp_path p)" using assms(2) by auto
    then show "((\<lambda>xs. sum_list (map (\<lambda>e. num_val (event_weight metric e)) (filter (\<lambda>e. p_kind (fst e) = stage) xs)))
        \<circ> (\<lambda>p. map (\<lambda>n. (n, p_id (hd (pp_path p)), pp_metrics p)) (pp_path p))) p = path_weight metric p"
      by (simp add: filter_map comp_def event_weight_def sum_one)
  qed
  finally show ?thesis .
qed

text \<open>
  C17.  Unless overflowing nodes are hidden, every column of the flow graph adds up to the summary shown
  above it: for each visible stage the values of its nodes sum to the total of the rows, for rows whose metric is
  a count with a total of at most \<open>2 ^ 53\<close>.
\<close>

theorem column_carries_summary:
  assumes "exact_rows metric rows" "overflowMode options \<noteq> Some Hide" "stage \<in> set (resolveVisibleStages role visible)"
  shows "(\<Sum>n\<leftarrow>fg_nodes (buildFlowGraph env rows metric role palette visible ctx options).
      if n_kind n = stage then num_val (n_value n) else 0) = num_val (metricValue (buildSummary rows) metric)"
proof -
  let ?prepared = "prepare_paths env rows metric (resolveVisibleStages role visible) ctx options"
  have "(\<Sum>p\<leftarrow>?prepared. path_weight metric p) = (\<Sum>row\<leftarrow>rows. num_val (metricValue (rowMetrics row) metric))"
    using arg_cong[OF prepare_all_paths[OF assms(2), of env rows metric "resolveVisibleStages role visible" ctx],
        of "\<lambda>ms. \<Sum>m\<leftarrow>ms. num_val (metricValue m metric)"] by (simp add: comp_def)
  then show ?thesis
    using stage_sum[OF prepared_countable[OF assms(1), of role visible env ctx options] assms(3)] summary_exact[OF assms(1)]
      graph_node_sum[of "\<lambda>(i, k, x). if k = stage then num_val x else 0" env rows metric role palette visible ctx options]
    by (simp add: raw_graph_def node_core_def Let_def)
qed

theorem column_carries_summary_witness:
  "(\<Sum>n\<leftarrow>fg_nodes (buildFlowGraph demo_env demo_rows MQuota RUser None None None demo_options).
      if n_kind n = KGroup then num_val (n_value n) else 0) = num_val (metricValue (buildSummary demo_rows) MQuota)"
  by (rule column_carries_summary[OF demo_rows_ok(2)]) (simp_all add: demo_options_def resolveVisibleStages_def)

end
