(* ===== verification/FlowDisplay.thy ===== *)
theory FlowDisplay
  imports FlowTotals
begin

text \<open>
  What the flow graph shows and hides: masking of sensitive labels, the bound that the top-node limit puts
  on every column, and the rows that node filters keep.  The definitions are those of FlowGraph.
\<close>

section \<open>Masking\<close>

definition node_face :: "DashboardFlowNode \<Rightarrow> jsstr \<times> FlowNodeKind \<times> jsstr" where
  "node_face n = (n_id n, n_kind n, n_label n)"

definition link_face :: "DashboardFlowLink \<Rightarrow> jsstr \<times> jsstr \<times> jsstr \<times> jsstr" where
  "link_face l = (l_source l, l_target l, l_sourceLabel l, l_targetLabel l)"

definition hidden_label :: "jsstr \<Rightarrow> bool" where
  "hidden_label s \<longleftrightarrow> s = [] \<or> s = FLOW_MASK_TEXT"

lemma hidden_mask [simp]: "hidden_label (maskFlowLabel s)"
  by (simp add: hidden_label_def maskFlowLabel_def)

lemma highlight_face:
  "map node_face (fst (applyFlowHighlights nodes links sets)) = map node_face nodes"
  "map link_face (snd (applyFlowHighlights nodes links sets)) = map link_face links"
  by (auto simp: applyFlowHighlights_def highlight_node_def highlight_link_def node_face_def link_face_def split: option.splits)

lemma colors_face: "link_face ` set (assignLinkDisplayColors env links) = link_face ` set links"
proof -
  have "map link_face (assignLinkDisplayColors env links) = map (\<lambda>p. link_face (snd p)) (enumerate 0 links)"
    by (auto simp: assignLinkDisplayColors_def link_face_def split: prod.splits)
  also have "\<dots> = map link_face (map snd (enumerate 0 links))" by (simp only: map_map comp_def)
  finally have "map link_face (assignLinkDisplayColors env links) = map link_face links" by (simp del: map_map)
  then show ?thesis by (metis set_map)
qed

lemma share_face: "link_face ` set (map (set_share t) links) = link_face ` set links"
  by (auto simp: set_share_def link_face_def image_image)

lemma shown_faces:
  assumes "maskSensitive options"
    "maskFlowGraphLabels (fst (raw_graph env rows metric role palette visible ctx options))
       (snd (raw_graph env rows metric role palette visible ctx options)) = (nodes, links)"
  shows "node_face ` set (fg_nodes (buildFlowGraph env rows metric role palette visible ctx options)) = (\<lambda>x. node_face (snd x)) ` set nodes"
    "link_face ` set (fg_links (buildFlowGraph env rows metric role palette visible ctx options)) = (\<lambda>x. link_face (snd x)) ` set links"
proof -
  let ?d = "displayed_graph env rows metric role palette visible ctx options"
  obtain t where g: "fg_nodes (buildFlowGraph env rows metric role palette visible ctx options) = sort_by (byValueThenLabel env n_value n_label) (fst ?d)"
    "fg_links (buildFlowGraph env rows metric role palette visible ctx options)
       = assignLinkDisplayColors env (map (set_share t) (sort_by (bySourceTarget env) (snd ?d)))"
    using buildFlowGraph_displayed[of env rows metric role palette visible ctx options] by auto
  have d: "map node_face (fst ?d) = map node_face (map snd nodes)" "map link_face (snd ?d) = map link_face (map snd links)"
    using assms by (auto simp: displayed_graph_def Let_def highlight_face case_prod_unfold)
  show "node_face ` set (fg_nodes (buildFlowGraph env rows metric role palette visible ctx options)) = (\<lambda>x. node_face (snd x)) ` set nodes"
    unfolding g set_sort_by using arg_cong[OF d(1), of set] by (simp add: image_image)
  show "link_face ` set (fg_links (buildFlowGraph env rows metric role palette visible ctx options)) = (\<lambda>x. link_face (snd x)) ` set links"
    unfolding g colors_face share_face set_sort_by using arg_cong[OF d(2), of set] by (simp add: image_image)
qed

lemma masked_lookup:
  fixes nodes :: "DashboardFlowNode list"
  shows "(\<exists>n \<in> set nodes. n_id n = i) \<Longrightarrow>
    \<exists>s. map_of (foldl (\<lambda>m node. AList.update (n_id node) (maskFlowLabel (n_label node)) m) [] nodes) i = Some s \<and> hidden_label s"
proof (induction nodes rule: rev_induct)
  case (snoc n nodes)
  then show ?case by (cases "n_id n = i") (auto simp: update_conv')
qed simp

lemma mask_hides:
  assumes "maskFlowGraphLabels nodes links = (nodes', links')"
  shows "(k, n) \<in> set nodes' \<Longrightarrow> masked_node n \<Longrightarrow> hidden_label (n_label n)"
    and "(k', l) \<in> set links' \<Longrightarrow> (k, n) \<in> set nodes' \<Longrightarrow> masked_node n \<Longrightarrow> l_source l = n_id n \<Longrightarrow> hidden_label (l_sourceLabel l)"
    and "(k', l) \<in> set links' \<Longrightarrow> (k, n) \<in> set nodes' \<Longrightarrow> masked_node n \<Longrightarrow> l_target l = n_id n \<Longrightarrow> hidden_label (l_targetLabel l)"
proof -
  let ?lookup = "map_of (foldl (\<lambda>m node. AList.update (n_id node) (maskFlowLabel (n_label node)) m) [] (filter masked_node (map snd nodes)))"
  have same: "masked_node (node\<lparr>n_label := s\<rparr>) = masked_node node" for node s by (simp add: masked_node_def)
  show "(k, n) \<in> set nodes' \<Longrightarrow> masked_node n \<Longrightarrow> hidden_label (n_label n)"
    using assms by (auto simp: maskFlowGraphLabels_def Let_def same split: if_splits)
  have look: "\<exists>s. ?lookup (n_id n) = Some s \<and> hidden_label s" if n: "(k, n) \<in> set nodes'" "masked_node n" for k n
  proof (rule masked_lookup)
    from assms have "nodes' = map (\<lambda>(k, node). (k, if masked_node node then node\<lparr>n_label := maskFlowLabel (n_label node)\<rparr> else node)) nodes"
      by (auto simp: maskFlowGraphLabels_def Let_def)
    with n obtain node where node: "(k, node) \<in> set nodes"
      and n_eq: "n = (if masked_node node then node\<lparr>n_label := maskFlowLabel (n_label node)\<rparr> else node)" by auto
    have "n_id node = n_id n" "masked_node node" using n(2) n_eq by (auto simp: same split: if_splits)
    then show "\<exists>m \<in> set (filter masked_node (map snd nodes)). n_id m = n_id n" using node by force
  qed
  have links: "links' = map (\<lambda>(k, link). (k, link
      \<lparr>l_sourceLabel := (case ?lookup (l_source link) of Some masked \<Rightarrow> masked | None \<Rightarrow> l_sourceLabel link),
       l_targetLabel := (case ?lookup (l_target link) of Some masked \<Rightarrow> masked | None \<Rightarrow> l_targetLabel link)\<rparr>)) links"
    using assms by (auto simp: maskFlowGraphLabels_def Let_def)
  show "(k', l) \<in> set links' \<Longrightarrow> (k, n) \<in> set nodes' \<Longrightarrow> masked_node n \<Longrightarrow> l_source l = n_id n \<Longrightarrow> hidden_label (l_sourceLabel l)"
    and "(k', l) \<in> set links' \<Longrightarrow> (k, n) \<in> set nodes' \<Longrightarrow> masked_node n \<Longrightarrow> l_target l = n_id n \<Longrightarrow> hidden_label (l_targetLabel l)"
    using look unfolding links by fastforce+
qed

lemma raw_graph_mask: "raw_graph env rows metric role palette visible ctx (options\<lparr>maskSensitive := b\<rparr>) = raw_graph env rows metric role palette visible ctx options"
  by (simp add: raw_graph_def prepare_paths_def Let_def)

text \<open>
  With masking on, every label of a user, node, token, group or channel (other than the aggregate nodes) is empty or
  the mask, on the nodes and on both ends of the links.
\<close>

lemma masking_hides_labels:
  assumes "maskSensitive options"
  shows "(\<forall>n \<in> set (fg_nodes (buildFlowGraph env rows metric role palette visible ctx options)).
        n_kind n \<in> SENSITIVE_FLOW_KINDS \<and> n_id n \<notin> OTHER_FLOW_NODE_IDS ` set FLOW_NODE_KINDS \<longrightarrow>
          hidden_label (n_label n)
        \<and> (\<forall>l \<in> set (fg_links (buildFlowGraph env rows metric role palette visible ctx options)).
             (l_source l = n_id n \<longrightarrow> hidden_label (l_sourceLabel l)) \<and> (l_target l = n_id n \<longrightarrow> hidden_label (l_targetLabel l))))
    \<and> node_core ` set (fg_nodes (buildFlowGraph env rows metric role palette visible ctx options))
      = node_core ` set (fg_nodes (buildFlowGraph env rows metric role palette visible ctx (options\<lparr>maskSensitive := False\<rparr>)))"
proof (intro conjI ballI impI)
  let ?g = "buildFlowGraph env rows metric role palette visible ctx options"
  obtain nodes links where m: "maskFlowGraphLabels (fst (raw_graph env rows metric role palette visible ctx options))
       (snd (raw_graph env rows metric role palette visible ctx options)) = (nodes, links)" by fastforce
  note faces = shown_faces[OF assms m] and hides = mask_hides[OF m]
  fix n assume "n \<in> set (fg_nodes ?g)" and sensitive: "n_kind n \<in> SENSITIVE_FLOW_KINDS \<and> n_id n \<notin> OTHER_FLOW_NODE_IDS ` set FLOW_NODE_KINDS"
  then have "node_face n \<in> (\<lambda>x. node_face (snd x)) ` set nodes" using faces(1) by blast
  then obtain k n' where n': "(k, n') \<in> set nodes" "node_face n = node_face n'" by auto
  then have masked: "masked_node n'" using sensitive by (simp add: node_face_def masked_node_def)
  show "hidden_label (n_label n)" using hides(1)[OF n'(1) masked] n'(2) by (simp add: node_face_def)
  fix l assume "l \<in> set (fg_links ?g)"
  then have "link_face l \<in> (\<lambda>x. link_face (snd x)) ` set links" using faces(2) by blast
  then obtain k' l' where l': "(k', l') \<in> set links" "link_face l = link_face l'" by auto
  show "l_source l = n_id n \<Longrightarrow> hidden_label (l_sourceLabel l)" "l_target l = n_id n \<Longrightarrow> hidden_label (l_targetLabel l)"
    using hides(2,3)[OF l'(1) n'(1) masked] l'(2) n'(2) by (auto simp: node_face_def link_face_def)
next
  show "node_core ` set (fg_nodes (buildFlowGraph env rows metric role palette visible ctx options))
      = node_core ` set (fg_nodes (buildFlowGraph env rows metric role palette visible ctx (options\<lparr>maskSensitive := False\<rparr>)))"
    unfolding graph_node_cores raw_graph_mask ..
qed

text \<open>How masking relabels a node and a link, as functions on the unmasked graph.\<close>

definition mask_node :: "DashboardFlowNode \<Rightarrow> DashboardFlowNode" where
  "mask_node n = (if masked_node n then n\<lparr>n_label := maskFlowLabel (n_label n)\<rparr> else n)"

definition relabel :: "(jsstr \<Rightarrow> jsstr option) \<Rightarrow> DashboardFlowLink \<Rightarrow> DashboardFlowLink" where
  "relabel look l = l\<lparr>l_sourceLabel := (case look (l_source l) of Some masked \<Rightarrow> masked | None \<Rightarrow> l_sourceLabel l),
     l_targetLabel := (case look (l_target l) of Some masked \<Rightarrow> masked | None \<Rightarrow> l_targetLabel l)\<rparr>"

definition mask_lookup :: "DashboardFlowNode list \<Rightarrow> jsstr \<Rightarrow> jsstr option" where
  "mask_lookup nodes = map_of (foldl (\<lambda>m node. AList.update (n_id node) (maskFlowLabel (n_label node)) m) [] (filter masked_node nodes))"

lemma maskFlowGraphLabels_maps:
  "map snd (fst (maskFlowGraphLabels nodes links)) = map mask_node (map snd nodes)"
  "map snd (snd (maskFlowGraphLabels nodes links)) = map (relabel (mask_lookup (map snd nodes))) (map snd links)"
  by (simp_all add: maskFlowGraphLabels_def mask_node_def relabel_def mask_lookup_def Let_def case_prod_unfold comp_def)

lemma relabel_simps [simp]:
  "l_source (relabel k l) = l_source l" "l_target (relabel k l) = l_target l" "l_value (relabel k l) = l_value l"
  "l_color (relabel k l) = l_color l" "linkStableKey (relabel k l) = linkStableKey l"
  by (simp_all add: relabel_def linkStableKey_def)

lemma insert_by_map: "(\<And>a b. cmp (f a) (f b) = cmp' a b) \<Longrightarrow> insert_by cmp (f x) (map f ys) = map f (insert_by cmp' x ys)"
  by (induction ys) auto

lemma sort_by_map: "(\<And>a b. cmp (f a) (f b) = cmp' a b) \<Longrightarrow> sort_by cmp (map f xs) = map f (sort_by cmp' xs)"
  by (induction xs) (auto simp: sort_by_def insert_by_map)

lemma enumerate_map: "enumerate n (map f xs) = map (apsnd f) (enumerate n xs)"
  by (induction xs arbitrary: n) auto

lemma link_rank_relabel: "link_rank env (map (relabel k) links) i (relabel k l) = link_rank env links i l"
proof -
  have "sort_by (\<lambda>a b. byValueThenKey env (snd a) (snd b)) (map (apsnd (relabel k)) xs)
      = map (apsnd (relabel k)) (sort_by (\<lambda>a b. byValueThenKey env (snd a) (snd b)) xs)" for xs :: "(nat \<times> DashboardFlowLink) list"
    by (rule sort_by_map) (simp add: byValueThenKey_def)
  then show ?thesis by (simp add: link_rank_def enumerate_map filter_map takeWhile_map comp_def case_prod_unfold Let_def)
qed

lemma assign_relabel: "assignLinkDisplayColors env (map (relabel k) links) = map (relabel k) (assignLinkDisplayColors env links)"
proof -
  have "(relabel k l)\<lparr>l_linkColor := a, l_linkAlpha := b, l_hoverColor := c\<rparr> = relabel k (l\<lparr>l_linkColor := a, l_linkAlpha := b, l_hoverColor := c\<rparr>)"
    for l a b c by (simp add: relabel_def split: option.split)
  then show ?thesis by (simp add: assignLinkDisplayColors_def enumerate_map link_rank_relabel case_prod_unfold)
qed

lemma highlight_masked:
  "fst (applyFlowHighlights (map mask_node nodes) (map (relabel k) links) sets) = map mask_node (fst (applyFlowHighlights nodes links sets))"
  "snd (applyFlowHighlights (map mask_node nodes) (map (relabel k) links) sets) = map (relabel k) (snd (applyFlowHighlights nodes links sets))"
  by (auto simp: applyFlowHighlights_def highlight_node_def highlight_link_def mask_node_def masked_node_def relabel_def linkStableKey_def
      split: option.splits)

lemma flow_links_relabel:
  "assignLinkDisplayColors env (map (set_share (link_total ids (sort_by (bySourceTarget env) (map (relabel k) links))))
       (sort_by (bySourceTarget env) (map (relabel k) links)))
   = map (relabel k) (assignLinkDisplayColors env (map (set_share (link_total ids (sort_by (bySourceTarget env) links)))
       (sort_by (bySourceTarget env) links)))"
proof -
  have sort: "sort_by (bySourceTarget env) (map (relabel k) links) = map (relabel k) (sort_by (bySourceTarget env) links)"
    by (rule sort_by_map) (simp add: bySourceTarget_def)
  have total: "link_total ids (map (relabel k) ls) = link_total ids ls" for ls
    by (simp add: link_total_def filter_map comp_def foldl_map)
  have "map (set_share t) (map (relabel k) ls) = map (relabel k) (map (set_share t) ls)" for t ls
    by (simp add: set_share_def relabel_def split: option.split)
  then show ?thesis by (simp only: sort total assign_relabel)
qed

definition graph_of :: "flow_env \<Rightarrow> PreparedFlowPath list \<Rightarrow> DashboardFlowNode list \<times> DashboardFlowLink list \<Rightarrow> DashboardFlowGraph" where
  "graph_of env prepared d = (let flowLinks = sort_by (bySourceTarget env) (snd d) in
     \<lparr>fg_nodes = sort_by (byValueThenLabel env n_value n_label) (fst d),
      fg_links = assignLinkDisplayColors env (map (set_share (link_total (first_ids prepared) flowLinks)) flowLinks)\<rparr>)"

lemma buildFlowGraph_graph_of:
  "buildFlowGraph env rows metric role palette visible ctx options = graph_of env
     (prepare_paths env rows metric (resolveVisibleStages role visible) ctx options)
     (displayed_graph env rows metric role palette visible ctx options)"
  unfolding buildFlowGraph_def displayed_graph_def raw_graph_def graph_of_def Let_def
  by (auto simp: add_path_nodes_tally add_path_links_tally split: prod.splits)

lemma masked_graph:
  fixes env rows metric role palette visible ctx options
  defines "g \<equiv> buildFlowGraph env rows metric role palette visible ctx options"
    and "g0 \<equiv> buildFlowGraph env rows metric role palette visible ctx (options\<lparr>maskSensitive := False\<rparr>)"
    and "look \<equiv> mask_lookup (map snd (fst (raw_graph env rows metric role palette visible ctx options)))"
  assumes "maskSensitive options"
  shows "fg_links g = map (relabel look) (fg_links g0)" "set (fg_nodes g) = mask_node ` set (fg_nodes g0)"
proof -
  let ?raw = "raw_graph env rows metric role palette visible ctx options"
  let ?d = "displayed_graph env rows metric role palette visible ctx options"
  let ?plain = "displayed_graph env rows metric role palette visible ctx (options\<lparr>maskSensitive := False\<rparr>)"
  have prep: "prepare_paths env rows metric stages ctx (options\<lparr>maskSensitive := False\<rparr>) = prepare_paths env rows metric stages ctx options"
    for stages by (simp add: prepare_paths_def Let_def)
  let ?sets = "buildFlowHighlightSets (prepare_paths env rows metric (resolveVisibleStages role visible) ctx options)
      (activeNode options) (activeLink options) (resolveVisibleStages role visible)"
  let ?m = "maskFlowGraphLabels (fst ?raw) (snd ?raw)"
  have "?d = applyFlowHighlights (map snd (fst ?m)) (map snd (snd ?m)) ?sets"
    using assms(4) by (simp add: displayed_graph_def Let_def case_prod_unfold)
  then have d: "?d = applyFlowHighlights (map mask_node (map snd (fst ?raw))) (map (relabel look) (map snd (snd ?raw))) ?sets"
    by (simp only: maskFlowGraphLabels_maps look_def)
  have d0: "?plain = applyFlowHighlights (map snd (fst ?raw)) (map snd (snd ?raw)) ?sets"
    by (simp add: displayed_graph_def raw_graph_mask prep Let_def case_prod_unfold)
  have "?d = (map mask_node (fst ?plain), map (relabel look) (snd ?plain))"
    unfolding d d0 by (rule prod_eqI) (simp_all only: highlight_masked prod.sel)
  then show "fg_links g = map (relabel look) (fg_links g0)" "set (fg_nodes g) = mask_node ` set (fg_nodes g0)"
    unfolding g_def g0_def buildFlowGraph_graph_of prep by (simp_all add: graph_of_def flow_links_relabel Let_def)
qed

text \<open>A label is concealed when what is shown is not the name, unless that is empty or the mask itself.\<close>

definition concealed :: "jsstr \<Rightarrow> jsstr \<Rightarrow> bool" where
  "concealed name shown \<longleftrightarrow> name = [] \<or> name = FLOW_MASK_TEXT \<or> shown \<noteq> name"

definition sensitive_id :: "DashboardFlowGraph \<Rightarrow> jsstr \<Rightarrow> bool" where
  "sensitive_id g i \<longleftrightarrow> (\<exists>n \<in> set (fg_nodes g). n_id n = i \<and> masked_node n)"

definition masked_label :: "bool \<Rightarrow> jsstr \<Rightarrow> jsstr \<Rightarrow> bool" where
  "masked_label sensitive name shown \<longleftrightarrow> (if sensitive then concealed name shown else shown = name)"

lemma concealed_hidden: "hidden_label shown \<Longrightarrow> concealed name shown"
  by (auto simp: hidden_label_def concealed_def)

lemma mask_lookup_cases:
  "(mask_lookup nodes i = None \<and> (\<nexists>n. n \<in> set nodes \<and> n_id n = i \<and> masked_node n))
   \<or> (\<exists>s. mask_lookup nodes i = Some s \<and> hidden_label s \<and> (\<exists>n \<in> set nodes. n_id n = i \<and> masked_node n))"
proof (cases "\<exists>n \<in> set (filter masked_node nodes). n_id n = i")
  case True
  with masked_lookup [OF True] show ?thesis by (auto simp: mask_lookup_def)
next
  case False
  have "fst ` set (foldl (\<lambda>m node. AList.update (n_id node) (maskFlowLabel (n_label node)) m) acc ns) = fst ` set acc \<union> n_id ` set ns" for acc ns
    by (induction ns arbitrary: acc) (auto simp: dom_update)
  from this [of "[]" "filter masked_node nodes"] False have "mask_lookup nodes i = None"
    unfolding mask_lookup_def map_of_eq_None_iff by auto
  with False show ?thesis by auto
qed

lemma sensitive_id_core:
  assumes "node_core ` set (fg_nodes g) = node_core ` set nodes"
  shows "sensitive_id g i \<longleftrightarrow> (\<exists>n \<in> set nodes. n_id n = i \<and> masked_node n)"
proof -
  have eq: "(\<exists>n \<in> set ns. n_id n = i \<and> masked_node n) \<longleftrightarrow>
      (\<exists>x \<in> node_core ` set ns. fst x = i \<and> fst (snd x) \<in> SENSITIVE_FLOW_KINDS \<and> fst x \<notin> OTHER_FLOW_NODE_IDS ` set FLOW_NODE_KINDS)" for ns
    by (auto simp: node_core_def masked_node_def)
  show ?thesis unfolding sensitive_id_def eq assms ..
qed

text \<open>
  C18.  Masking conceals the sensitive names and changes nothing else.  With masking on, the links are those of the graph
  without masking, in the same order and with the same ends, values, shares, colors and highlighting, and so are the
  nodes up to their order; the label of a user, node, token, group or channel (other than the aggregate nodes), on the
  node and on the ends of links, is not its name, and every other label is kept.
\<close>

theorem masking_changes_only_labels:
  fixes env rows metric role palette visible ctx options
  defines "g \<equiv> buildFlowGraph env rows metric role palette visible ctx options"
    and "g0 \<equiv> buildFlowGraph env rows metric role palette visible ctx (options\<lparr>maskSensitive := False\<rparr>)"
  assumes "maskSensitive options"
  shows "list_all2 (\<lambda>l l0. l\<lparr>l_sourceLabel := [], l_targetLabel := []\<rparr> = l0\<lparr>l_sourceLabel := [], l_targetLabel := []\<rparr>
        \<and> masked_label (sensitive_id g0 (l_source l0)) (l_sourceLabel l0) (l_sourceLabel l)
        \<and> masked_label (sensitive_id g0 (l_target l0)) (l_targetLabel l0) (l_targetLabel l)) (fg_links g) (fg_links g0)
    \<and> (\<exists>f. set (fg_nodes g) = f ` set (fg_nodes g0) \<and> (\<forall>n0 \<in> set (fg_nodes g0).
         (f n0)\<lparr>n_label := []\<rparr> = n0\<lparr>n_label := []\<rparr> \<and> masked_label (masked_node n0) (n_label n0) (n_label (f n0))))"
proof
  let ?nodes = "map snd (fst (raw_graph env rows metric role palette visible ctx options))"
  note masked = masked_graph [OF assms(3), of env rows metric role palette visible ctx, folded g_def g0_def]
  have ids: "sensitive_id g0 i \<longleftrightarrow> (\<exists>n \<in> set ?nodes. n_id n = i \<and> masked_node n)" for i
    by (rule sensitive_id_core) (simp add: g0_def graph_node_cores raw_graph_mask image_image)
  have "masked_label (sensitive_id g0 i) name (case mask_lookup ?nodes i of Some s \<Rightarrow> s | None \<Rightarrow> name)" for i name
    using mask_lookup_cases [of ?nodes i] ids [of i] by (auto simp: masked_label_def concealed_hidden)
  then show "list_all2 (\<lambda>l l0. l\<lparr>l_sourceLabel := [], l_targetLabel := []\<rparr> = l0\<lparr>l_sourceLabel := [], l_targetLabel := []\<rparr>
        \<and> masked_label (sensitive_id g0 (l_source l0)) (l_sourceLabel l0) (l_sourceLabel l)
        \<and> masked_label (sensitive_id g0 (l_target l0)) (l_targetLabel l0) (l_targetLabel l)) (fg_links g) (fg_links g0)"
    unfolding masked(1) by (simp add: list_all2_map1 list_all2_same relabel_def)
  show "\<exists>f. set (fg_nodes g) = f ` set (fg_nodes g0) \<and> (\<forall>n0 \<in> set (fg_nodes g0).
         (f n0)\<lparr>n_label := []\<rparr> = n0\<lparr>n_label := []\<rparr> \<and> masked_label (masked_node n0) (n_label n0) (n_label (f n0)))"
    using masked(2) by (intro exI [of _ mask_node]) (auto simp: mask_node_def masked_label_def intro: concealed_hidden)
qed

theorem masking_changes_only_labels_witness:
  "maskSensitive demo_options \<and> length (fg_links (buildFlowGraph demo_env demo_rows MQuota RUser None None None demo_options))
     = length (fg_links (buildFlowGraph demo_env demo_rows MQuota RUser None None None (demo_options\<lparr>maskSensitive := False\<rparr>)))
   \<and> (\<exists>n0 \<in> set (fg_nodes (buildFlowGraph demo_env demo_rows MQuota RUser None None None (demo_options\<lparr>maskSensitive := False\<rparr>))).
        \<exists>n \<in> set (fg_nodes (buildFlowGraph demo_env demo_rows MQuota RUser None None None demo_options)).
          n_id n0 = js ''token:1'' \<and> n_id n = js ''token:1'' \<and> concealed (n_label n0) (n_label n))"
proof -
  let ?plain = "buildFlowGraph demo_env demo_rows MQuota RUser None None None (demo_options\<lparr>maskSensitive := False\<rparr>)"
  let ?g = "buildFlowGraph demo_env demo_rows MQuota RUser None None None demo_options"
  have on: "maskSensitive demo_options" by (simp add: demo_options_def)
  note masking = masking_changes_only_labels [OF on, of demo_env demo_rows MQuota RUser None None None]
  have "(js ''token:1'', KToken, Fin 30) \<in> node_core ` set (fg_nodes ?plain)"
    using demo_token_node unfolding graph_node_cores raw_graph_mask .
  then obtain n0 where n0: "n0 \<in> set (fg_nodes ?plain)" "n_id n0 = js ''token:1''" "n_kind n0 = KToken" by (auto simp: node_core_def)
  then have "masked_node n0" by (simp add: masked_node_def SENSITIVE_FLOW_KINDS_def FLOW_NODE_KINDS_def)
  moreover obtain f where f: "set (fg_nodes ?g) = f ` set (fg_nodes ?plain)" "(f n0)\<lparr>n_label := []\<rparr> = n0\<lparr>n_label := []\<rparr>"
    "masked_label (masked_node n0) (n_label n0) (n_label (f n0))" using masking n0(1) by blast
  moreover have "n_id (f n0) = n_id n0" using arg_cong [OF f(2), of n_id] by simp
  moreover have "length (fg_links ?g) = length (fg_links ?plain)" using masking by (auto dest: list_all2_lengthD)
  moreover have "f n0 \<in> set (fg_nodes ?g)" using f(1) n0(1) by blast
  ultimately have "n_id (f n0) = js ''token:1''" "concealed (n_label n0) (n_label (f n0))" "f n0 \<in> set (fg_nodes ?g)"
    "length (fg_links ?g) = length (fg_links ?plain)" using n0(2) by (simp_all add: masked_label_def)
  with on n0(1,2) show ?thesis by blast
qed

section \<open>The top-node limit\<close>

lemma add_rank_keys: "map fst (add_rank v totals node) = map fst totals"
proof (cases "map_of totals (p_kind node)")
  case (Some ranks)
  then have "p_kind node \<in> fst ` set totals" by (metis map_of_eq_None_iff option.distinct(1))
  then show ?thesis using Some by (simp add: add_rank_def update_keys)
qed (simp add: add_rank_def)

lemma rank_rows_keys: "map fst (rank_rows rows metric stages ctx) = stages"
proof -
  have path: "map fst (foldl (add_rank v) totals path) = map fst totals" for v totals path
    by (induction path arbitrary: totals) (simp_all add: add_rank_keys)
  have "map fst (foldl (\<lambda>totals row. foldl (add_rank (metricValue (rowMetrics row) metric)) totals (flowPathForStages row stages ctx)) totals rows)
      = map fst totals" for totals
    by (induction rows arbitrary: totals) (simp_all add: path)
  then show ?thesis by (simp add: rank_rows_def comp_def)
qed

lemma top_sets_bound:
  assumes "buildTopNodeSets env rows metric stages (Some n) ctx = Some sets" "k \<in> set stages"
  shows "\<exists>ids. map_of sets k = Some ids \<and> finite ids \<and> card ids \<le> n"
proof -
  let ?top = "\<lambda>totals. set (map (\<lambda>rank. p_id (r_node rank)) (take n (sort_by (byRank env) (map snd totals))))"
  have sets: "sets = map (\<lambda>(kind, totals). (kind, ?top totals)) (rank_rows rows metric stages ctx)"
    using assms(1) by (auto simp: buildTopNodeSets_def split: if_splits)
  have "k \<in> fst ` set (rank_rows rows metric stages ctx)" using rank_rows_keys assms(2) by (metis set_map)
  then obtain totals where "map_of (rank_rows rows metric stages ctx) k = Some totals"
    by (metis map_of_eq_None_iff not_Some_eq)
  then have "map_of sets k = Some (?top totals)" unfolding sets by (simp add: map_of_map)
  moreover have "card (?top totals) \<le> n" by (rule order_trans[OF card_length]) simp
  ultimately show ?thesis by auto
qed

lemma limited_path_ids:
  assumes "applyTopNodeLimit path (Some sets) mode labeler = Some path'" "node \<in> set path'"
    "map_of sets (p_kind node) = Some ids"
  shows "p_id node \<in> ids \<or> (mode \<noteq> Hide \<and> p_id node = OTHER_FLOW_NODE_IDS (p_kind node))"
  using assms by (auto simp: applyTopNodeLimit_def list_ex_iff isTopFlowNode_def otherFlowNode_def split: if_splits)

lemma prepared_limited:
  assumes "normalizeTopNodeLimit (topNodeLimit options) = Some n" "0 < n" "k \<in> set stages"
  shows "\<exists>ids. finite ids \<and> card ids \<le> n \<and> (\<forall>p \<in> set (prepare_paths env rows metric stages ctx options). \<forall>node \<in> set (pp_path p).
    p_kind node = k \<longrightarrow> p_id node \<in> ids \<or> (overflowMode options \<noteq> Some Hide \<and> p_id node = OTHER_FLOW_NODE_IDS k))"
proof -
  obtain sets where sets: "buildTopNodeSets env rows metric stages (Some n) ctx = Some sets"
    using assms(2) by (auto simp: buildTopNodeSets_def)
  obtain ids where ids: "map_of sets k = Some ids" "finite ids" "card ids \<le> n" using top_sets_bound[OF sets assms(3)] by blast
  have "p_id node \<in> ids \<or> (overflowMode options \<noteq> Some Hide \<and> p_id node = OTHER_FLOW_NODE_IDS k)"
    if p: "p \<in> set (prepare_paths env rows metric stages ctx options)" "node \<in> set (pp_path p)" "p_kind node = k" for p node
  proof -
    let ?mode = "case overflowMode options of Some m \<Rightarrow> m | None \<Rightarrow> Aggregate"
    obtain row where "applyTopNodeLimit (flowPathForStages row stages ctx) (Some sets) ?mode (otherNodeLabel options) = Some (pp_path p)"
      using p(1) sets assms(1) by (auto simp: prepare_paths_def map_filter_def Let_def split: option.splits)
    from limited_path_ids[OF this p(2), of ids] ids(1) p(3) show ?thesis by (auto split: option.splits)
  qed
  with ids show ?thesis by blast
qed

lemma limit_positive: "normalizeTopNodeLimit l = Some n \<Longrightarrow> 0 < n"
  by (auto simp: normalizeTopNodeLimit_def num_positive_def num_less_def is_finite_def num_val_def math_floor_def Let_def
      split: option.splits if_splits number.splits)

lemma column_length:
  "length (filter (\<lambda>n. n_kind n = k) (fg_nodes (buildFlowGraph env rows metric role palette visible ctx options)))
    = card (fst ` {x \<in> set (fst (raw_graph env rows metric role palette visible ctx options)). n_kind (snd x) = k})"
proof -
  let ?raw = "fst (raw_graph env rows metric role palette visible ctx options)"
  have "(of_nat (length (filter (\<lambda>n. n_kind n = k) (fg_nodes (buildFlowGraph env rows metric role palette visible ctx options)))) :: rat)
      = of_nat (length (filter (\<lambda>x. n_kind (snd x) = k) ?raw))"
    using graph_node_sum[of "\<lambda>(i, kind, v). if kind = k then 1 else 0" env rows metric role palette visible ctx options]
    by (simp add: node_core_def sum_if_filter sum_list_triv)
  then have "length (filter (\<lambda>n. n_kind n = k) (fg_nodes (buildFlowGraph env rows metric role palette visible ctx options)))
      = length (map fst (filter (\<lambda>x. n_kind (snd x) = k) ?raw))" by (simp only: of_nat_eq_iff length_map)
  also have "\<dots> = card (set (map fst (filter (\<lambda>x. n_kind (snd x) = k) ?raw)))"
    using distinct_tally_map by (intro distinct_card[symmetric] distinct_map_filter) (simp add: raw_graph_def Let_def)
  finally show ?thesis by simp
qed

text \<open>
  C19.  The top-node limit bounds every column: with a limit \<open>n\<close> the graph shows at most \<open>n\<close> nodes of a
  kind when overflowing nodes are hidden, and at most one more, the aggregate, otherwise.
\<close>

theorem top_limit_bounds_columns:
  assumes "normalizeTopNodeLimit (topNodeLimit options) = Some n"
  shows "length (filter (\<lambda>node. n_kind node = k) (fg_nodes (buildFlowGraph env rows metric role palette visible ctx options)))
    \<le> (if overflowMode options = Some Hide then n else n + 1)"
proof -
  let ?stages = "resolveVisibleStages role visible"
  let ?prepared = "prepare_paths env rows metric ?stages ctx options"
  let ?col = "fst ` {x \<in> set (fst (raw_graph env rows metric role palette visible ctx options)). n_kind (snd x) = k}"
  have entry: "\<exists>p \<in> set ?prepared. \<exists>node \<in> set (pp_path p). p_id node = i \<and> p_kind node = k" if "i \<in> ?col" for i
  proof -
    from that obtain v where v: "(i, v) \<in> set (flow_nodes (root_color env palette ?prepared) metric ?prepared)" "n_kind v = k"
      by (auto simp: raw_graph_def Let_def)
    show ?thesis using node_entry(2)[OF v(1)] unfolding v(2) .
  qed
  show ?thesis
  proof (cases "k \<in> set ?stages")
    case True
    obtain ids where ids: "finite ids" "card ids \<le> n" "\<forall>p \<in> set ?prepared. \<forall>node \<in> set (pp_path p).
        p_kind node = k \<longrightarrow> p_id node \<in> ids \<or> (overflowMode options \<noteq> Some Hide \<and> p_id node = OTHER_FLOW_NODE_IDS k)"
      using prepared_limited[OF assms limit_positive[OF assms] True, of env rows metric ctx] by (elim exE conjE)
    have "?col \<subseteq> (if overflowMode options = Some Hide then ids else insert (OTHER_FLOW_NODE_IDS k) ids)"
    proof
      fix i assume "i \<in> ?col"
      from entry[OF this] ids(3) have "i \<in> ids \<or> (overflowMode options \<noteq> Some Hide \<and> i = OTHER_FLOW_NODE_IDS k)" by blast
      then show "i \<in> (if overflowMode options = Some Hide then ids else insert (OTHER_FLOW_NODE_IDS k) ids)" by auto
    qed
    then have "card ?col \<le> card (if overflowMode options = Some Hide then ids else insert (OTHER_FLOW_NODE_IDS k) ids)"
      using ids(1) by (intro card_mono) auto
    also have "\<dots> \<le> (if overflowMode options = Some Hide then n else n + 1)" using ids(1,2) by (simp add: card_insert_if)
    finally show ?thesis unfolding column_length .
  next
    case False
    have "p_kind node \<in> set ?stages" if "p \<in> set ?prepared" "node \<in> set (pp_path p)" for p node
      using prepare_paths_wf[OF that(1)] that(2) unfolding wf_path_def by (metis image_eqI set_map)
    then have no: "p \<in> set ?prepared \<Longrightarrow> node \<in> set (pp_path p) \<Longrightarrow> p_kind node \<noteq> k" for p node using False by metis
    have "i \<notin> ?col" for i using entry[of i] no by metis
    then show ?thesis unfolding column_length by (metis (no_types, lifting) card.empty equals0I zero_le)
  qed
qed

theorem top_limit_bounds_columns_witness:
  "length (filter (\<lambda>node. n_kind node = KGroup)
     (fg_nodes (buildFlowGraph demo_env demo_rows MQuota RUser None None None (demo_options\<lparr>topNodeLimit := Some (Fin 1)\<rparr>)))) \<le> 2"
  using top_limit_bounds_columns[of "demo_options\<lparr>topNodeLimit := Some (Fin 1)\<rparr>" 1 KGroup demo_env demo_rows MQuota RUser None None None]
  by (simp add: normalizeTopNodeLimit_def math_floor_def is_finite_def num_positive_def num_less_def num_val_def demo_options_def)

section \<open>Node filters\<close>

lemma map_of_tally_set:
  "map_of (tally_map key (\<lambda>_. {}) (\<lambda>e. insert (g e)) es) k
    = (if k \<in> key ` set es then Some (g ` {e \<in> set es. key e = k}) else None)"
proof -
  have fold: "foldl (\<lambda>v e. insert (g e) v) S xs = S \<union> g ` set xs" for S xs by (induction xs arbitrary: S) auto
  show ?thesis
  proof (cases "filter (\<lambda>e. key e = k) es")
    case Nil
    then show ?thesis by (auto simp: map_of_tally_map filter_empty_conv)
  next
    case (Cons e rest)
    then have "{e \<in> set es. key e = k} = set (e # rest)" by (metis set_filter)
    then show ?thesis using Cons by (auto simp: map_of_tally_map fold)
  qed
qed

lemma normalize_filters_tally:
  "normalizeSelectedNodeFilters selected stages = tally_map f_kind (\<lambda>_. {}) (\<lambda>f. insert (f_id f))
     (filter (\<lambda>f. f_kind f \<in> set stages) (case selected of None \<Rightarrow> [] | Some fs \<Rightarrow> fs))"
proof -
  have "foldl (\<lambda>filters flt. if f_kind flt \<notin> set stages then filters else upsert (f_kind flt) {} (insert (f_id flt)) filters) m fs
      = foldl (\<lambda>m f. upsert (f_kind f) {} (insert (f_id f)) m) m (filter (\<lambda>f. f_kind f \<in> set stages) fs)" for m fs
    by (induction fs arbitrary: m) auto
  then show ?thesis by (simp add: normalizeSelectedNodeFilters_def tally_map_def)
qed

lemma path_matches:
  assumes "fst ` set filters \<subseteq> set stages"
  shows "pathMatchesNodeFilters (flowPathForStages row stages ctx) filters
    \<longleftrightarrow> (\<forall>(k, ids) \<in> set filters. p_id (NODE_BUILDERS k row ctx) \<in> ids)"
proof -
  have "map_of (tally_map p_kind (\<lambda>_. {}) (\<lambda>n. insert (p_id n)) (flowPathForStages row stages ctx)) k = Some {p_id (NODE_BUILDERS k row ctx)}"
    if "k \<in> set stages" for k
    using that unfolding map_of_tally_set flowPathForStages_def by (auto simp: image_iff intro!: bexI[of _ k])
  then show ?thesis using assms by (fastforce simp: pathMatchesNodeFilters_def tally_map_def[symmetric] list_all_iff)
qed

text \<open>
  C31.  Node filters: a row is kept exactly when, for every visible stage that has a filter, the row's node
  of that stage is one of the selected ones.  Filters of one stage are alternatives, filters of different
  stages are combined, and filters of stages that are not visible have no effect.
\<close>

theorem node_filters_select_rows:
  "row \<in> set (filterRowsByNodes rows (Some fs) stages ctx) \<longleftrightarrow> row \<in> set rows
    \<and> (\<forall>k \<in> set stages. k \<in> f_kind ` set fs \<longrightarrow> \<lparr>f_kind = k, f_id = p_id (NODE_BUILDERS k row ctx)\<rparr> \<in> set fs)"
proof -
  let ?vis = "filter (\<lambda>f. f_kind f \<in> set stages) fs" and ?filters = "normalizeSelectedNodeFilters (Some fs) stages"
  have filters: "?filters = tally_map f_kind (\<lambda>_. {}) (\<lambda>f. insert (f_id f)) ?vis" by (simp add: normalize_filters_tally)
  have keys: "fst ` set ?filters = f_kind ` set ?vis" unfolding filters by (rule keys_tally_map)
  have mem: "(k, ids) \<in> set ?filters \<longleftrightarrow> k \<in> f_kind ` set ?vis \<and> ids = f_id ` {f \<in> set ?vis. f_kind f = k}" for k ids
    unfolding filters mem_tally_map map_of_tally_set by auto
  have eta: "\<lparr>f_kind = f_kind f, f_id = f_id f\<rparr> = f" for f :: FlowNodeFilter by (cases f) simp
  have sel: "i \<in> f_id ` {f \<in> set ?vis. f_kind f = k} \<longleftrightarrow> k \<in> set stages \<and> \<lparr>f_kind = k, f_id = i\<rparr> \<in> set fs" for i k
    by (force simp: eta)
  have "pathMatchesNodeFilters (flowPathForStages row stages ctx) ?filters
      \<longleftrightarrow> (\<forall>k \<in> f_kind ` set ?vis. p_id (NODE_BUILDERS k row ctx) \<in> f_id ` {f \<in> set ?vis. f_kind f = k})"
    using path_matches[of ?filters stages row ctx] keys mem by fastforce
  also have "\<dots> \<longleftrightarrow> (\<forall>k \<in> set stages. k \<in> f_kind ` set fs \<longrightarrow> \<lparr>f_kind = k, f_id = p_id (NODE_BUILDERS k row ctx)\<rparr> \<in> set fs)"
    unfolding sel by auto
  finally have matches: "pathMatchesNodeFilters (flowPathForStages row stages ctx) ?filters
      \<longleftrightarrow> (\<forall>k \<in> set stages. k \<in> f_kind ` set fs \<longrightarrow> \<lparr>f_kind = k, f_id = p_id (NODE_BUILDERS k row ctx)\<rparr> \<in> set fs)" .
  show ?thesis
  proof (cases "?filters = []")
    case True
    then have "?vis = []" using keys by auto
    then show ?thesis using True by (auto simp: filterRowsByNodes_def filter_empty_conv)
  next
    case False
    then show ?thesis using matches by (simp add: filterRowsByNodes_def)
  qed
qed

theorem node_filters_select_rows_witness:
  "demo_row 1 ''a'' ''m'' 10 \<in> set (filterRowsByNodes demo_rows (Some [\<lparr>f_kind = KGroup, f_id = js ''group:a''\<rparr>]) [KToken, KGroup, KModel] None)
   \<and> demo_row 1 ''b'' ''m'' 20 \<notin> set (filterRowsByNodes demo_rows (Some [\<lparr>f_kind = KGroup, f_id = js ''group:a''\<rparr>]) [KToken, KGroup, KModel] None)"
  unfolding node_filters_select_rows by (simp add: demo_rows_def demo_row_def groupNode_def str_or_def Let_def)

end
