(* ===== verification/FlowSankey.thy ===== *)
theory FlowSankey
  imports FlowDisplay
begin

text \<open>
  The Sankey chart of the flow graph (\<open>buildFlowSankeySpec\<close> of features/dashboard/lib/flow.ts): the data
  it is drawn from, the functions the chart library calls back with a datum, and the node filter a click on
  a datum gives.  A datum is a value of type \<open>unknown\<close>, modelled as JSON data.  The constant layout options
  of the specification are not modelled.
\<close>

section \<open>Numbers in a datum\<close>

definition json_numberValue :: "json option \<Rightarrow> number" where
  "json_numberValue v = (let n = json_toNumber v in if is_finite n then n else Fin 0)"

text \<open>\<open>xs[i]\<close> with a number as the index.\<close>

definition json_nth :: "json list \<Rightarrow> number \<Rightarrow> json option" where
  "json_nth xs i = (if num_is_integer i \<and> 0 \<le> num_val i \<and> nat \<lfloor>num_val i\<rfloor> < length xs then Some (xs ! nat \<lfloor>num_val i\<rfloor>) else None)"

section \<open>Reading a datum\<close>

definition isFlowNodeKind :: "json option \<Rightarrow> FlowNodeKind option" where
  "isFlowNodeKind v = (case v of Some (JStr s) \<Rightarrow> find (\<lambda>k. kind_name k = s) FLOW_NODE_KINDS | _ \<Rightarrow> None)"

definition recordValue :: "json option \<Rightarrow> json option" where
  "recordValue v = (if is_object v then v else None)"

definition or_else :: "'a option \<Rightarrow> 'a option \<Rightarrow> 'a option" where
  "or_else a b = (case a of Some x \<Rightarrow> Some x | None \<Rightarrow> b)"

definition sankeyDatumSource :: "json \<Rightarrow> json" where
  "sankeyDatumSource datum = (let nested = json_get datum (js ''datum'') in
     case nested of
       Some (JArr xs) \<Rightarrow>
         (let depth = json_numberValue (json_get datum (js ''depth''))
          in the (or_else (recordValue (json_nth xs depth)) (or_else (recordValue (json_nth xs (Fin 0))) (Some datum))))
     | _ \<Rightarrow> the (or_else (recordValue nested) (Some datum)))"

definition sankeyDatumValue :: "json \<Rightarrow> jsstr \<Rightarrow> json option" where
  "sankeyDatumValue datum key = (case json_get datum key of Some v \<Rightarrow> Some v | None \<Rightarrow> json_get (sankeyDatumSource datum) key)"

definition sankeyDatumFlag :: "json \<Rightarrow> jsstr \<Rightarrow> bool" where
  "sankeyDatumFlag datum key \<longleftrightarrow> sankeyDatumValue datum key = Some (JBool True)"

definition flowSankeyDatumValue :: "json option \<Rightarrow> jsstr \<Rightarrow> json option" where
  "flowSankeyDatumValue datum key = (case recordValue datum of Some r \<Rightarrow> sankeyDatumValue r key | None \<Rightarrow> None)"

definition isSankeyLinkDatum :: "json \<Rightarrow> bool" where
  "isSankeyLinkDatum datum \<longleftrightarrow> sankeyDatumValue datum (js ''source'') \<noteq> None \<and> sankeyDatumValue datum (js ''target'') \<noteq> None"

definition flowNodeFilterFromSankeyDatum :: "json option \<Rightarrow> FlowNodeFilter option" where
  "flowNodeFilterFromSankeyDatum datum = (case recordValue datum of
       None \<Rightarrow> None
     | Some r \<Rightarrow> if isSankeyLinkDatum r then None else
         (case (flowSankeyDatumValue (Some r) (js ''key''), isFlowNodeKind (flowSankeyDatumValue (Some r) (js ''kind''))) of
            (Some (JStr i), Some kind) \<Rightarrow> Some \<lparr>f_kind = kind, f_id = i\<rparr>
          | (Some (JNum n), Some kind) \<Rightarrow> Some \<lparr>f_kind = kind, f_id = num_text n\<rparr>
          | _ \<Rightarrow> None))"

section \<open>The data of the chart\<close>

text \<open>An optional flag; \<open>undefined\<close> is left out of the object.\<close>

definition flag_entry :: "string \<Rightarrow> bool option \<Rightarrow> (jsstr \<times> json) list" where
  "flag_entry key flag = (case flag of Some b \<Rightarrow> [(js key, JBool b)] | None \<Rightarrow> [])"

definition sankey_node :: "DashboardFlowNode \<Rightarrow> json" where
  "sankey_node node = JObj
     ([(js ''key'', JStr (n_id node)), (js ''name'', JStr (n_label node)), (js ''rawLabel'', JStr (n_label node)),
       (js ''kind'', JStr (kind_name (n_kind node))), (js ''value'', JNum (n_value node)), (js ''requests'', JNum (n_requests node)),
       (js ''quota'', JNum (n_quota node)), (js ''tokens'', JNum (n_tokens node)), (js ''color'', JStr (n_color node)),
       (js ''colorKey'', JStr (n_colorKey node))]
      @ flag_entry ''highlighted'' (n_highlighted node) @ flag_entry ''dimmed'' (n_dimmed node))"

text \<open>\<open>Number(a.flag) - Number(b.flag)\<close>, which is \<open>NaN\<close>, and so skipped, when a flag is missing.\<close>

definition flag_cmp :: "bool option \<Rightarrow> bool option \<Rightarrow> int" where
  "flag_cmp a b = (case (a, b) of (Some x, Some y) \<Rightarrow> of_bool x - of_bool y | _ \<Rightarrow> 0)"

definition byLinkDrawPriority :: "flow_env \<Rightarrow> DashboardFlowLink \<Rightarrow> DashboardFlowLink \<Rightarrow> int" where
  "byLinkDrawPriority env a b =
     or_cmp (flag_cmp (l_dimmed a) (l_dimmed b))
       (or_cmp (flag_cmp (l_highlighted b) (l_highlighted a))
          (or_cmp (cmp_desc (l_value a) (l_value b)) (localeCompare env (linkStableKey a) (linkStableKey b))))"

definition link_zIndex :: "nat \<Rightarrow> DashboardFlowLink \<Rightarrow> nat" where
  "link_zIndex index link =
     (if l_highlighted link = Some True then 1000000 + index else if l_dimmed link = Some True then index else 100000 + index)"

definition sankey_link :: "nat \<times> DashboardFlowLink \<Rightarrow> json" where
  "sankey_link il = (case il of (index, link) \<Rightarrow> JObj
     ([(js ''source'', JStr (l_source link)), (js ''target'', JStr (l_target link)), (js ''linkKey'', JStr (linkStableKey link)),
       (js ''sourceLabel'', JStr (l_sourceLabel link)), (js ''targetLabel'', JStr (l_targetLabel link)),
       (js ''value'', JNum (l_value link)), (js ''requests'', JNum (l_requests link)), (js ''quota'', JNum (l_quota link)),
       (js ''tokens'', JNum (l_tokens link)), (js ''color'', JStr (l_color link)), (js ''linkColor'', JStr (l_linkColor link)),
       (js ''linkAlpha'', JNum (l_linkAlpha link)), (js ''hoverColor'', JStr (l_hoverColor link)),
       (js ''colorKey'', JStr (l_colorKey link)), (js ''share'', JNum (l_share link))]
      @ flag_entry ''highlighted'' (l_highlighted link) @ flag_entry ''dimmed'' (l_dimmed link)
      @ [(js ''zIndex'', JNum (Fin (of_nat (link_zIndex index link))))]))"

definition drawn_links :: "flow_env \<Rightarrow> DashboardFlowGraph \<Rightarrow> DashboardFlowLink list" where
  "drawn_links env flow = sort_by (byLinkDrawPriority env) (filter (\<lambda>link. num_positive (l_value link)) (fg_links flow))"

definition sankey_nodes :: "DashboardFlowGraph \<Rightarrow> json list" where
  "sankey_nodes flow = map sankey_node (fg_nodes flow)"

definition sankey_links :: "flow_env \<Rightarrow> DashboardFlowGraph \<Rightarrow> json list" where
  "sankey_links env flow = map sankey_link (enumerate 0 (drawn_links env flow))"

section \<open>Callbacks of the chart\<close>

definition json_str :: "json option \<Rightarrow> jsstr \<Rightarrow> jsstr" where
  "json_str v d = (case v of None \<Rightarrow> d | Some JNull \<Rightarrow> d | Some w \<Rightarrow> json_toString w)"

definition linkSortBy :: "flow_env \<Rightarrow> json \<Rightarrow> json \<Rightarrow> int" where
  "linkSortBy env a b =
     (let val = (\<lambda>x. json_numberValue (json_get x (js ''value'')));
          key = (\<lambda>x. json_str (json_get x (js ''source'')) [] @ 0 # json_str (json_get x (js ''target'')) []);
          idx = (\<lambda>x. json_numberValue (json_get x (js ''index'')))
      in or_cmp (cmp_desc (val a) (val b)) (or_cmp (localeCompare env (key a) (key b)) (cmp_desc (idx b) (idx a))))"

definition node_fill :: "flow_env \<Rightarrow> json \<Rightarrow> jsstr" where
  "node_fill env datum = json_str (sankeyDatumValue datum (js ''color'')) (colorAt env 0 None)"

definition node_fillOpacity :: "json \<Rightarrow> number" where
  "node_fillOpacity datum = (if sankeyDatumFlag datum (js ''dimmed'') then round_num (18 / 100)
     else if sankeyDatumFlag datum (js ''highlighted'') then Fin 1 else round_num (92 / 100))"

definition node_stroke :: "json \<Rightarrow> jsstr" where
  "node_stroke datum = (if sankeyDatumFlag datum (js ''highlighted'') then js ''rgba(15, 23, 42, 0.74)'' else js ''rgba(148, 163, 184, 0.45)'')"

definition node_lineWidth :: "json \<Rightarrow> number" where
  "node_lineWidth datum = (if sankeyDatumFlag datum (js ''highlighted'') then Fin (3 / 2) else Fin 1)"

text \<open>\<open>a ?? b\<close> on JSON data.\<close>

definition nullish :: "json option \<Rightarrow> json option \<Rightarrow> json option" where
  "nullish a b = (if a = None \<or> a = Some JNull then b else a)"

definition link_fill :: "flow_env \<Rightarrow> json \<Rightarrow> jsstr" where
  "link_fill env datum = json_str (nullish (sankeyDatumValue datum (js ''linkColor'')) (sankeyDatumValue datum (js ''color''))) (colorAt env 0 None)"

definition link_hover_fill :: "flow_env \<Rightarrow> json \<Rightarrow> jsstr" where
  "link_hover_fill env datum = json_str (nullish (sankeyDatumValue datum (js ''hoverColor'')) (sankeyDatumValue datum (js ''color''))) (colorAt env 0 None)"

definition link_fillOpacity :: "json \<Rightarrow> number" where
  "link_fillOpacity datum = (if sankeyDatumFlag datum (js ''dimmed'') then round_num (8 / 100)
     else if sankeyDatumFlag datum (js ''highlighted'') then round_num (86 / 100)
     else let alpha = json_numberValue (sankeyDatumValue datum (js ''linkAlpha'')) in if num_truthy alpha then alpha else Fin 1)"

definition datum_zIndex :: "json \<Rightarrow> number" where
  "datum_zIndex datum = (case sankeyDatumValue datum (js ''zIndex'') of
       Some z \<Rightarrow> json_numberValue (Some z)
     | None \<Rightarrow> num_sub (Fin 1000000000) (json_numberValue (sankeyDatumValue datum (js ''value''))))"

definition tooltip_visible :: "json \<Rightarrow> bool" where
  "tooltip_visible datum \<longleftrightarrow> isSankeyLinkDatum datum \<or> sankeyDatumValue datum (js ''key'') \<noteq> None"

definition tooltip_title :: "json \<Rightarrow> jsstr" where
  "tooltip_title datum =
     (let source = sankeyDatumValue datum (js ''source''); target = sankeyDatumValue datum (js ''target'') in
      if json_truthy source \<and> json_truthy target
      then json_str (nullish (sankeyDatumValue datum (js ''sourceLabel'')) source) []
           @ js '' -> '' @ json_str (nullish (sankeyDatumValue datum (js ''targetLabel'')) target) []
      else json_str (nullish (sankeyDatumValue datum (js ''name'')) (sankeyDatumValue datum (js ''rawLabel''))) [])"

definition tooltip_metric :: "json \<Rightarrow> jsstr \<Rightarrow> number" where
  "tooltip_metric datum key = json_numberValue (sankeyDatumValue datum key)"

text \<open>The lines of a tooltip as label and text; the share is shown when it is positive.\<close>

definition tooltipMetricLines :: "flow_env \<Rightarrow> (number \<Rightarrow> jsstr) \<Rightarrow> jsstr \<times> jsstr \<times> jsstr \<times> jsstr \<Rightarrow> json \<Rightarrow> (jsstr \<times> jsstr) list" where
  "tooltipMetricLines env valueFormatter labels datum = (case labels of (quota, tokens, requests, share) \<Rightarrow>
     [(quota, valueFormatter (tooltip_metric datum (js ''quota''))),
      (tokens, intlFormat env (tooltip_metric datum (js ''tokens''))),
      (requests, intlFormat env (tooltip_metric datum (js ''requests'')))]
     @ (if num_positive (tooltip_metric datum (js ''share''))
        then [(share, fixed_text 1 (num_mul (tooltip_metric datum (js ''share'')) (Fin 100)) @ js ''%'')] else []))"

section \<open>Reading back\<close>

lemma key_neqs:
  "js ''key'' \<noteq> js ''datum''" "js ''kind'' \<noteq> js ''datum''" "js ''source'' \<noteq> js ''datum''" "js ''target'' \<noteq> js ''datum''"
  "js ''key'' \<noteq> js ''depth''" "js ''kind'' \<noteq> js ''depth''" "js ''source'' \<noteq> js ''depth''" "js ''target'' \<noteq> js ''depth''"
  "js ''datum'' \<noteq> js ''depth''"
  by simp_all

lemma sankey_node_get:
  "json_get (sankey_node n) (js ''key'') = Some (JStr (n_id n))"
  "json_get (sankey_node n) (js ''kind'') = Some (JStr (kind_name (n_kind n)))"
  "json_get (sankey_node n) (js ''source'') = None" "json_get (sankey_node n) (js ''target'') = None"
  "json_get (sankey_node n) (js ''datum'') = None" "is_object (Some (sankey_node n))"
  by (simp_all add: sankey_node_def flag_entry_def is_object_def split: option.splits)

lemma sankey_link_get:
  "json_get (sankey_link (i, l)) (js ''source'') = Some (JStr (l_source l))"
  "json_get (sankey_link (i, l)) (js ''target'') = Some (JStr (l_target l))"
  by (simp_all add: sankey_link_def)

lemma kind_read_back: "isFlowNodeKind (Some (JStr (kind_name k))) = Some k"
  by (cases k) (simp_all add: isFlowNodeKind_def FLOW_NODE_KINDS_def)

lemmas datum_defs = flowNodeFilterFromSankeyDatum_def flowSankeyDatumValue_def recordValue_def isSankeyLinkDatum_def
  sankeyDatumValue_def sankeyDatumSource_def or_else_def

text \<open>
  A click on a drawn node selects that node: the datum built for a node is read back as the filter
  with the node's kind and identifier, also when the chart library wraps it in a \<open>datum\<close> field or in an
  array of ancestors at its depth; the datum of a link never gives a node filter.
\<close>

lemma clicked_node_round_trip:
  "flowNodeFilterFromSankeyDatum (Some (sankey_node n)) = Some \<lparr>f_kind = n_kind n, f_id = n_id n\<rparr>
   \<and> flowNodeFilterFromSankeyDatum (Some (JObj [(js ''datum'', sankey_node n)])) = Some \<lparr>f_kind = n_kind n, f_id = n_id n\<rparr>
   \<and> flowNodeFilterFromSankeyDatum (Some (JObj [(js ''depth'', JNum (Fin (of_nat (length before)))), (js ''datum'', JArr (before @ [sankey_node n]))]))
       = Some \<lparr>f_kind = n_kind n, f_id = n_id n\<rparr>
   \<and> flowNodeFilterFromSankeyDatum (Some (sankey_link (i, l))) = None"
proof (intro conjI)
  show "flowNodeFilterFromSankeyDatum (Some (sankey_node n)) = Some \<lparr>f_kind = n_kind n, f_id = n_id n\<rparr>"
    by (simp add: datum_defs sankey_node_get kind_read_back del: js_Cons js_Nil)
  show "flowNodeFilterFromSankeyDatum (Some (JObj [(js ''datum'', sankey_node n)])) = Some \<lparr>f_kind = n_kind n, f_id = n_id n\<rparr>"
    by (cases "sankey_node n")
      (use sankey_node_get[of n] in \<open>auto simp: datum_defs is_object_def key_neqs kind_read_back simp del: js_Cons js_Nil\<close>)
  have "json_nth (before @ [sankey_node n]) (Fin (of_nat (length before))) = Some (sankey_node n)"
    by (simp add: json_nth_def num_is_integer_def is_finite_def num_val_def)
  then show "flowNodeFilterFromSankeyDatum (Some (JObj [(js ''depth'', JNum (Fin (of_nat (length before)))), (js ''datum'', JArr (before @ [sankey_node n]))]))
       = Some \<lparr>f_kind = n_kind n, f_id = n_id n\<rparr>"
    using sankey_node_get[of n]
    by (simp add: datum_defs is_object_def key_neqs key_neqs[symmetric] kind_read_back json_numberValue_def json_toNumber_def is_finite_def
        del: js_Cons js_Nil)
  show "flowNodeFilterFromSankeyDatum (Some (sankey_link (i, l))) = None"
    by (simp add: datum_defs sankey_link_get del: js_Cons js_Nil)
qed

end
