(* ===== verification/JsRegex.thy ===== *)
theory JsRegex
  imports JsText
begin

text \<open>
  Regular expressions of JavaScript, as far as the sources use them: character classes, literals, greedy
  repetition, options, captures, back references, anchors (\<open>RBolM\<close> and \<open>REolM\<close> with the flag \<open>m\<close>) and word boundaries.  \<open>re_step\<close> lists the ways a
  pattern can match at a position, in the order in which the backtracking matcher of ECMAScript tries them;
  the match is the first one.  No capture occurs under a repetition in the sources, so captures need no reset.
\<close>

section \<open>Patterns\<close>

datatype regex =
    RCh "code_unit \<Rightarrow> bool"
  | RLit jsstr
  | RSeq regex regex
  | RAlt regex regex
  | RStar regex
  | ROpt regex
  | RCap nat regex
  | RRef nat
  | RBol
  | REol
  | RBolM
  | REolM
  | RWordB

definition RPlus :: "regex \<Rightarrow> regex" where
  "RPlus r = RSeq r (RStar r)"

fun rseq :: "regex list \<Rightarrow> regex" where
  "rseq [] = RLit []"
| "rseq [r] = r"
| "rseq (r # rs) = RSeq r (rseq rs)"

fun ralt :: "regex list \<Rightarrow> regex" where
  "ralt [] = RCh (\<lambda>_. False)"
| "ralt [r] = r"
| "ralt (r # rs) = RAlt r (ralt rs)"

text \<open>\<open>\s*\<close>, \<open>[\d.eE+-]+\<close>, \<open>[\d.eE+]+\<close>, \<open>[^"]\<close> and the dot.\<close>

definition RSpaces :: regex where
  "RSpaces = RStar (RCh is_space)"

definition num_char :: "code_unit \<Rightarrow> bool" where
  "num_char c \<longleftrightarrow> is_digit c \<or> c \<in> {46, 101, 69, 43, 45}"

definition pos_num_char :: "code_unit \<Rightarrow> bool" where
  "pos_num_char c \<longleftrightarrow> is_digit c \<or> c \<in> {46, 101, 69, 43}"

definition not_quote :: "code_unit \<Rightarrow> bool" where
  "not_quote c \<longleftrightarrow> c \<noteq> 34"

definition dot :: "code_unit \<Rightarrow> bool" where
  "dot c \<longleftrightarrow> c \<notin> {10, 13, 8232, 8233}"

definition is_word :: "code_unit \<Rightarrow> bool" where
  "is_word c \<longleftrightarrow> is_digit c \<or> (97 \<le> c \<and> c \<le> 122) \<or> (65 \<le> c \<and> c \<le> 90) \<or> c = 95"

section \<open>Matching\<close>

record re_state =
  rs_prev :: "code_unit option"
  rs_rest :: jsstr
  rs_caps :: "(nat \<times> jsstr) list"

text \<open>The state after consuming the next \<open>n\<close> units.\<close>

definition re_advance :: "nat \<Rightarrow> re_state \<Rightarrow> re_state" where
  "re_advance n st = (if n = 0 then st else
     st\<lparr>rs_prev := Some (rs_rest st ! (n - 1)), rs_rest := drop n (rs_rest st)\<rparr>)"

text \<open>Greedy repetition; an iteration that consumes nothing is rejected.\<close>

fun re_star :: "nat \<Rightarrow> (re_state \<Rightarrow> re_state list) \<Rightarrow> re_state \<Rightarrow> re_state list" where
  "re_star 0 f st = [st]"
| "re_star (Suc n) f st =
     concat (map (\<lambda>st'. if length (rs_rest st') < length (rs_rest st) then re_star n f st' else []) (f st)) @ [st]"

definition at_word_boundary :: "re_state \<Rightarrow> bool" where
  "at_word_boundary st \<longleftrightarrow>
     (case rs_prev st of None \<Rightarrow> False | Some c \<Rightarrow> is_word c) \<noteq> (case rs_rest st of [] \<Rightarrow> False | c # _ \<Rightarrow> is_word c)"

primrec re_step :: "regex \<Rightarrow> re_state \<Rightarrow> re_state list" where
  "re_step (RCh p) st = (case rs_rest st of [] \<Rightarrow> [] | c # _ \<Rightarrow> if p c then [re_advance 1 st] else [])"
| "re_step (RLit s) st = (if starts_with (rs_rest st) s then [re_advance (length s) st] else [])"
| "re_step (RSeq r q) st = concat (map (re_step q) (re_step r st))"
| "re_step (RAlt r q) st = re_step r st @ re_step q st"
| "re_step (RStar r) st = re_star (length (rs_rest st)) (re_step r) st"
| "re_step (ROpt r) st = re_step r st @ [st]"
| "re_step (RCap i r) st = map (\<lambda>st'. st'\<lparr>rs_caps :=
       (i, take (length (rs_rest st) - length (rs_rest st')) (rs_rest st)) # rs_caps st'\<rparr>) (re_step r st)"
| "re_step (RRef i) st = (case map_of (rs_caps st) i of
       None \<Rightarrow> [st]
     | Some s \<Rightarrow> if starts_with (rs_rest st) s then [re_advance (length s) st] else [])"
| "re_step RBol st = (if rs_prev st = None then [st] else [])"
| "re_step REol st = (if rs_rest st = [] then [st] else [])"
| "re_step RBolM st = (if (case rs_prev st of None \<Rightarrow> True | Some c \<Rightarrow> \<not> dot c) then [st] else [])"
| "re_step REolM st = (if (case rs_rest st of [] \<Rightarrow> True | c # _ \<Rightarrow> \<not> dot c) then [st] else [])"
| "re_step RWordB st = (if at_word_boundary st then [st] else [])"

text \<open>\<open>re.exec(s)\<close> from a position: the first position with a match, and there the first match.\<close>

fun re_search :: "regex \<Rightarrow> code_unit option \<Rightarrow> jsstr \<Rightarrow> re_state option" where
  "re_search r prev s = (case re_step r \<lparr>rs_prev = prev, rs_rest = s, rs_caps = []\<rparr> of
       st # _ \<Rightarrow> Some st
     | [] \<Rightarrow> (case s of [] \<Rightarrow> None | c # cs \<Rightarrow> re_search r (Some c) cs))"

declare re_search.simps [simp del]

text \<open>\<open>s.match(/^ r/)\<close>: the captures of a match anchored at the start.\<close>

definition re_match :: "regex \<Rightarrow> jsstr \<Rightarrow> (nat \<times> jsstr) list option" where
  "re_match r s = (case re_step r \<lparr>rs_prev = None, rs_rest = s, rs_caps = []\<rparr> of
       st # _ \<Rightarrow> Some (rs_caps st) | [] \<Rightarrow> None)"

text \<open>The matches of a loop over \<open>re.exec\<close> with the flag \<open>g\<close>, for a pattern that consumes something.\<close>

function re_exec_all :: "regex \<Rightarrow> code_unit option \<Rightarrow> jsstr \<Rightarrow> (nat \<times> jsstr) list list" where
  "re_exec_all r prev s = (case re_search r prev s of
       None \<Rightarrow> []
     | Some st \<Rightarrow> rs_caps st # (if length (rs_rest st) < length s then re_exec_all r (rs_prev st) (rs_rest st) else []))"
  by auto
termination by (relation "measure (\<lambda>(r, prev, s). length s)") auto

declare re_exec_all.simps [simp del]

text \<open>The text of capture \<open>i\<close>.\<close>

definition cap :: "nat \<Rightarrow> (nat \<times> jsstr) list \<Rightarrow> jsstr" where
  "cap i caps = (case map_of caps i of Some s \<Rightarrow> s | None \<Rightarrow> [])"

section \<open>Facts about matching\<close>

lemma re_advance_simps [simp]:
  "re_advance 0 st = st" "rs_caps (re_advance n st) = rs_caps st" "rs_rest (re_advance n st) = drop n (rs_rest st)"
  by (simp_all add: re_advance_def)

lemma starts_with_append [simp]: "starts_with (s @ t) s"
  by (simp add: starts_with_iff)

text \<open>The matches of a repeated class: the longest run first, then every shorter one.\<close>

lemma re_star_class:
  "re_star (length (rs_rest st)) (re_step (RCh p)) st
    = map (\<lambda>n. re_advance n st) (rev [0..<Suc (length (takeWhile p (rs_rest st)))])"
proof (induction "rs_rest st" arbitrary: st)
  case Nil
  from Nil[symmetric] show ?case by simp
next
  case (Cons c cs)
  from Cons(2)[symmetric] have rest: "rs_rest st = c # cs" .
  let ?st = "re_advance (Suc 0) st"
  have rest': "rs_rest ?st = cs" by (simp add: rest)
  have adv: "re_advance n ?st = re_advance (Suc n) st" for n
    by (cases n) (simp_all add: re_advance_def rest)
  show ?case
  proof (cases "p c")
    case True
    have "re_star (length cs) (re_step (RCh p)) ?st = map (\<lambda>n. re_advance (Suc n) st) (rev [0..<Suc (length (takeWhile p cs))])"
      using Cons(1)[OF rest'[symmetric]] by (simp add: rest adv)
    moreover have "rev [0..<Suc (Suc (length (takeWhile p cs)))] = map Suc (rev [0..<Suc (length (takeWhile p cs))]) @ [0]"
      by (simp add: rev_map[symmetric] map_Suc_upt upt_conv_Cons del: upt_Suc)
    ultimately show ?thesis using True by (simp add: rest comp_def)
  next
    case False
    then show ?thesis by (simp add: rest)
  qed
qed

lemma re_step_star_class:
  "re_step (RStar (RCh p)) st = map (\<lambda>n. re_advance n st) (rev [0..<Suc (length (takeWhile p (rs_rest st)))])"
  by (simp only: re_step.simps re_star_class)

lemma re_step_plus_class:
  "re_step (RPlus (RCh p)) st = map (\<lambda>n. re_advance n st) (rev [1..<Suc (length (takeWhile p (rs_rest st)))])"
proof (cases "rs_rest st")
  case Nil
  then show ?thesis by (simp add: RPlus_def)
next
  case (Cons c cs)
  have adv: "re_advance n (re_advance (Suc 0) st) = re_advance (Suc n) st" for n
    by (cases n) (simp_all add: re_advance_def Cons)
  show ?thesis
  proof (cases "p c")
    case True
    have "re_step (RPlus (RCh p)) st = re_step (RStar (RCh p)) (re_advance 1 st)"
      using True by (simp add: RPlus_def Cons del: re_step.simps(5))
    also have "\<dots> = map (\<lambda>n. re_advance (Suc n) st) (rev [0..<Suc (length (takeWhile p cs))])"
      unfolding re_step_star_class by (simp add: Cons adv)
    also have "\<dots> = map (\<lambda>n. re_advance n st) (rev (map Suc [0..<Suc (length (takeWhile p cs))]))"
      by (simp add: rev_map comp_def)
    also have "map Suc [0..<Suc (length (takeWhile p cs))] = [1..<Suc (Suc (length (takeWhile p cs)))]"
      by (simp add: map_Suc_upt del: upt_Suc)
    finally show ?thesis using True by (simp add: Cons)
  next
    case False
    then show ?thesis by (simp add: RPlus_def Cons)
  qed
qed

text \<open>
  Symbolic evaluation of a sequence: a literal is consumed or fails, and a captured run of a class that is
  followed by a unit outside the class is the whole run.
\<close>

lemma concat_map_concat: "concat (map f (concat (map g xs))) = concat (map (\<lambda>x. concat (map f (g x))) xs)"
  by (induction xs) auto

lemma re_seq_assoc: "re_step (RSeq (RSeq a b) c) st = re_step (RSeq a (RSeq b c)) st"
proof -
  have "re_step (RSeq b c) = (\<lambda>x. concat (map (re_step c) (re_step b x)))" by (rule ext) simp
  then show ?thesis by (simp only: re_step.simps(3) concat_map_concat)
qed

lemma re_seq_lit: "re_step (RSeq (RLit s) q) st = (if starts_with (rs_rest st) s then re_step q (re_advance (length s) st) else [])"
  by simp

lemma re_seq_alt: "re_step (RSeq (RAlt a b) q) st = re_step (RSeq a q) st @ re_step (RSeq b q) st"
  by simp

lemma re_seq_cap_alt: "re_step (RSeq (RCap i (RAlt a b)) q) st = re_step (RSeq (RCap i a) q) st @ re_step (RSeq (RCap i b) q) st"
  by simp

lemma re_seq_cap_lit:
  "re_step (RSeq (RCap i (RLit s)) q) st = (if starts_with (rs_rest st) s
     then re_step q ((re_advance (length s) st)\<lparr>rs_caps := (i, s) # rs_caps st\<rparr>) else [])"
  by (auto simp: starts_with_iff)

lemma re_seq_ref:
  "re_step (RSeq (RRef i) q) st = (case map_of (rs_caps st) i of
       None \<Rightarrow> re_step q st
     | Some s \<Rightarrow> if starts_with (rs_rest st) s then re_step q (re_advance (length s) st) else [])"
  by (auto split: option.splits)

lemma concat_map_first:
  assumes "\<And>x. x \<in> set xs \<Longrightarrow> f x = []"
  shows "concat (map f (y # xs)) = f y"
  using assms by auto

lemma re_seq_cap_run:
  assumes "\<And>st' c. rs_rest st' \<noteq> [] \<Longrightarrow> p (hd (rs_rest st')) \<Longrightarrow> re_step q st' = []"
  shows "re_step (RSeq (RCap i (RPlus (RCh p))) q) st =
    (let w = takeWhile p (rs_rest st) in
     if w = [] then [] else re_step q ((re_advance (length w) st)\<lparr>rs_caps := (i, w) # rs_caps st\<rparr>))"
proof (cases "takeWhile p (rs_rest st) = []")
  case True
  then show ?thesis by (simp add: re_step_plus_class)
next
  case False
  let ?w = "takeWhile p (rs_rest st)"
  let ?f = "\<lambda>n. re_step q ((re_advance n st)\<lparr>rs_caps := (i, take n (rs_rest st)) # rs_caps st\<rparr>)"
  have len: "length ?w \<le> length (rs_rest st)" by (rule length_takeWhile_le)
  have "re_step (RSeq (RCap i (RPlus (RCh p))) q) st = concat (map ?f (rev [1..<Suc (length ?w)]))"
    unfolding re_step.simps(3,7) re_step_plus_class map_map comp_def
    using len by (intro arg_cong[where f = concat] map_cong) auto
  also have "rev [1..<Suc (length ?w)] = length ?w # rev [1..<length ?w]" using False by (cases "length ?w") auto
  also have "concat (map ?f (length ?w # rev [1..<length ?w])) = ?f (length ?w)"
  proof (rule concat_map_first)
    fix n assume "n \<in> set (rev [1..<length ?w])"
    then have n: "n < length ?w" by simp
    then have "n < length (rs_rest st)" using len by simp
    then have "drop n (rs_rest st) \<noteq> []" "hd (drop n (rs_rest st)) = rs_rest st ! n" by (simp_all add: hd_drop_conv_nth)
    moreover have "p (rs_rest st ! n)" using n by (metis nth_mem set_takeWhileD takeWhile_nth)
    ultimately show "?f n = []" by (intro assms) simp_all
  qed
  finally show ?thesis using False by (simp add: Let_def takeWhile_eq_take[symmetric] flip: takeWhile_eq_take)
qed

lemma re_seq_cap_run_lit:
  "\<not> p c \<Longrightarrow> re_step (RSeq (RCap i (RPlus (RCh p))) (RSeq (RLit (c # l)) q)) st =
    (let w = takeWhile p (rs_rest st) in
     if w = [] then [] else re_step (RSeq (RLit (c # l)) q) ((re_advance (length w) st)\<lparr>rs_caps := (i, w) # rs_caps st\<rparr>))"
  by (rule re_seq_cap_run) (auto simp: neq_Nil_conv)

lemma re_seq_cap_run_eol:
  "re_step (RSeq (RCap i (RPlus (RCh p))) REol) st =
    (let w = takeWhile p (rs_rest st) in
     if w = [] then [] else re_step REol ((re_advance (length w) st)\<lparr>rs_caps := (i, w) # rs_caps st\<rparr>))"
  by (rule re_seq_cap_run) auto

lemma re_seq_star_run:
  assumes "\<And>st'. rs_rest st' \<noteq> [] \<Longrightarrow> p (hd (rs_rest st')) \<Longrightarrow> re_step q st' = []"
  shows "re_step (RSeq (RStar (RCh p)) q) st = re_step q (re_advance (length (takeWhile p (rs_rest st))) st)"
proof -
  let ?w = "takeWhile p (rs_rest st)"
  have len: "length ?w \<le> length (rs_rest st)" by (rule length_takeWhile_le)
  have "re_step (RSeq (RStar (RCh p)) q) st = concat (map (\<lambda>n. re_step q (re_advance n st)) (rev [0..<Suc (length ?w)]))"
    unfolding re_step.simps(3) re_step_star_class map_map comp_def ..
  also have "rev [0..<Suc (length ?w)] = length ?w # rev [0..<length ?w]" by simp
  also have "concat (map (\<lambda>n. re_step q (re_advance n st)) (length ?w # rev [0..<length ?w])) = re_step q (re_advance (length ?w) st)"
  proof (rule concat_map_first)
    fix n assume "n \<in> set (rev [0..<length ?w])"
    then have n: "n < length ?w" by simp
    then have "n < length (rs_rest st)" using len by simp
    then have "drop n (rs_rest st) \<noteq> []" "hd (drop n (rs_rest st)) = rs_rest st ! n" by (simp_all add: hd_drop_conv_nth)
    moreover have "p (rs_rest st ! n)" using n by (metis nth_mem set_takeWhileD takeWhile_nth)
    ultimately show "re_step q (re_advance n st) = []" by (intro assms) simp_all
  qed
  finally show ?thesis .
qed

end
