(* ===== verification/JsJsonParse.thy ===== *)
theory JsJsonParse
  imports JsJson
begin

text \<open>
  \<open>JSON.parse\<close>: the grammar of JSON texts with the values of JsJson.  \<open>None\<close> is a \<open>SyntaxError\<close>.  The
  recursion into arrays and objects carries the length of the text as fuel, which is enough because every
  level consumes a unit.  A repeated key keeps its first position and its last value.
\<close>

section \<open>Lexical level\<close>

definition json_ws :: "code_unit \<Rightarrow> bool" where
  "json_ws c \<longleftrightarrow> c \<in> {32, 9, 10, 13}"

definition skip_ws :: "jsstr \<Rightarrow> jsstr" where
  "skip_ws s = dropWhile json_ws s"

definition json_unescape :: "code_unit \<Rightarrow> code_unit option" where
  "json_unescape c = map_of [(34, 34), (92, 92), (47, 47), (98, 8), (102, 12), (110, 10), (114, 13), (116, 9)] c"

text \<open>The units after an opening quote up to the closing one.\<close>

function json_str_body :: "jsstr \<Rightarrow> (jsstr \<times> jsstr) option" where
  "json_str_body s = (case s of
       [] \<Rightarrow> None
     | c # cs \<Rightarrow>
         if c = 34 then Some ([], cs)
         else if c < 32 then None
         else if c \<noteq> 92 then map_option (\<lambda>(v, r). (c # v, r)) (json_str_body cs)
         else (case cs of
                 [] \<Rightarrow> None
               | e # es \<Rightarrow>
                   if e = 117 then
                     (if length es < 4 \<or> \<not> list_all is_hex (take 4 es) then None
                      else map_option (\<lambda>(v, r). (val_in_base 16 (take 4 es) # v, r)) (json_str_body (drop 4 es)))
                   else (case json_unescape e of
                           None \<Rightarrow> None
                         | Some u \<Rightarrow> map_option (\<lambda>(v, r). (u # v, r)) (json_str_body es))))"
  by auto
termination by (relation "measure length") auto

declare json_str_body.simps [simp del]

definition scan_digits :: "jsstr \<Rightarrow> (jsstr \<times> jsstr) option" where
  "scan_digits s = (let ds = takeWhile is_digit s in if ds = [] then None else Some (ds, dropWhile is_digit s))"

definition scan_json_int :: "jsstr \<Rightarrow> (jsstr \<times> jsstr) option" where
  "scan_json_int s = (case s of c # cs \<Rightarrow> if c = 48 then Some ([48], cs) else scan_digits s | [] \<Rightarrow> None)"

definition scan_json_frac :: "jsstr \<Rightarrow> (jsstr \<times> jsstr) option" where
  "scan_json_frac s = (case s of
       c # cs \<Rightarrow> if c = 46 then map_option (\<lambda>(d, r). (46 # d, r)) (scan_digits cs) else Some ([], s)
     | [] \<Rightarrow> Some ([], []))"

definition scan_json_exp :: "jsstr \<Rightarrow> (jsstr \<times> jsstr) option" where
  "scan_json_exp s = (case s of
       c # cs \<Rightarrow> if c = 101 \<or> c = 69 then
           (let sign = (case cs of d # _ \<Rightarrow> if d = 43 \<or> d = 45 then [d] else [] | [] \<Rightarrow> [])
            in map_option (\<lambda>(d, r). (c # sign @ d, r)) (scan_digits (drop (length sign) cs)))
         else Some ([], s)
     | [] \<Rightarrow> Some ([], []))"

definition scan_json_number :: "jsstr \<Rightarrow> (jsstr \<times> jsstr) option" where
  "scan_json_number s =
     (let sign = (case s of c # _ \<Rightarrow> if c = 45 then [45] else [] | [] \<Rightarrow> [])
      in case scan_json_int (drop (length sign) s) of
           None \<Rightarrow> None
         | Some (i, r) \<Rightarrow> (case scan_json_frac r of
             None \<Rightarrow> None
           | Some (f, r') \<Rightarrow> map_option (\<lambda>(e, r''). (sign @ i @ f @ e, r'')) (scan_json_exp r')))"

section \<open>Values\<close>

definition put_member :: "jsstr \<Rightarrow> json \<Rightarrow> (jsstr \<times> json) list \<Rightarrow> (jsstr \<times> json) list" where
  "put_member k v m = (if k \<in> fst ` set m then map (\<lambda>(x, w). (x, if x = k then v else w)) m else m @ [(k, v)])"

fun json_value :: "nat \<Rightarrow> jsstr \<Rightarrow> (json \<times> jsstr) option"
  and json_elements :: "nat \<Rightarrow> json list \<Rightarrow> jsstr \<Rightarrow> (json \<times> jsstr) option"
  and json_members :: "nat \<Rightarrow> (jsstr \<times> json) list \<Rightarrow> jsstr \<Rightarrow> (json \<times> jsstr) option" where
  "json_value 0 s = None"
| "json_value (Suc n) s = (case skip_ws s of
       [] \<Rightarrow> None
     | c # cs \<Rightarrow>
         if c = 34 then map_option (\<lambda>(v, r). (JStr v, r)) (json_str_body cs)
         else if c = 91 then
           (case skip_ws cs of d # ds \<Rightarrow> if d = 93 then Some (JArr [], ds) else json_elements n [] (d # ds) | [] \<Rightarrow> None)
         else if c = 123 then
           (case skip_ws cs of d # ds \<Rightarrow> if d = 125 then Some (JObj [], ds) else json_members n [] (d # ds) | [] \<Rightarrow> None)
         else if starts_with (c # cs) (js ''true'') then Some (JBool True, drop 3 cs)
         else if starts_with (c # cs) (js ''false'') then Some (JBool False, drop 4 cs)
         else if starts_with (c # cs) (js ''null'') then Some (JNull, drop 3 cs)
         else map_option (\<lambda>(t, r). (JNum (js_Number t), r)) (scan_json_number (c # cs)))"
| "json_elements 0 vs s = None"
| "json_elements (Suc n) vs s = (case json_value n s of
       None \<Rightarrow> None
     | Some (v, r) \<Rightarrow> (case skip_ws r of
           c # cs \<Rightarrow> if c = 44 then json_elements n (vs @ [v]) cs else if c = 93 then Some (JArr (vs @ [v]), cs) else None
         | [] \<Rightarrow> None))"
| "json_members 0 m s = None"
| "json_members (Suc n) m s = (case skip_ws s of
       [] \<Rightarrow> None
     | q # qs \<Rightarrow> if q \<noteq> 34 then None else
         (case json_str_body qs of
            None \<Rightarrow> None
          | Some (k, r) \<Rightarrow> (case skip_ws r of
              c # cs \<Rightarrow> if c \<noteq> 58 then None else
                (case json_value n cs of
                   None \<Rightarrow> None
                 | Some (v, r') \<Rightarrow> (case skip_ws r' of
                     d # ds \<Rightarrow> if d = 44 then json_members n (put_member k v m) ds
                               else if d = 125 then Some (JObj (put_member k v m), ds) else None
                   | [] \<Rightarrow> None))
            | [] \<Rightarrow> None)))"

definition JSON_parse :: "jsstr \<Rightarrow> json option" where
  "JSON_parse s = (case json_value (2 * length s + 2) s of
       None \<Rightarrow> None
     | Some (v, r) \<Rightarrow> if skip_ws r = [] then Some v else None)"

section \<open>Reading back what \<open>JSON.stringify\<close> writes\<close>

lemma hex_digit_hex: "n < 16 \<Longrightarrow> is_hex (hex_digit n)" "n < 16 \<Longrightarrow> digit_val (hex_digit n) = n"
  by (auto simp: hex_digit_def is_hex_def is_digit_def digit_val_def)

lemma hex_digits_sum:
  fixes c :: nat
  shows "4096 * (c div 4096) + 256 * (c div 256 mod 16) + 16 * (c div 16 mod 16) + c mod 16 = c"
proof -
  define x where "x = c div 16"
  define y where "y = x div 16"
  have d: "c div 256 = y" "c div 4096 = y div 16"
    using div_mult2_eq[of c 16 16] div_mult2_eq[of c 256 16] by (simp_all add: x_def y_def)
  have "c = 16 * x + c mod 16" "x = 16 * y + x mod 16" "y = 16 * (y div 16) + y mod 16"
    by (simp_all add: x_def y_def)
  then show ?thesis unfolding d x_def[symmetric] by linarith
qed

lemma unicode_escape_val: "c < 65536 \<Longrightarrow> val_in_base 16 (drop 2 (unicode_escape c)) = c"
  using hex_digits_sum[of c] by (simp add: unicode_escape_def val_in_base_def hex_digit_hex)

lemma json_str_body_unit:
  assumes "c < 65536"
  shows "json_str_body (json_escape_unit c @ t) = map_option (\<lambda>(v, r). (c # v, r)) (json_str_body t)"
proof (cases "c \<in> {8, 9, 10, 12, 13, 34, 92}")
  case True
  then show ?thesis by (subst json_str_body.simps) (auto simp: json_escape_unit_def json_unescape_def)
next
  case False
  show ?thesis
  proof (cases "c < 32 \<or> is_lead c \<or> is_trail c")
    case True
    then have "json_escape_unit c = unicode_escape c" using False by (auto simp: json_escape_unit_def)
    then show ?thesis using unicode_escape_val[OF assms]
      by (subst json_str_body.simps) (simp add: unicode_escape_def hex_digit_hex)
  next
    case plain: False
    then have "json_escape_unit c = [c]" using False by (auto simp: json_escape_unit_def)
    then show ?thesis using False plain by (subst json_str_body.simps) simp
  qed
qed

lemma json_str_body_escape:
  "list_all (\<lambda>c. c < 65536) s \<Longrightarrow> json_str_body (json_escape s @ 34 # t) = Some (s, t)"
proof (induction s rule: json_escape.induct)
  case 1
  then show ?case by (subst json_str_body.simps) simp
next
  case (2 c)
  then show ?case using json_str_body_unit[of c "34 # t"] by (simp add: json_str_body.simps[of "34 # t"])
next
  case (3 c d cs)
  show ?case
  proof (cases "is_lead c \<and> is_trail d")
    case True
    then have "c \<noteq> 34" "c \<noteq> 92" "32 \<le> c" "d \<noteq> 34" "d \<noteq> 92" "32 \<le> d" by (auto simp: is_lead_def is_trail_def)
    then show ?thesis using 3 True by (simp add: json_str_body.simps[of "c # _"] json_str_body.simps[of "d # _"])
  next
    case False
    then show ?thesis using 3 json_str_body_unit[of c] by auto
  qed
qed

lemma JSON_parse_quote: "list_all (\<lambda>c. c < 65536) s \<Longrightarrow> JSON_parse (json_quote s) = Some (JStr s)"
  by (simp add: JSON_parse_def json_quote_def skip_ws_def json_ws_def json_str_body_escape)

end
