(* ===== verification/BillingRules.thy ===== *)
theory BillingRules
  imports JsRegex JsJsonParse JsNumText
begin

text \<open>
  Request rules of a billing expression (features/pricing/lib/billing-expr.ts): conditions on parameters,
  headers and the time of a request that multiply the price.  The editor builds the rule text from groups of
  conditions and reads it back with regular expressions; a billing expression is split into the base price
  and its rules and combined again.  A \<open>SyntaxError\<close> of \<open>JSON.parse\<close> that is not caught is the left
  value of a result.
\<close>

section \<open>Data\<close>

datatype rule_error = SyntaxError

definition MATCH_EQ :: jsstr where "MATCH_EQ = js ''eq''"
definition MATCH_CONTAINS :: jsstr where "MATCH_CONTAINS = js ''contains''"
definition MATCH_GT :: jsstr where "MATCH_GT = js ''gt''"
definition MATCH_GTE :: jsstr where "MATCH_GTE = js ''gte''"
definition MATCH_LT :: jsstr where "MATCH_LT = js ''lt''"
definition MATCH_LTE :: jsstr where "MATCH_LTE = js ''lte''"
definition MATCH_EXISTS :: jsstr where "MATCH_EXISTS = js ''exists''"
definition MATCH_RANGE :: jsstr where "MATCH_RANGE = js ''range''"

lemmas match_defs = MATCH_EQ_def MATCH_CONTAINS_def MATCH_GT_def MATCH_GTE_def MATCH_LT_def MATCH_LTE_def
  MATCH_EXISTS_def MATCH_RANGE_def

definition TIME_FUNCS :: "jsstr list" where
  "TIME_FUNCS = [js ''hour'', js ''minute'', js ''weekday'', js ''month'', js ''day'']"

datatype cond_source = SrcParam | SrcHeader

record ParamHeaderCondition =
  ph_source :: cond_source
  ph_path :: jsstr
  ph_mode :: jsstr
  ph_value :: jsstr

record TimeCondition =
  t_func :: jsstr
  t_zone :: jsstr
  t_mode :: jsstr
  t_value :: jsstr
  t_start :: jsstr
  t_end :: jsstr

datatype RequestCondition = CondTime TimeCondition | CondPH ParamHeaderCondition

record RequestRuleGroup =
  rg_conditions :: "RequestCondition list"
  rg_multiplier :: jsstr

text \<open>\<open>/^-?(?:\d+\.?\d*|\.\d+)(?:[eE][+-]?\d+)?$/\<close>\<close>

definition NUMERIC_LITERAL_REGEX :: regex where
  "NUMERIC_LITERAL_REGEX = rseq
     [ROpt (RLit (js ''-'')),
      RAlt (rseq [RPlus (RCh is_digit), ROpt (RLit (js ''.'')), RStar (RCh is_digit)])
           (rseq [RLit (js ''.''), RPlus (RCh is_digit)]),
      ROpt (rseq [RCh (\<lambda>c. c = 101 \<or> c = 69), ROpt (RCh (\<lambda>c. c = 43 \<or> c = 45)), RPlus (RCh is_digit)]), REol]"

definition is_numeric_literal :: "jsstr \<Rightarrow> bool" where
  "is_numeric_literal s \<longleftrightarrow> re_match NUMERIC_LITERAL_REGEX s \<noteq> None"

section \<open>Splitting\<close>

text \<open>
  The scan of \<open>splitTopLevelMultiply\<close> and \<open>splitTopLevelAnd\<close>: parts between separators \<open>s0 # ss\<close> that are
  outside parentheses.  Quotes are not considered.  \<open>cur\<close> holds the current part in reverse.
\<close>

definition paren_step :: "code_unit \<Rightarrow> int" where
  "paren_step c = (if c = 40 then 1 else if c = 41 then -1 else 0)"

function split_scan :: "code_unit \<Rightarrow> jsstr \<Rightarrow> int \<Rightarrow> jsstr \<Rightarrow> jsstr \<Rightarrow> jsstr list" where
  "split_scan s0 ss depth cur [] = [js_trim (rev cur)]"
| "split_scan s0 ss depth cur (c # cs) =
     (let depth = depth + paren_step c
      in if depth = 0 \<and> starts_with (c # cs) (s0 # ss)
         then js_trim (rev cur) # split_scan s0 ss depth [] (drop (length ss) cs)
         else split_scan s0 ss depth (c # cur) cs)"
  by pat_completeness auto
termination by (relation "measure (\<lambda>(s0, ss, depth, cur, s). length s)") auto

definition splitTopLevelMultiply :: "jsstr \<Rightarrow> jsstr list" where
  "splitTopLevelMultiply expr = filter (\<lambda>p. p \<noteq> []) (split_scan 32 (js ''* '') 0 [] expr)"

definition splitTopLevelAnd :: "jsstr \<Rightarrow> jsstr list" where
  "splitTopLevelAnd expr = filter (\<lambda>p. p \<noteq> []) (split_scan 32 (js ''&& '') 0 [] expr)"

section \<open>Reading conditions\<close>

text \<open>The value is JSON data; \<open>None\<close> is \<open>null\<close>.\<close>

definition parseExprLiteral :: "jsstr \<Rightarrow> json option" where
  "parseExprLiteral raw = (let text = js_trim raw in
     if text = js ''true'' \<or> text = js ''false'' then Some (JStr text)
     else if is_numeric_literal text then Some (JStr text)
     else (case JSON_parse text of None \<Rightarrow> None | Some JNull \<Rightarrow> None | Some v \<Rightarrow> Some v))"

definition time_func_re :: regex where
  "time_func_re = ralt (map RLit TIME_FUNCS)"

definition quoted_re :: "nat \<Rightarrow> regex" where
  "quoted_re i = RCap i (RPlus (RCh not_quote))"

definition number_re :: "nat \<Rightarrow> regex" where
  "number_re i = RCap i (RPlus (RCh num_char))"

definition time_range_parts :: "regex list" where
  \<open>time_range_parts = [RCap 1 time_func_re, RLit (js ''("''), quoted_re 2, RLit (js ''") >= ''), number_re 3,
     RLit (js '' || ''), RRef 1, RLit (js ''("''), RRef 2, RLit (js ''") < ''), number_re 4]\<close>

definition time_range_re :: regex where
  "time_range_re = rseq (time_range_parts @ [REol])"

definition time_range_paren_re :: regex where
  "time_range_paren_re = rseq (RLit (js ''('') # time_range_parts @ [RLit (js '')''), REol])"

definition time_cmp_re :: regex where
  \<open>time_cmp_re = rseq [RCap 1 time_func_re, RLit (js ''("''), quoted_re 2, RLit (js ''") ''),
     RCap 3 (ralt [RLit (js ''==''), RLit (js ''>=''), RLit (js ''<'')]), RLit (js '' ''), number_re 4, REol]\<close>

definition time_range_cond :: "(nat \<times> jsstr) list \<Rightarrow> RequestCondition" where
  "time_range_cond m = CondTime \<lparr>t_func = cap 1 m, t_zone = cap 2 m, t_mode = MATCH_RANGE, t_value = [],
     t_start = cap 3 m, t_end = cap 4 m\<rparr>"

definition tryParseTimeCondition :: "jsstr \<Rightarrow> RequestCondition option" where
  "tryParseTimeCondition expr = (case re_match time_range_re expr of
       Some m \<Rightarrow> Some (time_range_cond m)
     | None \<Rightarrow> (case re_match time_range_paren_re expr of
         Some m \<Rightarrow> Some (time_range_cond m)
       | None \<Rightarrow> (case re_match time_cmp_re expr of
           Some m \<Rightarrow> Some (CondTime \<lparr>t_func = cap 1 m, t_zone = cap 2 m,
             t_mode = (if cap 3 m = js ''=='' then MATCH_EQ else if cap 3 m = js ''>='' then MATCH_GTE else MATCH_LT),
             t_value = cap 4 m, t_start = [], t_end = []\<rparr>)
         | None \<Rightarrow> None)))"

definition header_exists_re :: regex where
  \<open>header_exists_re = rseq [RLit (js ''header("''), quoted_re 1, RLit (js ''") != ""''), REol]\<close>

definition param_exists_re :: regex where
  \<open>param_exists_re = rseq [RLit (js ''param("''), quoted_re 1, RLit (js ''") != nil''), REol]\<close>

text \<open>\<open>"(?:[^"\\]|\\.)*"\<close>\<close>

definition string_literal_re :: regex where
  "string_literal_re = rseq [RLit [34],
     RStar (RAlt (RCh (\<lambda>c. c \<noteq> 34 \<and> c \<noteq> 92)) (RSeq (RLit [92]) (RCh dot))), RLit [34]]"

definition header_contains_re :: regex where
  \<open>header_contains_re = rseq [RLit (js ''has(header("''), quoted_re 1, RLit (js ''"), ''), RCap 2 string_literal_re, RLit (js '')''), REol]\<close>

definition param_contains_re :: regex where
  \<open>param_contains_re = rseq [RLit (js ''param("''), quoted_re 1, RLit (js ''") != nil && has(param("''), quoted_re 2,
     RLit (js ''"), ''), RCap 3 string_literal_re, RLit (js '')''), REol]\<close>

definition param_compare_re :: regex where
  \<open>param_compare_re = rseq [RLit (js ''param("''), quoted_re 1, RLit (js ''") != nil && param("''), quoted_re 2,
     RLit (js ''") ''), RCap 3 (ralt [RLit (js ''>''), RLit (js ''>=''), RLit (js ''<''), RLit (js ''<='')]), RLit (js '' ''), number_re 4, REol]\<close>

definition equals_re :: regex where
  \<open>equals_re = rseq [RCap 1 (ralt [RLit (js ''param''), RLit (js ''header'')]), RLit (js ''("''), quoted_re 2, RLit (js ''") == ''),
     RCap 3 (RPlus (RCh dot)), REol]\<close>

definition compare_mode :: "jsstr \<Rightarrow> jsstr" where
  "compare_mode opr = (if opr = js ''>'' then MATCH_GT else if opr = js ''>='' then MATCH_GTE
     else if opr = js ''<'' then MATCH_LT else MATCH_LTE)"

text \<open>\<open>JSON.parse(m[i]) as string\<close>\<close>

definition parse_operand :: "jsstr \<Rightarrow> (jsstr \<Rightarrow> RequestCondition) \<Rightarrow> (rule_error, RequestCondition option) result" where
  "parse_operand text cond = (case JSON_parse text of
       None \<Rightarrow> Inl SyntaxError
     | Some (JStr v) \<Rightarrow> Inr (Some (cond v))
     | Some w \<Rightarrow> Inr (Some (cond (json_toString w))))"

definition tryParseRequestCondition :: "jsstr \<Rightarrow> (rule_error, RequestCondition option) result" where
  "tryParseRequestCondition expr = (case tryParseTimeCondition expr of Some tc \<Rightarrow> Inr (Some tc) | None \<Rightarrow>
     (case re_match header_exists_re expr of
        Some m \<Rightarrow> Inr (Some (CondPH \<lparr>ph_source = SrcHeader, ph_path = cap 1 m, ph_mode = MATCH_EXISTS, ph_value = []\<rparr>)) | None \<Rightarrow>
     (case re_match param_exists_re expr of
        Some m \<Rightarrow> Inr (Some (CondPH \<lparr>ph_source = SrcParam, ph_path = cap 1 m, ph_mode = MATCH_EXISTS, ph_value = []\<rparr>)) | None \<Rightarrow>
     (case re_match header_contains_re expr of
        Some m \<Rightarrow> parse_operand (cap 2 m)
          (\<lambda>v. CondPH \<lparr>ph_source = SrcHeader, ph_path = cap 1 m, ph_mode = MATCH_CONTAINS, ph_value = v\<rparr>) | None \<Rightarrow>
     (case Option.bind (re_match param_contains_re expr) (\<lambda>m. if cap 1 m = cap 2 m then Some m else None) of
        Some m \<Rightarrow> parse_operand (cap 3 m)
          (\<lambda>v. CondPH \<lparr>ph_source = SrcParam, ph_path = cap 1 m, ph_mode = MATCH_CONTAINS, ph_value = v\<rparr>) | None \<Rightarrow>
     (case Option.bind (re_match param_compare_re expr) (\<lambda>m. if cap 1 m = cap 2 m then Some m else None) of
        Some m \<Rightarrow> Inr (Some (CondPH \<lparr>ph_source = SrcParam, ph_path = cap 1 m, ph_mode = compare_mode (cap 3 m), ph_value = cap 4 m\<rparr>)) | None \<Rightarrow>
     (case re_match equals_re expr of
        Some m \<Rightarrow> (case parseExprLiteral (cap 3 m) of
            None \<Rightarrow> Inr None
          | Some v \<Rightarrow> Inr (Some (CondPH \<lparr>ph_source = (if cap 1 m = js ''header'' then SrcHeader else SrcParam),
              ph_path = cap 2 m, ph_mode = MATCH_EQ, ph_value = json_toString v\<rparr>)))
      | None \<Rightarrow> Inr None)))))))"

section \<open>Reading rules\<close>

text \<open>\<open>/^\((.+) \? ([\d.eE+-]+) : 1\)$/s\<close>\<close>

definition rule_factor_re :: regex where
  "rule_factor_re = rseq [RLit (js ''(''), RCap 1 (RPlus (RCh (\<lambda>_. True))), RLit (js '' ? ''), number_re 2, RLit (js '' : 1)''), REol]"

fun parse_conditions :: "jsstr list \<Rightarrow> (rule_error, RequestCondition list option) result" where
  "parse_conditions [] = Inr (Some [])"
| "parse_conditions (ap # aps) = rbind (tryParseRequestCondition (js_trim ap)) (\<lambda>cond.
     case cond of
       None \<Rightarrow> Inr None
     | Some c \<Rightarrow> rbind (parse_conditions aps) (\<lambda>rest. Inr (map_option (Cons c) rest)))"

definition tryParseRuleGroupFactor :: "jsstr \<Rightarrow> (rule_error, RequestRuleGroup option) result" where
  "tryParseRuleGroupFactor part = (case re_match rule_factor_re part of
       None \<Rightarrow> Inr None
     | Some m \<Rightarrow> rbind (parse_conditions (splitTopLevelAnd (cap 1 m))) (\<lambda>conditions.
         Inr (case conditions of
                None \<Rightarrow> None
              | Some cs \<Rightarrow> if cs = [] then None else Some \<lparr>rg_conditions = cs, rg_multiplier = cap 2 m\<rparr>)))"

fun parse_groups :: "jsstr list \<Rightarrow> (rule_error, RequestRuleGroup list option) result" where
  "parse_groups [] = Inr (Some [])"
| "parse_groups (part # parts) = rbind (tryParseRuleGroupFactor part) (\<lambda>grp.
     case grp of
       None \<Rightarrow> Inr None
     | Some g \<Rightarrow> rbind (parse_groups parts) (\<lambda>rest. Inr (map_option (Cons g) rest)))"

definition tryParseRequestRuleExpr :: "jsstr \<Rightarrow> (rule_error, RequestRuleGroup list option) result" where
  "tryParseRequestRuleExpr expr = (let trimmed = js_trim expr in
     if trimmed = [] then Inr (Some []) else parse_groups (splitTopLevelMultiply trimmed))"

section \<open>Base price and rules\<close>

text \<open>The loop of \<open>hasFullOuterParens\<close>: depth 0 before the last unit fails.\<close>

fun outer_parens_scan :: "int \<Rightarrow> jsstr \<Rightarrow> bool" where
  "outer_parens_scan depth [] = (depth = 0)"
| "outer_parens_scan depth (c # cs) = (let depth = depth + paren_step c in
     if depth = 0 \<and> cs \<noteq> [] then False else outer_parens_scan depth cs)"

definition hasFullOuterParens :: "jsstr \<Rightarrow> bool" where
  "hasFullOuterParens expr \<longleftrightarrow> expr \<noteq> [] \<and> hd expr = 40 \<and> last expr = 41 \<and> outer_parens_scan 0 expr"

function unwrap_loop :: "jsstr \<Rightarrow> jsstr" where
  "unwrap_loop current = (if hasFullOuterParens current then unwrap_loop (js_trim (butlast (tl current))) else current)"
  by auto
termination
proof (relation "measure length")
  fix current assume "hasFullOuterParens current"
  then have "length (butlast (tl current)) < length current" by (cases current) (auto simp: hasFullOuterParens_def)
  then show "(js_trim (butlast (tl current)), current) \<in> measure length"
    using length_js_trim[of "butlast (tl current)"] by simp
qed simp

declare unwrap_loop.simps [simp del]

definition unwrapOuterParens :: "jsstr \<Rightarrow> jsstr" where
  "unwrapOuterParens expr = unwrap_loop (js_trim expr)"

fun partition_parts :: "jsstr list \<Rightarrow> (rule_error, jsstr list \<times> jsstr list) result" where
  "partition_parts [] = Inr ([], [])"
| "partition_parts (part # parts) = rbind (tryParseRequestRuleExpr part) (\<lambda>parsed.
     rbind (partition_parts parts) (\<lambda>(rules, bases).
       Inr (case parsed of
              Some (g # gs) \<Rightarrow> (part # rules, bases)
            | _ \<Rightarrow> (rules, part # bases))))"

text \<open>The pair of \<open>billingExpr\<close> and \<open>requestRuleExpr\<close>.\<close>

definition splitBillingExprAndRequestRules :: "jsstr \<Rightarrow> (rule_error, jsstr \<times> jsstr) result" where
  "splitBillingExprAndRequestRules expr = (let trimmed = js_trim expr in
     if trimmed = [] then Inr ([], [])
     else let parts = splitTopLevelMultiply trimmed in
       if length parts \<le> 1 then Inr (trimmed, [])
       else rbind (partition_parts parts) (\<lambda>(ruleParts, baseParts).
         Inr (if ruleParts = [] \<or> length baseParts \<noteq> 1 then (trimmed, [])
              else (unwrapOuterParens (hd baseParts), js_join (js '' * '') ruleParts))))"

definition combineBillingExpr :: "jsstr \<Rightarrow> jsstr \<Rightarrow> jsstr" where
  "combineBillingExpr baseExpr requestRuleExpr =
     (let base = js_trim baseExpr; rules = js_trim requestRuleExpr in
      if base = [] then [] else if rules = [] then base else js ''('' @ base @ js '') * '' @ rules)"

section \<open>Editing\<close>

definition createEmptyCondition :: ParamHeaderCondition where
  "createEmptyCondition = \<lparr>ph_source = SrcParam, ph_path = [], ph_mode = MATCH_EQ, ph_value = []\<rparr>"

definition createEmptyTimeCondition :: TimeCondition where
  "createEmptyTimeCondition = \<lparr>t_func = js ''hour'', t_zone = js ''Asia/Shanghai'', t_mode = MATCH_GTE, t_value = [], t_start = [], t_end = []\<rparr>"

definition createEmptyRuleGroup :: RequestRuleGroup where
  "createEmptyRuleGroup = \<lparr>rg_conditions = [CondPH createEmptyCondition], rg_multiplier = []\<rparr>"

definition createEmptyTimeRuleGroup :: RequestRuleGroup where
  "createEmptyTimeRuleGroup = \<lparr>rg_conditions = [CondTime createEmptyTimeCondition], rg_multiplier = []\<rparr>"

definition getRequestRuleMatchOptions :: "jsstr \<Rightarrow> (jsstr \<times> jsstr) list" where
  "getRequestRuleMatchOptions source =
     (if source = js ''time'' then
        [(MATCH_EQ, js ''Equals''), (MATCH_GTE, js ''Greater than or equal''), (MATCH_LT, js ''Less than''),
         (MATCH_RANGE, js ''Overnight range'')]
      else let base = [(MATCH_EQ, js ''Equals''), (MATCH_CONTAINS, js ''Contains''), (MATCH_EXISTS, js ''Exists'')]
        in if source = js ''header'' then base
           else base @ [(MATCH_GT, js ''Greater than''), (MATCH_GTE, js ''Greater than or equal''),
                        (MATCH_LT, js ''Less than''), (MATCH_LTE, js ''Less than or equal'')])"

text \<open>A condition as the editor holds it, every field possibly missing.\<close>

record PartialCondition =
  pc_source :: "jsstr option"
  pc_timeFunc :: "jsstr option"
  pc_timezone :: "jsstr option"
  pc_path :: "jsstr option"
  pc_mode :: "jsstr option"
  pc_value :: "jsstr option"
  pc_rangeStart :: "jsstr option"
  pc_rangeEnd :: "jsstr option"

definition text_or :: "jsstr option \<Rightarrow> jsstr \<Rightarrow> jsstr" where
  "text_or s d = (case s of None \<Rightarrow> d | Some t \<Rightarrow> if t = [] then d else t)"

definition text_of :: "jsstr option \<Rightarrow> jsstr" where
  "text_of s = (case s of None \<Rightarrow> [] | Some t \<Rightarrow> t)"

definition isTimeFunc :: "jsstr option \<Rightarrow> bool" where
  "isTimeFunc v = (case v of None \<Rightarrow> False | Some s \<Rightarrow> s \<in> set TIME_FUNCS)"

definition offered_mode :: "jsstr \<Rightarrow> jsstr option \<Rightarrow> jsstr \<Rightarrow> jsstr" where
  "offered_mode source mode d = (case mode of
       Some m \<Rightarrow> if m \<in> set (map fst (getRequestRuleMatchOptions source)) then m else d
     | None \<Rightarrow> d)"

definition normalizeCondition :: "PartialCondition \<Rightarrow> RequestCondition" where
  "normalizeCondition cond =
     (if pc_source cond = Some (js ''time'') then
        CondTime \<lparr>t_func = (if isTimeFunc (pc_timeFunc cond) then text_of (pc_timeFunc cond) else js ''hour''),
          t_zone = text_or (pc_timezone cond) (js ''Asia/Shanghai''),
          t_mode = offered_mode (js ''time'') (pc_mode cond) MATCH_GTE,
          t_value = text_of (pc_value cond), t_start = text_of (pc_rangeStart cond), t_end = text_of (pc_rangeEnd cond)\<rparr>
      else let header = (pc_source cond = Some (js ''header'')) in
        CondPH \<lparr>ph_source = (if header then SrcHeader else SrcParam), ph_path = text_or (pc_path cond) [],
          ph_mode = offered_mode (if header then js ''header'' else js ''param'') (pc_mode cond) MATCH_EQ,
          ph_value = text_of (pc_value cond)\<rparr>)"

fun to_partial :: "RequestCondition \<Rightarrow> PartialCondition" where
  "to_partial (CondTime c) = \<lparr>pc_source = Some (js ''time''), pc_timeFunc = Some (t_func c), pc_timezone = Some (t_zone c), pc_path = None,
     pc_mode = Some (t_mode c), pc_value = Some (t_value c), pc_rangeStart = Some (t_start c), pc_rangeEnd = Some (t_end c)\<rparr>"
| "to_partial (CondPH c) = \<lparr>pc_source = Some (if ph_source c = SrcHeader then js ''header'' else js ''param''), pc_timeFunc = None,
     pc_timezone = None, pc_path = Some (ph_path c), pc_mode = Some (ph_mode c), pc_value = Some (ph_value c),
     pc_rangeStart = None, pc_rangeEnd = None\<rparr>"

section \<open>Writing rules\<close>

definition buildExprLiteral :: "jsstr \<Rightarrow> jsstr \<Rightarrow> jsstr" where
  "buildExprLiteral mode v = (let text = js_trim v in
     if mode = MATCH_CONTAINS then json_quote text
     else if text = js ''true'' \<or> text = js ''false'' then text
     else if is_numeric_literal text then text
     else json_quote text)"

definition buildTimeConditionExpr :: "TimeCondition \<Rightarrow> jsstr" where
  "buildTimeConditionExpr cond = (case normalizeCondition (to_partial (CondTime cond)) of
       CondPH _ \<Rightarrow> []
     | CondTime n \<Rightarrow>
         let fn = t_func n @ js ''('' @ json_quote (t_zone n) @ js '')'' in
         if t_mode n = MATCH_RANGE then
           (let s = js_trim (t_start n); e = js_trim (t_end n) in
            if \<not> is_numeric_literal s \<or> \<not> is_numeric_literal e then []
            else fn @ js '' >= '' @ s @ js '' || '' @ fn @ js '' < '' @ e)
         else let v = js_trim (t_value n) in
           if \<not> is_numeric_literal v then []
           else fn @ js '' '' @ (if t_mode n = MATCH_GTE then js ''>='' else if t_mode n = MATCH_LT then js ''<'' else js ''=='')
                @ js '' '' @ v)"

definition compare_symbol :: "jsstr \<Rightarrow> jsstr" where
  "compare_symbol mode = (if mode = MATCH_GT then js ''>'' else if mode = MATCH_GTE then js ''>=''
     else if mode = MATCH_LT then js ''<'' else js ''<='')"

definition build_ph_expr :: "ParamHeaderCondition \<Rightarrow> jsstr" where
  \<open>build_ph_expr cond = (case normalizeCondition (to_partial (CondPH cond)) of
       CondTime _ \<Rightarrow> []
     | CondPH n \<Rightarrow>
         let path = js_trim (ph_path n) in
         if path = [] then []
         else let header = (ph_source n = SrcHeader);
                  sourceExpr = (if header then js ''header('' else js ''param('') @ json_quote path @ js '')''
           in if ph_mode n = MATCH_EXISTS then sourceExpr @ (if header then js '' != ""'' else js '' != nil'')
              else if ph_mode n = MATCH_CONTAINS then
                (if header then js ''has('' @ sourceExpr @ js '', '' @ buildExprLiteral (ph_mode n) (ph_value n) @ js '')''
                 else sourceExpr @ js '' != nil && has('' @ sourceExpr @ js '', '' @ buildExprLiteral (ph_mode n) (ph_value n) @ js '')'')
              else if ph_mode n \<in> {MATCH_GT, MATCH_GTE, MATCH_LT, MATCH_LTE} then
                (let numText = js_trim (ph_value n) in
                 if \<not> is_numeric_literal numText then []
                 else sourceExpr @ js '' != nil && '' @ sourceExpr @ js '' '' @ compare_symbol (ph_mode n) @ js '' '' @ numText)
              else sourceExpr @ js '' == '' @ buildExprLiteral (ph_mode n) (ph_value n))\<close>

fun buildRequestConditionExpr :: "RequestCondition \<Rightarrow> jsstr" where
  "buildRequestConditionExpr (CondTime c) = buildTimeConditionExpr c"
| "buildRequestConditionExpr (CondPH c) = build_ph_expr c"

definition buildRuleGroupFactor :: "RequestRuleGroup \<Rightarrow> jsstr" where
  "buildRuleGroupFactor grp = (let multiplier = js_trim (rg_multiplier grp) in
     if \<not> is_numeric_literal multiplier then []
     else let condExprs = filter (\<lambda>e. e \<noteq> []) (map buildRequestConditionExpr (rg_conditions grp)) in
       if condExprs = [] then []
       else let combined = (if length condExprs = 1 then hd condExprs
               else js_join (js '' && '') (map (\<lambda>e. if js_includes e (js '' || '') then js ''('' @ e @ js '')'' else e) condExprs))
            in js ''('' @ combined @ js '' ? '' @ multiplier @ js '' : 1)'')"

definition buildRequestRuleExpr :: "RequestRuleGroup list \<Rightarrow> jsstr" where
  "buildRequestRuleExpr groups = js_join (js '' * '') (filter (\<lambda>e. e \<noteq> []) (map buildRuleGroupFactor groups))"

end
