(* ===== verification/RuleRoundTrip.thy ===== *)
theory RuleRoundTrip
  imports BillingRules
begin

text \<open>
  The editor of request rules reads back what it wrote: for groups of readable conditions the text built
  by \<open>buildRequestRuleExpr\<close> parses to the same groups.  The conditions on parameters that the editor offers
  but cannot read back are the subject of the last section.
\<close>

section \<open>Characters a pattern consumes\<close>

primrec re_over :: "(code_unit \<Rightarrow> bool) \<Rightarrow> regex \<Rightarrow> bool" where
  "re_over P (RCh p) = (\<forall>c. p c \<longrightarrow> P c)"
| "re_over P (RLit s) = list_all P s"
| "re_over P (RSeq r q) = (re_over P r \<and> re_over P q)"
| "re_over P (RAlt r q) = (re_over P r \<and> re_over P q)"
| "re_over P (RStar r) = re_over P r"
| "re_over P (ROpt r) = re_over P r"
| "re_over P (RCap i r) = re_over P r"
| "re_over P (RRef i) = False"
| "re_over P RBol = True"
| "re_over P REol = True"
| "re_over P RBolM = True"
| "re_over P REolM = True"
| "re_over P RWordB = True"

definition eats :: "(code_unit \<Rightarrow> bool) \<Rightarrow> re_state \<Rightarrow> re_state \<Rightarrow> bool" where
  "eats P st st' \<longleftrightarrow> (\<exists>w. rs_rest st = w @ rs_rest st' \<and> list_all P w)"

lemma eats_refl [simp]: "eats P st st"
  by (auto simp: eats_def)

lemma eats_trans: "eats P a b \<Longrightarrow> eats P b c \<Longrightarrow> eats P a c"
  unfolding eats_def by (metis append.assoc list_all_append)

lemma re_star_eats:
  assumes "\<forall>st. \<forall>st' \<in> set (f st). eats P st st'"
  shows "st' \<in> set (re_star n f st) \<Longrightarrow> eats P st st'"
  using assms by (induction n arbitrary: st) (auto split: if_splits intro: eats_trans)

lemma re_step_eats: "re_over P r \<Longrightarrow> \<forall>st. \<forall>st' \<in> set (re_step r st). eats P st st'"
proof (induction r)
  case (RCh p)
  have "eats P st st'" if "st' \<in> set (re_step (RCh p) st)" for st st'
  proof (cases "rs_rest st")
    case (Cons c cs)
    then show ?thesis using that RCh by (auto simp: eats_def split: if_splits intro!: exI[of _ "[c]"])
  qed (use that in simp)
  then show ?case by blast
next
  case (RLit s)
  then show ?case by (auto simp: eats_def starts_with_iff)
next
  case (RStar r)
  then show ?case using re_star_eats[of "re_step r" P] by auto
next
  case (RCap i r)
  then show ?case by (auto simp: eats_def)
next
  case (RSeq r q)
  then have "\<forall>st. \<forall>st' \<in> set (re_step r st). eats P st st'" "\<forall>st. \<forall>st' \<in> set (re_step q st). eats P st st'" by simp_all
  then show ?case using eats_trans by (simp, blast)
qed auto

text \<open>A pattern that ends with the anchor \<open>$\<close>.\<close>

fun re_ends :: "regex \<Rightarrow> bool" where
  "re_ends (RSeq r q) = re_ends q"
| "re_ends REol = True"
| "re_ends _ = False"

lemma re_step_ends: "re_ends r \<Longrightarrow> st' \<in> set (re_step r st) \<Longrightarrow> rs_rest st' = []"
  by (induction r arbitrary: st) (auto split: if_splits)

lemma re_match_over:
  assumes "re_match r s = Some m" "re_over P r" "re_ends r"
  shows "list_all P s"
proof -
  let ?st = "\<lparr>rs_prev = None, rs_rest = s, rs_caps = []\<rparr>"
  obtain st' where st': "st' \<in> set (re_step r ?st)"
    using assms(1) by (auto simp: re_match_def simp del: re_step.simps split: list.splits)
  with re_step_eats[OF assms(2)] have "eats P ?st st'" by blast
  then show ?thesis using re_step_ends[OF assms(3) st'] by (auto simp: eats_def)
qed

lemma numeric_literal_chars: "is_numeric_literal s \<Longrightarrow> list_all num_char s"
proof -
  have "re_over num_char NUMERIC_LITERAL_REGEX" "re_ends NUMERIC_LITERAL_REGEX"
    by (simp_all add: NUMERIC_LITERAL_REGEX_def RPlus_def num_char_def)
  then show "is_numeric_literal s \<Longrightarrow> ?thesis" unfolding is_numeric_literal_def using re_match_over by blast
qed

lemma not_numeric_literal: "\<not> is_numeric_literal []" "\<not> is_digit c \<Longrightarrow> c \<noteq> 45 \<Longrightarrow> c \<noteq> 46 \<Longrightarrow> \<not> is_numeric_literal (c # cs)"
  by (simp_all add: is_numeric_literal_def re_match_def NUMERIC_LITERAL_REGEX_def RPlus_def)

section \<open>Readable texts\<close>

text \<open>A unit that is copied by \<open>JSON.stringify\<close> and means nothing to the splitters.\<close>

definition safe_char :: "code_unit \<Rightarrow> bool" where
  "safe_char c \<longleftrightarrow> 32 \<le> c \<and> c < 55296 \<and> c \<notin> {34, 92, 40, 41, 38, 42, 124, 8232, 8233}"

definition safe_text :: "jsstr \<Rightarrow> bool" where
  "safe_text s \<longleftrightarrow> js_trim s = s \<and> list_all safe_char s"

lemma safe_escape: "list_all safe_char s \<Longrightarrow> json_escape s = s"
  by (induction s rule: json_escape.induct) (auto simp: safe_char_def json_escape_unit_def is_lead_def is_trail_def)

lemma safe_quote: "list_all safe_char s \<Longrightarrow> json_quote s = 34 # s @ [34]"
  by (simp add: json_quote_def safe_escape)

lemma num_char_safe: "num_char c \<Longrightarrow> safe_char c \<and> \<not> is_space c"
  by (auto simp: num_char_def safe_char_def is_digit_def is_space_def)

lemma numeric_literal_text:
  assumes "is_numeric_literal s"
  shows "s \<noteq> []" "list_all num_char s" "safe_text s"
proof -
  show s: "list_all num_char s" by (rule numeric_literal_chars[OF assms])
  show "s \<noteq> []" using assms not_numeric_literal(1) by metis
  have "list_all (\<lambda>c. safe_char c \<and> \<not> is_space c) s"
    using s by (rule list.pred_mono_strong) (rule num_char_safe)
  then have "list_all safe_char s" "list_all (\<lambda>c. \<not> is_space c) s" by (simp_all add: list_all_iff)
  then show "safe_text s" by (simp add: safe_text_def js_trim_no_space)
qed

lemma run_stop: "list_all P w \<Longrightarrow> \<not> P c \<Longrightarrow> takeWhile P (w @ c # t) = w"
  by (induction w) auto

lemma run_end: "list_all P w \<Longrightarrow> takeWhile P w = w"
  by (induction w) auto

lemma safe_not_quote: "list_all safe_char s \<Longrightarrow> list_all not_quote s" "list_all safe_char s \<Longrightarrow> list_all dot s"
  by (rule list.pred_mono_strong, assumption, simp add: safe_char_def not_quote_def)
    (rule list.pred_mono_strong, assumption, auto simp: safe_char_def dot_def)

section \<open>Reading single conditions\<close>

lemmas re_eval = re_seq_assoc re_seq_lit re_seq_alt re_seq_cap_alt re_seq_cap_lit re_seq_ref re_seq_cap_run_lit re_seq_cap_run_eol
lemmas re_defs = re_match_def time_range_re_def time_range_paren_re_def time_cmp_re_def time_range_parts_def time_func_re_def TIME_FUNCS_def
  header_exists_re_def param_exists_re_def header_contains_re_def param_contains_re_def param_compare_re_def equals_re_def quoted_re_def number_re_def
lemmas re_raw = re_step.simps(1-8)

lemma not_quote_34 [simp]: "\<not> not_quote 34" by (simp add: not_quote_def)
lemma num_char_stops [simp]: "\<not> num_char 32" "\<not> num_char 41" by (simp_all add: num_char_def is_digit_def)

lemma header_exists:
  assumes "list_all not_quote path" "path \<noteq> []"
  shows \<open>tryParseRequestCondition (js ''header("'' @ path @ js ''") != ""'')
    = Inr (Some (CondPH \<lparr>ph_source = SrcHeader, ph_path = path, ph_mode = MATCH_EXISTS, ph_value = []\<rparr>))\<close>
  using assms by (simp add: tryParseRequestCondition_def tryParseTimeCondition_def re_defs re_eval run_stop cap_def Let_def del: re_raw)

lemma param_exists:
  assumes "list_all not_quote path" "path \<noteq> []"
  shows \<open>tryParseRequestCondition (js ''param("'' @ path @ js ''") != nil'')
    = Inr (Some (CondPH \<lparr>ph_source = SrcParam, ph_path = path, ph_mode = MATCH_EXISTS, ph_value = []\<rparr>))\<close>
  using assms by (simp add: tryParseRequestCondition_def tryParseTimeCondition_def re_defs re_eval run_stop cap_def Let_def del: re_raw)

lemma equals_read:
  assumes "list_all not_quote path" "path \<noteq> []" "list_all dot text" "text \<noteq> []" "parseExprLiteral text = Some v"
  shows \<open>tryParseRequestCondition ((if header then js ''header'' else js ''param'') @ js ''("'' @ path @ js ''") == '' @ text)
    = Inr (Some (CondPH \<lparr>ph_source = (if header then SrcHeader else SrcParam), ph_path = path, ph_mode = MATCH_EQ, ph_value = json_toString v\<rparr>))\<close>
  using assms by (simp add: tryParseRequestCondition_def tryParseTimeCondition_def re_defs re_eval run_stop run_end cap_def Let_def del: re_raw)

lemma time_func_cases: "f \<in> set TIME_FUNCS \<Longrightarrow> f = js ''hour'' \<or> f = js ''minute'' \<or> f = js ''weekday'' \<or> f = js ''month'' \<or> f = js ''day''"
  by (auto simp: TIME_FUNCS_def)

lemma time_range:
  assumes "f \<in> set TIME_FUNCS" "list_all not_quote z" "z \<noteq> []" "list_all num_char s" "s \<noteq> []" "list_all num_char e" "e \<noteq> []"
  shows \<open>tryParseTimeCondition (f @ js ''("'' @ z @ js ''") >= '' @ s @ js '' || '' @ f @ js ''("'' @ z @ js ''") < '' @ e)
    = Some (CondTime \<lparr>t_func = f, t_zone = z, t_mode = MATCH_RANGE, t_value = [], t_start = s, t_end = e\<rparr>)\<close>
  using time_func_cases[OF assms(1)] assms(2-)
  by (elim disjE) (simp_all add: tryParseTimeCondition_def re_defs re_eval run_stop run_end cap_def Let_def time_range_cond_def del: re_raw)

lemma time_range_paren:
  assumes "f \<in> set TIME_FUNCS" "list_all not_quote z" "z \<noteq> []" "list_all num_char s" "s \<noteq> []" "list_all num_char e" "e \<noteq> []"
  shows \<open>tryParseTimeCondition (js ''('' @ f @ js ''("'' @ z @ js ''") >= '' @ s @ js '' || '' @ f @ js ''("'' @ z @ js ''") < '' @ e @ js '')'')
    = Some (CondTime \<lparr>t_func = f, t_zone = z, t_mode = MATCH_RANGE, t_value = [], t_start = s, t_end = e\<rparr>)\<close>
  using time_func_cases[OF assms(1)] assms(2-)
  by (elim disjE) (simp_all add: tryParseTimeCondition_def re_defs re_eval run_stop run_end cap_def Let_def time_range_cond_def del: re_raw)

lemma time_compare:
  assumes "f \<in> set TIME_FUNCS" "list_all not_quote z" "z \<noteq> []" "list_all num_char v" "v \<noteq> []" "mode \<in> {MATCH_EQ, MATCH_GTE, MATCH_LT}"
  shows \<open>tryParseTimeCondition (f @ js ''("'' @ z @ js ''") '' @ (if mode = MATCH_GTE then js ''>='' else if mode = MATCH_LT then js ''<'' else js ''=='') @ js '' '' @ v)
    = Some (CondTime \<lparr>t_func = f, t_zone = z, t_mode = mode, t_value = v, t_start = [], t_end = []\<rparr>)\<close>
proof -
  have m: "mode = MATCH_EQ \<or> mode = MATCH_GTE \<or> mode = MATCH_LT" using assms(6) by simp
  show ?thesis
  using time_func_cases[OF assms(1)] m assms(2-5)
  by (elim disjE) (simp_all add: match_defs tryParseTimeCondition_def re_defs re_eval run_stop run_end cap_def Let_def del: re_raw)
qed

lemma re_star_no_escape:
  "92 \<notin> set (rs_rest st) \<Longrightarrow> re_star n (re_step (RAlt (RCh p) (RSeq (RLit [92]) q))) st = re_star n (re_step (RCh p)) st"
proof (induction n arbitrary: st)
  case (Suc n)
  have "re_step (RAlt (RCh p) (RSeq (RLit [92]) q)) st = re_step (RCh p) st"
    using Suc.prems by (cases "rs_rest st") auto
  moreover have "re_star n (re_step (RAlt (RCh p) (RSeq (RLit [92]) q))) (re_advance 1 st) = re_star n (re_step (RCh p)) (re_advance 1 st)"
    using Suc.prems by (intro Suc.IH) (auto dest: in_set_dropD)
  moreover have "re_step (RCh p) st = [] \<or> re_step (RCh p) st = [re_advance 1 st]" by (simp split: list.splits)
  ultimately show ?case unfolding re_star.simps(2) by (elim disjE) (simp_all del: re_step.simps)
qed simp

lemma string_literal_step:
  assumes "rs_rest st = 34 # v @ 34 # t" "34 \<notin> set v" "92 \<notin> set v" "92 \<notin> set t"
  shows "re_step (RSeq (RCap i string_literal_re) q) st
    = re_step q ((re_advance (Suc 0) (re_advance (length v) (re_advance (Suc 0) st)))\<lparr>rs_caps := (i, 34 # v @ [34]) # rs_caps st\<rparr>)"
proof -
  let ?p = "\<lambda>c. c \<noteq> 34 \<and> c \<noteq> (92::nat)"
  let ?st = "re_advance (Suc 0) st"
  have rest: "rs_rest ?st = v @ 34 # t" using assms(1) by simp
  have "re_step (RStar (RAlt (RCh ?p) (RSeq (RLit [92]) (RCh dot)))) ?st = re_step (RStar (RCh ?p)) ?st"
    unfolding re_step.simps(5) by (rule re_star_no_escape) (use assms rest in auto)
  then have "re_step (RSeq (RStar (RAlt (RCh ?p) (RSeq (RLit [92]) (RCh dot)))) (RLit [34])) ?st = re_step (RSeq (RStar (RCh ?p)) (RLit [34])) ?st"
    by (simp only: re_step.simps(3))
  also have "\<dots> = re_step (RLit [34]) (re_advance (length (takeWhile ?p (rs_rest ?st))) ?st)"
    by (rule re_seq_star_run) (auto simp: neq_Nil_conv)
  also have "takeWhile ?p (rs_rest ?st) = v" using assms(2,3) unfolding rest by (intro run_stop) (auto simp: list_all_iff)
  also have "re_step (RLit [34]) (re_advance (length v) ?st) = [re_advance (Suc 0) (re_advance (length v) ?st)]"
    using rest by simp
  finally have star: "re_step (RSeq (RStar (RAlt (RCh ?p) (RSeq (RLit [92]) (RCh dot)))) (RLit [34])) ?st
      = [re_advance (Suc 0) (re_advance (length v) ?st)]" .
  have "re_step string_literal_re st = [re_advance (Suc 0) (re_advance (length v) ?st)]"
    unfolding string_literal_re_def rseq.simps re_seq_lit using assms(1) star by (simp del: re_raw)
  then show ?thesis unfolding re_step.simps(3,7) using assms(1) by (simp del: re_step.simps)
qed

lemma safe_notin: "list_all P v \<Longrightarrow> \<not> P c \<Longrightarrow> c \<notin> set v"
  by (auto simp: list_all_iff)

lemma unsafe_chars [simp]: "\<not> safe_char 34" "\<not> safe_char 92" "\<not> safe_char 40" "\<not> safe_char 41" "\<not> safe_char 38"
  "\<not> safe_char 42" "\<not> safe_char 124"
  by (simp_all add: safe_char_def)

lemma safe_units: "list_all safe_char v \<Longrightarrow> list_all (\<lambda>c. c < 65536) v"
  by (rule list.pred_mono_strong, assumption) (simp add: safe_char_def)

lemma header_contains:
  assumes "list_all not_quote path" "path \<noteq> []" "list_all safe_char v"
  shows \<open>tryParseRequestCondition (js ''has(header("'' @ path @ js ''"), '' @ json_quote v @ js '')'')
    = Inr (Some (CondPH \<lparr>ph_source = SrcHeader, ph_path = path, ph_mode = MATCH_CONTAINS, ph_value = v\<rparr>))\<close>
proof -
  have v: "34 \<notin> set v" "92 \<notin> set v" "list_all (\<lambda>c. c < 65536) v" using assms(3) safe_notin[OF assms(3)] safe_units by simp_all
  have parse: "JSON_parse (34 # v @ [34]) = Some (JStr v)" using JSON_parse_quote[OF v(3)] safe_quote[OF assms(3)] by simp
  show ?thesis using assms v(1,2) parse
  by (simp add: safe_quote tryParseRequestCondition_def tryParseTimeCondition_def re_defs re_eval run_stop string_literal_step[of _ v "[41]"]
    cap_def parse_operand_def Let_def del: re_raw)
qed
end
