(* ===== verification/RuleGroups.thy ===== *)
theory RuleGroups
  imports RuleRoundTrip
begin

text \<open>
  Groups of request rules: what \<open>buildRequestRuleExpr\<close> writes for readable conditions is split at the same
  places and read back as the same groups, and the conditions on parameters that the editor offers but
  cannot read back.
\<close>

section \<open>Readable conditions\<close>

fun readable :: "RequestCondition \<Rightarrow> bool" where
  "readable (CondTime c) \<longleftrightarrow> t_func c \<in> set TIME_FUNCS \<and> t_zone c \<noteq> [] \<and> list_all safe_char (t_zone c)
     \<and> ((t_mode c = MATCH_RANGE \<and> t_value c = [] \<and> is_numeric_literal (t_start c) \<and> is_numeric_literal (t_end c))
        \<or> (t_mode c \<in> {MATCH_EQ, MATCH_GTE, MATCH_LT} \<and> is_numeric_literal (t_value c) \<and> t_start c = [] \<and> t_end c = []))"
| "readable (CondPH c) \<longleftrightarrow> ph_path c \<noteq> [] \<and> safe_text (ph_path c) \<and> safe_text (ph_value c)
     \<and> ((ph_mode c = MATCH_EXISTS \<and> ph_value c = []) \<or> (ph_mode c = MATCH_CONTAINS \<and> ph_source c = SrcHeader) \<or> ph_mode c = MATCH_EQ)"

lemma normalize_time: "readable (CondTime c) \<Longrightarrow> normalizeCondition (to_partial (CondTime c)) = CondTime c"
  by (auto simp: normalizeCondition_def isTimeFunc_def text_of_def text_or_def offered_mode_def getRequestRuleMatchOptions_def match_defs)

lemma normalize_ph: "readable (CondPH c) \<Longrightarrow> normalizeCondition (to_partial (CondPH c)) = CondPH c"
  by (cases "ph_source c") (auto simp: normalizeCondition_def text_of_def text_or_def offered_mode_def getRequestRuleMatchOptions_def match_defs Let_def)

definition paren_sum :: "jsstr \<Rightarrow> int" where
  "paren_sum s = sum_list (map paren_step s)"

lemma paren_sum_simps [simp]:
  "paren_sum [] = 0" "paren_sum (c # s) = paren_step c + paren_sum s" "paren_sum (s @ t) = paren_sum s + paren_sum t"
  by (simp_all add: paren_sum_def)

lemma paren_step_safe: "safe_char c \<Longrightarrow> paren_step c = 0"
  by (auto simp: paren_step_def)

lemma paren_sum_safe: "list_all safe_char s \<Longrightarrow> paren_sum s = 0"
  by (induction s) (auto simp: paren_step_safe)

text \<open>A text that the splitters keep in one piece.\<close>

definition quiet :: "jsstr \<Rightarrow> bool" where
  "quiet s \<longleftrightarrow> paren_sum s = 0 \<and> 38 \<notin> set s \<and> 42 \<notin> set s"

definition solid :: "jsstr \<Rightarrow> bool" where
  "solid e \<longleftrightarrow> e \<noteq> [] \<and> js_trim e = e \<and> quiet e"

lemma quiet_append: "quiet s \<Longrightarrow> quiet t \<Longrightarrow> quiet (s @ t)"
  by (simp add: quiet_def)

lemma quiet_safe: "list_all safe_char s \<Longrightarrow> quiet s"
  by (simp add: quiet_def paren_sum_safe safe_notin)

lemma solid_ends: "quiet e \<Longrightarrow> e \<noteq> [] \<Longrightarrow> \<not> is_space (hd e) \<Longrightarrow> \<not> is_space (last e) \<Longrightarrow> solid e"
  by (simp add: solid_def js_trim_id)

lemma space_ends [simp]: "\<not> is_space 34" "\<not> is_space 40" "\<not> is_space 41" "\<not> is_space 108"
  by (simp_all add: is_space_def)

lemma build_eq_literal:
  assumes "safe_text v"
  shows "(\<exists>w. parseExprLiteral (buildExprLiteral MATCH_EQ v) = Some w \<and> json_toString w = v)
    \<and> buildExprLiteral MATCH_EQ v \<noteq> [] \<and> list_all dot (buildExprLiteral MATCH_EQ v) \<and> quiet (buildExprLiteral MATCH_EQ v)
    \<and> 124 \<notin> set (buildExprLiteral MATCH_EQ v) \<and> \<not> is_space (last (buildExprLiteral MATCH_EQ v))"
proof -
  have v: "js_trim v = v" "list_all safe_char v" using assms by (simp_all add: safe_text_def)
  have lit: "buildExprLiteral MATCH_EQ v = (if v = js ''true'' \<or> v = js ''false'' then v else if is_numeric_literal v then v else 34 # v @ [34])"
    by (simp add: buildExprLiteral_def v safe_quote match_defs Let_def)
  consider "v = js ''true'' \<or> v = js ''false''" | "\<not> (v = js ''true'' \<or> v = js ''false'')" "is_numeric_literal v"
    | "\<not> (v = js ''true'' \<or> v = js ''false'')" "\<not> is_numeric_literal v" by blast
  then show ?thesis
  proof cases
    case 1
    have lit1: "buildExprLiteral MATCH_EQ v = v" unfolding lit using 1 by (rule if_P)
    have "parseExprLiteral v = Some (JStr v)" unfolding parseExprLiteral_def Let_def v(1) using 1 by (rule if_P)
    moreover have "v \<noteq> []" "last v = 101" using 1 by auto
    ultimately show ?thesis unfolding lit1 using quiet_safe[OF v(2)] safe_not_quote(2)[OF v(2)] safe_notin[OF v(2)]
      by (simp add: is_space_def)
  next
    case 2
    note num = numeric_literal_text[OF 2(2)]
    have "num_char (last v)" using num(1,2) by (simp add: list_all_iff)
    then show ?thesis using 2 num v quiet_safe[OF v(2)] safe_not_quote(2)[OF v(2)] safe_notin[OF v(2)] num_char_safe
      by (simp add: lit parseExprLiteral_def Let_def)
  next
    case 3
    have "js_trim (34 # v @ [34]) = 34 # v @ [34]" by (rule js_trim_id) simp
    moreover have "JSON_parse (34 # v @ [34]) = Some (JStr v)" using JSON_parse_quote[OF safe_units[OF v(2)]] safe_quote[OF v(2)] by simp
    moreover have "\<not> is_numeric_literal (34 # v @ [34])" by (rule not_numeric_literal(2)) (simp_all add: is_digit_def)
    moreover have "quiet (34 # v @ [34])" using quiet_safe[OF v(2)] by (simp add: quiet_def paren_step_def)
    ultimately show ?thesis using 3 safe_not_quote(2)[OF v(2)] safe_notin[OF v(2)]
      by (simp add: lit parseExprLiteral_def Let_def dot_def)
  qed
qed

lemma quiet_Cons: "quiet (c # s) \<longleftrightarrow> (c \<noteq> 38 \<and> c \<noteq> 42 \<and> paren_step c + paren_sum s = 0 \<and> 38 \<notin> set s \<and> 42 \<notin> set s)"
  by (auto simp: quiet_def)

lemma includes_chars: "js_includes s t \<Longrightarrow> set t \<subseteq> set s"
proof (induction s)
  case (Cons c s)
  have "starts_with u t \<Longrightarrow> set t \<subseteq> set u" for u by (auto simp: starts_with_iff)
  then show ?case using Cons by fastforce
qed (auto simp: starts_with_iff)

lemma time_func_text: "f \<in> set TIME_FUNCS \<Longrightarrow> list_all safe_char f \<and> f \<noteq> [] \<and> \<not> is_space (hd f)"
  by (auto simp: TIME_FUNCS_def safe_char_def is_space_def)

lemma tryParse_time: "tryParseTimeCondition e = Some tc \<Longrightarrow> tryParseRequestCondition e = Inr (Some tc)"
  by (simp add: tryParseRequestCondition_def)

definition reads_as :: "jsstr \<Rightarrow> RequestCondition \<Rightarrow> bool" where
  "reads_as e c \<longleftrightarrow> solid e \<and> tryParseRequestCondition e = Inr (Some c)"

lemma last_num: "list_all num_char v \<Longrightarrow> v \<noteq> [] \<Longrightarrow> \<not> is_space (last v)"
  using num_char_safe by (simp add: list_all_iff)

lemma time_built:
  assumes "readable (CondTime c)"
  shows "reads_as (buildTimeConditionExpr c) (CondTime c)
    \<and> (js_includes (buildTimeConditionExpr c) (js '' || '') \<longrightarrow> reads_as (js ''('' @ buildTimeConditionExpr c @ js '')'') (CondTime c))"
proof -
  obtain f z where fz: "t_func c = f" "t_zone c = z" "f \<in> set TIME_FUNCS" "z \<noteq> []" "list_all safe_char z" using assms by simp
  note f = time_func_text[OF fz(3)] and zq = safe_not_quote(1)[OF fz(5)]
  note q = conjunct1[OF f, THEN quiet_safe] quiet_safe[OF fz(5)]
  note norm = normalize_time[OF assms]
  consider (range) s e where "t_mode c = MATCH_RANGE" "t_start c = s" "t_end c = e" "t_value c = []" "is_numeric_literal s" "is_numeric_literal e"
    | (cmp) v where "t_mode c \<in> {MATCH_EQ, MATCH_GTE, MATCH_LT}" "t_value c = v" "is_numeric_literal v" "t_start c = []" "t_end c = []"
    using assms by auto
  then show ?thesis
  proof cases
    case range
    note s = numeric_literal_text[OF range(5)] and e = numeric_literal_text[OF range(6)]
    have c: "c = \<lparr>t_func = f, t_zone = z, t_mode = MATCH_RANGE, t_value = [], t_start = s, t_end = e\<rparr>" using fz range by simp
    have trim: "js_trim s = s" "js_trim e = e" using s(3) e(3) by (simp_all add: safe_text_def)
    have shape: \<open>buildTimeConditionExpr c = f @ js ''("'' @ z @ js ''") >= '' @ s @ js '' || '' @ f @ js ''("'' @ z @ js ''") < '' @ e\<close>
      unfolding buildTimeConditionExpr_def norm using range fz(1,2) safe_quote[OF fz(5)] by (simp add: trim Let_def)
    have quiet: "quiet (buildTimeConditionExpr c)" "quiet (js ''('' @ buildTimeConditionExpr c @ js '')'')"
      unfolding shape using q s(3) e(3) quiet_safe[of s] quiet_safe[of e] by (auto simp: quiet_def paren_step_def safe_text_def)
    have "solid (buildTimeConditionExpr c)"
      by (rule solid_ends[OF quiet(1)]) (use f e(1,2) last_num in \<open>simp_all add: shape\<close>)
    moreover have "solid (js ''('' @ buildTimeConditionExpr c @ js '')'')"
      by (rule solid_ends[OF quiet(2)]) simp_all
    ultimately show ?thesis
      using time_range[OF fz(3) zq fz(4) s(2,1) e(2,1), THEN tryParse_time] time_range_paren[OF fz(3) zq fz(4) s(2,1) e(2,1), THEN tryParse_time]
      unfolding reads_as_def shape by (simp add: c)
  next
    case cmp
    note v = numeric_literal_text[OF cmp(3)]
    have c: "c = \<lparr>t_func = f, t_zone = z, t_mode = t_mode c, t_value = v, t_start = [], t_end = []\<rparr>" using fz cmp by simp
    have trim: "js_trim v = v" using v(3) by (simp add: safe_text_def)
    let ?op = "if t_mode c = MATCH_GTE then js ''>='' else if t_mode c = MATCH_LT then js ''<'' else js ''==''"
    have "t_mode c \<noteq> MATCH_RANGE" using cmp(1) by (auto simp: match_defs)
    then have shape: \<open>buildTimeConditionExpr c = f @ js ''("'' @ z @ js ''") '' @ ?op @ js '' '' @ v\<close>
      unfolding buildTimeConditionExpr_def norm using cmp(2,3) fz(1,2) safe_quote[OF fz(5)] by (simp add: trim Let_def)
    have op: "quiet ?op" "124 \<notin> set ?op" by (simp_all add: quiet_def paren_step_def)
    have quiet: "quiet (buildTimeConditionExpr c)"
      unfolding shape using q op(1) v(3) quiet_safe[of v] by (auto simp: quiet_def paren_step_def safe_text_def)
    have "solid (buildTimeConditionExpr c)"
      by (rule solid_ends[OF quiet]) (use f v(1,2) last_num in \<open>simp_all add: shape\<close>)
    moreover have "124 \<notin> set (buildTimeConditionExpr c)"
      unfolding shape using op(2) safe_notin[OF conjunct1[OF f]] safe_notin[OF fz(5)] safe_notin[of safe_char v] v(3) by (auto simp: safe_text_def)
    then have "\<not> js_includes (buildTimeConditionExpr c) (js '' || '')" using includes_chars by fastforce
    ultimately show ?thesis using time_compare[OF fz(3) zq fz(4) v(2,1) cmp(1), THEN tryParse_time]
      unfolding reads_as_def shape using c by simp
  qed
qed

lemma ph_built:
  assumes "readable (CondPH c)"
  shows "reads_as (build_ph_expr c) (CondPH c) \<and> \<not> js_includes (build_ph_expr c) (js '' || '')"
proof -
  obtain path v where pv: "ph_path c = path" "ph_value c = v" "path \<noteq> []" "safe_text path" "safe_text v" using assms by simp
  have path: "js_trim path = path" "list_all safe_char path" and v: "js_trim v = v" "list_all safe_char v"
    using pv(4,5) by (simp_all add: safe_text_def)
  note pq = safe_not_quote(1)[OF path(2)] and norm = normalize_ph[OF assms] and quote = safe_quote[OF path(2)]
  note q = quiet_safe[OF path(2)] quiet_safe[OF v(2)] and pipes = safe_notin[OF path(2)] safe_notin[OF v(2)]
  let ?src = "if ph_source c = SrcHeader then js ''header'' else js ''param''"
  have src: "quiet ?src" "124 \<notin> set ?src" "?src \<noteq> []" "\<not> is_space (hd ?src)" by (simp_all add: quiet_def paren_step_def is_space_def)
  have no_pipe: "124 \<notin> set s \<Longrightarrow> \<not> js_includes s (js '' || '')" for s using includes_chars[of s "js '' || ''"] by auto
  consider (ex) "ph_mode c = MATCH_EXISTS" "v = []" | (has) "ph_mode c = MATCH_CONTAINS" "ph_source c = SrcHeader" | (eq) "ph_mode c = MATCH_EQ"
    using assms pv(2) by auto
  then show ?thesis
  proof cases
    case ex
    have c: "c = \<lparr>ph_source = ph_source c, ph_path = path, ph_mode = MATCH_EXISTS, ph_value = []\<rparr>" using pv ex by simp
    have shape: \<open>build_ph_expr c = ?src @ js ''("'' @ path @ (if ph_source c = SrcHeader then js ''") != ""'' else js ''") != nil'')\<close>
      unfolding build_ph_expr_def norm using pv ex by (simp add: path quote Let_def)
    have "quiet (build_ph_expr c)" "124 \<notin> set (build_ph_expr c)"
      unfolding shape using src q(1) pipes(1) by (auto simp: quiet_def paren_step_def)
    moreover have "build_ph_expr c \<noteq> []" "\<not> is_space (hd (build_ph_expr c))" "\<not> is_space (last (build_ph_expr c))"
      unfolding shape using src by simp_all
    moreover have "tryParseRequestCondition (build_ph_expr c) = Inr (Some (CondPH c))"
      unfolding shape using header_exists[OF pq pv(3)] param_exists[OF pq pv(3)] c by (cases "ph_source c") auto
    ultimately show ?thesis by (simp add: reads_as_def solid_ends no_pipe del: js_Cons js_Nil)
  next
    case has
    have c: "c = \<lparr>ph_source = SrcHeader, ph_path = path, ph_mode = MATCH_CONTAINS, ph_value = v\<rparr>" using pv has by simp
    have shape: \<open>build_ph_expr c = js ''has(header("'' @ path @ js ''"), '' @ json_quote v @ js '')''\<close>
      unfolding build_ph_expr_def norm using pv has by (simp add: path v quote Let_def buildExprLiteral_def match_defs)
    have "quiet (build_ph_expr c)" "124 \<notin> set (build_ph_expr c)"
      unfolding shape safe_quote[OF v(2)] using q pipes by (auto simp: quiet_def paren_step_def)
    moreover have "build_ph_expr c \<noteq> []" "\<not> is_space (hd (build_ph_expr c))" "\<not> is_space (last (build_ph_expr c))"
      unfolding shape by (simp_all add: is_space_def)
    moreover have "tryParseRequestCondition (build_ph_expr c) = Inr (Some (CondPH c))"
      unfolding shape header_contains[OF pq pv(3) v(2)] c[symmetric] ..
    ultimately show ?thesis by (simp add: reads_as_def solid_ends no_pipe del: js_Cons js_Nil)
  next
    case eq
    let ?lit = "buildExprLiteral MATCH_EQ v"
    have lit: "\<exists>w. parseExprLiteral ?lit = Some w \<and> json_toString w = v" "?lit \<noteq> []" "list_all dot ?lit" "quiet ?lit" "124 \<notin> set ?lit"
      "\<not> is_space (last ?lit)" using build_eq_literal[OF pv(5)] by simp_all
    then obtain w where w: "parseExprLiteral ?lit = Some w" "json_toString w = v" by blast
    have c: "c = \<lparr>ph_source = ph_source c, ph_path = path, ph_mode = MATCH_EQ, ph_value = v\<rparr>" using pv eq by simp
    have shape: \<open>build_ph_expr c = ?src @ js ''("'' @ path @ js ''") == '' @ ?lit\<close>
      unfolding build_ph_expr_def norm using pv eq by (simp add: path quote Let_def match_defs)
    have "quiet (build_ph_expr c)" "124 \<notin> set (build_ph_expr c)"
      unfolding shape using src q lit(4,5) pipes(1) by (auto simp: quiet_def paren_step_def)
    moreover have "build_ph_expr c \<noteq> []" "\<not> is_space (hd (build_ph_expr c))" "\<not> is_space (last (build_ph_expr c))"
      unfolding shape using src lit(2,6) by simp_all
    moreover have "tryParseRequestCondition (build_ph_expr c) = Inr (Some (CondPH c))"
      unfolding shape using equals_read[OF pq pv(3) lit(3,2) w(1), of "ph_source c = SrcHeader"] w(2) c
      by (cases "ph_source c") auto
    ultimately show ?thesis by (simp add: reads_as_def solid_ends no_pipe del: js_Cons js_Nil)
  qed
qed

section \<open>Splitting what was joined\<close>

lemma split_scan_quiet:
  assumes "c1 \<notin> set p" "t = [] \<or> hd t \<noteq> c1"
  shows "split_scan s0 (c1 # ss) d cur (p @ t) = split_scan s0 (c1 # ss) (d + paren_sum p) (rev p @ cur) t"
  using assms(1)
proof (induction p arbitrary: d cur)
  case (Cons c p)
  have "\<not> starts_with (c # p @ t) (s0 # c1 # ss)"
    using Cons.prems assms(2) by (cases p; cases t) auto
  then have "split_scan s0 (c1 # ss) d cur ((c # p) @ t) = split_scan s0 (c1 # ss) (d + paren_step c) (c # cur) (p @ t)"
    by (simp only: append_Cons split_scan.simps(2) Let_def simp_thms if_False)
  then show ?case using Cons by (simp add: add.assoc)
qed simp

lemma split_joined:
  assumes "ps \<noteq> []" "\<forall>p \<in> set ps. c1 \<notin> set p \<and> paren_sum p = 0 \<and> js_trim p = p" "s0 \<noteq> c1" "paren_step s0 = 0"
  shows "split_scan s0 (c1 # ss) 0 [] (js_join (s0 # c1 # ss) ps) = ps"
  using assms(1,2)
proof (induction ps)
  case (Cons p ps)
  show ?case
  proof (cases ps)
    case Nil
    then show ?thesis using Cons.prems split_scan_quiet[of c1 p "[]" s0 ss 0 "[]"] by simp
  next
    case (Cons q qs)
    let ?rest = "js_join (s0 # c1 # ss) ps"
    have "split_scan s0 (c1 # ss) 0 [] (p @ s0 # c1 # ss @ ?rest) = split_scan s0 (c1 # ss) 0 (rev p) (s0 # c1 # ss @ ?rest)"
      using Cons.prems assms(3) split_scan_quiet[of c1 p "s0 # c1 # ss @ ?rest" s0 ss 0 "[]"] by simp
    also have "\<dots> = p # split_scan s0 (c1 # ss) 0 [] ?rest" using Cons.prems assms(4) by (simp add: Let_def)
    finally show ?thesis using Cons.IH Cons.prems \<open>ps = q # qs\<close> by simp
  qed
qed simp

lemma split_and_joined:
  "es \<noteq> [] \<Longrightarrow> \<forall>e \<in> set es. solid e \<Longrightarrow> splitTopLevelAnd (js_join (js '' && '') es) = es"
  using split_joined[of es 38 32 "[38, 32]"] by (auto simp: splitTopLevelAnd_def solid_def quiet_def paren_step_def intro!: filter_True)

lemma split_multiply_joined:
  assumes "fs \<noteq> []" "\<forall>f \<in> set fs. f \<noteq> [] \<and> js_trim f = f \<and> 42 \<notin> set f \<and> paren_sum f = 0"
  shows "splitTopLevelMultiply (js_join (js '' * '') fs) = fs"
  using split_joined[of fs 42 32 "[32]"] assms by (auto simp: splitTopLevelMultiply_def paren_step_def intro!: filter_True)

section \<open>Rule factors\<close>

lemma upt_at: "1 \<le> k \<Longrightarrow> k \<le> n \<Longrightarrow> [1..<Suc n] = [1..<k] @ k # [Suc k..<Suc n]"
proof -
  assume k: "1 \<le> k" "k \<le> n"
  then obtain d where "Suc n = k + d" by (metis le_SucI le_Suc_ex)
  then have "[1..<Suc n] = [1..<k] @ [k..<Suc n]" using upt_add_eq_append[OF k(1), of d] by simp
  then show ?thesis using k(2) by (simp add: upt_conv_Cons del: upt_Suc)
qed

lemma first_success:
  assumes "\<And>n. k < n \<Longrightarrow> f n = []" "1 \<le> k" "k \<le> n"
  shows "concat (map f (rev [1..<Suc n])) = f k @ concat (map f (rev [1..<k]))"
proof -
  have "concat (map f (rev [Suc k..<Suc n])) = []" using assms(1) by auto
  then show ?thesis unfolding upt_at[OF assms(2,3)] by simp
qed

lemma rule_factor_match:
  assumes "comb \<noteq> []" "list_all num_char m" "m \<noteq> []"
  shows "re_match rule_factor_re (js ''('' @ comb @ js '' ? '' @ m @ js '' : 1)'') = Some [(2, m), (1, comb)]"
proof -
  let ?tail = "js '' ? '' @ m @ js '' : 1)''"
  define st where "st = re_advance (Suc 0) \<lparr>rs_prev = None, rs_rest = js ''('' @ comb @ ?tail, rs_caps = []\<rparr>"
  let ?q = "rseq [RLit (js '' ? ''), number_re 2, RLit (js '' : 1)''), REol]"
  let ?f = "\<lambda>n. re_step ?q ((re_advance n st)\<lparr>rs_caps := (1, take n (rs_rest st)) # rs_caps st\<rparr>)"
  have rest: "rs_rest st = comb @ ?tail" "rs_caps st = []" by (simp_all add: st_def)
  have len: "length (rs_rest st) = length comb + length ?tail" by (simp add: rest)
  have start: "re_step rule_factor_re \<lparr>rs_prev = None, rs_rest = js ''('' @ comb @ ?tail, rs_caps = []\<rparr>
      = re_step (RSeq (RCap 1 (RPlus (RCh (\<lambda>_. True)))) ?q) st"
    unfolding rule_factor_re_def rseq.simps re_seq_lit by (simp add: st_def del: re_raw)
  have all: "takeWhile (\<lambda>_. True) (rs_rest st) = rs_rest st" by simp
  have "re_step (RSeq (RCap 1 (RPlus (RCh (\<lambda>_. True)))) ?q) st = concat (map ?f (rev [1..<Suc (length (rs_rest st))]))"
    unfolding re_step.simps(3,7) re_step_plus_class map_map comp_def all
    by (intro arg_cong[where f = concat] map_cong) auto
  then have list: "re_step (RSeq (RCap 1 (RPlus (RCh (\<lambda>_. True)))) ?q) st = concat (map ?f (rev [1..<Suc (length (rs_rest st))]))" .
  have no_mark: "63 \<notin> set m" using safe_notin[OF assms(2)] by (simp add: num_char_def is_digit_def)
  have late: "?f n = []" if gt: "length comb < n" for n
  proof -
    obtain k where n: "n = length comb + Suc k" using less_imp_Suc_add[OF gt] by auto
    have "63 \<notin> set (tl (drop n (rs_rest st)))"
      using no_mark by (auto simp: rest n tl_drop dest!: in_set_dropD)
    then have "\<not> starts_with (drop n (rs_rest st)) (js '' ? '')" by (auto simp: starts_with_iff)
    then show ?thesis by (simp add: re_seq_lit del: re_raw)
  qed
  have bounds: "1 \<le> length comb" "length comb \<le> length (rs_rest st)" using assms(1) len by (simp_all add: Suc_le_eq)
  obtain st' where st': "?f (length comb) = [st']" "rs_caps st' = [(2, m), (1, comb)]"
    using assms by (simp add: rest number_re_def re_eval run_stop Let_def del: re_raw)
  have "re_step (RSeq (RCap 1 (RPlus (RCh (\<lambda>_. True)))) ?q) st = st' # concat (map ?f (rev [1..<length comb]))"
    using list first_success[of "length comb" ?f, OF late bounds] st'(1) by (simp only: append_Cons append_Nil)
  then show ?thesis unfolding re_match_def start by (simp only: list.case st'(2))
qed

section \<open>Groups\<close>

definition readable_group :: "RequestRuleGroup \<Rightarrow> bool" where
  "readable_group g \<longleftrightarrow> rg_conditions g \<noteq> [] \<and> list_all readable (rg_conditions g) \<and> is_numeric_literal (rg_multiplier g)"

lemma parse_conditions_reads: "list_all2 reads_as es cs \<Longrightarrow> parse_conditions es = Inr (Some cs)"
  by (induction rule: list_all2_induct) (auto simp: reads_as_def solid_def)

definition wrapped :: "jsstr \<Rightarrow> jsstr" where
  "wrapped e = (if js_includes e (js '' || '') then js ''('' @ e @ js '')'' else e)"

lemma condition_built:
  assumes "readable c"
  shows "reads_as (buildRequestConditionExpr c) c \<and> reads_as (wrapped (buildRequestConditionExpr c)) c"
proof (cases c)
  case (CondTime t)
  then show ?thesis using time_built[of t] assms by (auto simp: wrapped_def simp del: js_Cons js_Nil)
next
  case (CondPH p)
  then show ?thesis using ph_built[of p] assms by (auto simp: wrapped_def simp del: js_Cons js_Nil)
qed

text \<open>The text of a readable group: its factor splits into texts that read as its conditions.\<close>

lemma factor_shape:
  assumes "readable_group g"
  shows "\<exists>es. es \<noteq> [] \<and> list_all2 reads_as es (rg_conditions g)
    \<and> buildRuleGroupFactor g = js ''('' @ js_join (js '' && '') es @ js '' ? '' @ rg_multiplier g @ js '' : 1)''"
proof -
  let ?es = "map buildRequestConditionExpr (rg_conditions g)"
  have c: "c \<in> set (rg_conditions g) \<Longrightarrow> reads_as (buildRequestConditionExpr c) c \<and> reads_as (wrapped (buildRequestConditionExpr c)) c" for c
    using assms condition_built by (auto simp: readable_group_def list_all_iff)
  have ne: "rg_conditions g \<noteq> []" and num: "is_numeric_literal (rg_multiplier g)" using assms by (simp_all add: readable_group_def)
  have m: "js_trim (rg_multiplier g) = rg_multiplier g" using numeric_literal_text(3)[OF num] by (simp add: safe_text_def)
  have full: "filter (\<lambda>e. e \<noteq> []) ?es = ?es" using c by (intro filter_True) (auto simp: reads_as_def solid_def)
  have plain: "list_all2 reads_as ?es (rg_conditions g)" "list_all2 reads_as (map wrapped ?es) (rg_conditions g)"
    using c by (auto simp: list_all2_conv_all_nth)
  show ?thesis
  proof (cases "length ?es = 1")
    case True
    then obtain e where "?es = [e]" by (cases ?es) auto
    then show ?thesis using plain(1) num full
      by (intro exI[of _ "?es"]) (simp add: buildRuleGroupFactor_def m Let_def del: js_Cons js_Nil)
  next
    case False
    then show ?thesis using plain(2) num full ne
      by (intro exI[of _ "map wrapped ?es"]) (simp add: buildRuleGroupFactor_def m Let_def wrapped_def comp_def del: js_Cons js_Nil)
  qed
qed

lemma join_quiet: "\<forall>e \<in> set es. paren_sum e = 0 \<and> 42 \<notin> set e \<Longrightarrow> paren_sum (js_join (js '' && '') es) = 0 \<and> 42 \<notin> set (js_join (js '' && '') es)"
proof (induction es)
  case (Cons e es)
  then show ?case by (cases es) (auto simp: paren_step_def)
qed simp

lemma join_ends:
  assumes "fs \<noteq> []" "\<forall>f \<in> set fs. f \<noteq> [] \<and> hd f = a \<and> last f = z"
  shows "js_join sep fs \<noteq> [] \<and> hd (js_join sep fs) = a \<and> last (js_join sep fs) = z"
  using assms
proof (induction fs)
  case (Cons f fs)
  then show ?case by (cases fs) auto
qed simp

lemma factor_built:
  assumes "readable_group g"
  shows "tryParseRuleGroupFactor (buildRuleGroupFactor g) = Inr (Some g)"
    and "buildRuleGroupFactor g \<noteq> [] \<and> js_trim (buildRuleGroupFactor g) = buildRuleGroupFactor g
      \<and> 42 \<notin> set (buildRuleGroupFactor g) \<and> paren_sum (buildRuleGroupFactor g) = 0"
proof -
  obtain es where es: "es \<noteq> []" "list_all2 reads_as es (rg_conditions g)"
    and shape: "buildRuleGroupFactor g = js ''('' @ js_join (js '' && '') es @ js '' ? '' @ rg_multiplier g @ js '' : 1)''"
    using factor_shape[OF assms] by blast
  have solid: "\<forall>e \<in> set es. solid e" using es(2) by (auto simp: reads_as_def in_set_conv_nth list_all2_conv_all_nth)
  have num: "is_numeric_literal (rg_multiplier g)" and ne: "rg_conditions g \<noteq> []" using assms by (simp_all add: readable_group_def)
  note m = numeric_literal_text[OF num]
  have comb: "js_join (js '' && '') es \<noteq> []" using es(1) solid by (cases es; cases "tl es") (auto simp: solid_def)
  show "tryParseRuleGroupFactor (buildRuleGroupFactor g) = Inr (Some g)"
    unfolding shape tryParseRuleGroupFactor_def rule_factor_match[OF comb m(2,1)]
    using split_and_joined[OF es(1) solid] parse_conditions_reads[OF es(2)] ne by (simp add: cap_def del: js_Cons js_Nil)
  have "quiet (rg_multiplier g)" using m(3) quiet_safe by (simp add: safe_text_def)
  moreover have "\<forall>e \<in> set es. paren_sum e = 0 \<and> 42 \<notin> set e" using solid by (auto simp: solid_def quiet_def)
  ultimately have "42 \<notin> set (buildRuleGroupFactor g) \<and> paren_sum (buildRuleGroupFactor g) = 0"
    unfolding shape using join_quiet[of es] by (auto simp: quiet_def paren_step_def)
  moreover have "js_trim (buildRuleGroupFactor g) = buildRuleGroupFactor g" unfolding shape by (rule js_trim_id) simp
  ultimately show "buildRuleGroupFactor g \<noteq> [] \<and> js_trim (buildRuleGroupFactor g) = buildRuleGroupFactor g
      \<and> 42 \<notin> set (buildRuleGroupFactor g) \<and> paren_sum (buildRuleGroupFactor g) = 0" by (simp add: shape)
qed

lemma factor_ends: "readable_group g \<Longrightarrow> buildRuleGroupFactor g \<noteq> [] \<and> hd (buildRuleGroupFactor g) = 40 \<and> last (buildRuleGroupFactor g) = 41"
  using factor_shape[of g] by auto

lemma parse_groups_built: "list_all readable_group gs \<Longrightarrow> parse_groups (map buildRuleGroupFactor gs) = Inr (Some gs)"
  by (induction gs) (auto simp: factor_built)

text \<open>
  C14.  The rule editor reads back what it wrote: for groups of time conditions, existence and equality
  conditions, and containment conditions on headers, with numeric multipliers, the rule text parses to
  exactly these groups.
\<close>

theorem rules_round_trip:
  assumes "list_all readable_group groups"
  shows "tryParseRequestRuleExpr (buildRequestRuleExpr groups) = Inr (Some groups)"
proof (cases "groups = []")
  case True
  then show ?thesis by (simp add: buildRequestRuleExpr_def tryParseRequestRuleExpr_def js_trim_def trim_start_def)
next
  case False
  let ?fs = "map buildRuleGroupFactor groups"
  have fs: "\<forall>f \<in> set ?fs. f \<noteq> [] \<and> js_trim f = f \<and> 42 \<notin> set f \<and> paren_sum f = 0"
    using assms factor_built(2) by (auto simp: list_all_iff)
  have shape: "buildRequestRuleExpr groups = js_join (js '' * '') ?fs"
    using fs by (simp add: buildRequestRuleExpr_def filter_True del: js_Cons js_Nil)
  have "\<forall>f \<in> set ?fs. f \<noteq> [] \<and> hd f = 40 \<and> last f = 41" using assms factor_ends by (auto simp: list_all_iff)
  then have ends: "js_join (js '' * '') ?fs \<noteq> []" "hd (js_join (js '' * '') ?fs) = 40" "last (js_join (js '' * '') ?fs) = 41"
    using join_ends[of ?fs 40 41 "js '' * ''"] False by (simp_all del: js_Cons js_Nil)
  have trim: "js_trim (js_join (js '' * '') ?fs) = js_join (js '' * '') ?fs"
    by (rule js_trim_id) (use ends in \<open>simp del: js_Cons js_Nil\<close>)
  have "splitTopLevelMultiply (js_join (js '' * '') ?fs) = ?fs" by (rule split_multiply_joined) (use False fs in auto)
  then show ?thesis unfolding tryParseRequestRuleExpr_def shape trim Let_def
    using ends(1) parse_groups_built[OF assms] by (simp del: js_Cons js_Nil)
qed

definition sample_rules :: "RequestRuleGroup list" where
  "sample_rules =
     [\<lparr>rg_conditions = [CondTime \<lparr>t_func = js ''hour'', t_zone = js ''UTC'', t_mode = MATCH_RANGE, t_value = [], t_start = js ''22'', t_end = js ''6''\<rparr>,
                       CondPH \<lparr>ph_source = SrcHeader, ph_path = js ''x-plan'', ph_mode = MATCH_CONTAINS, ph_value = js ''pro plan''\<rparr>],
       rg_multiplier = js ''0.5''\<rparr>,
      \<lparr>rg_conditions = [CondPH \<lparr>ph_source = SrcParam, ph_path = js ''stream'', ph_mode = MATCH_EQ, ph_value = js ''true''\<rparr>],
       rg_multiplier = js ''2''\<rparr>]"

lemma numeric_samples: "is_numeric_literal (js ''22'')" "is_numeric_literal (js ''6'')" "is_numeric_literal (js ''0.5'')" "is_numeric_literal (js ''2'')"
  by (simp_all add: is_numeric_literal_def re_match_def NUMERIC_LITERAL_REGEX_def RPlus_def is_digit_def)

theorem rules_round_trip_witness:
  "tryParseRequestRuleExpr (buildRequestRuleExpr sample_rules) = Inr (Some sample_rules)"
proof (rule rules_round_trip)
  show "list_all readable_group sample_rules"
    using numeric_samples
    by (simp add: sample_rules_def readable_group_def TIME_FUNCS_def safe_text_def safe_char_def js_trim_def trim_start_def is_space_def)
qed

section \<open>Conditions that are not read back\<close>

text \<open>
  The text of a comparison or containment condition on a parameter contains \<open>&&\<close>, at which the reader
  splits before it looks for such conditions.
\<close>

fun unreadable :: "RequestCondition \<Rightarrow> bool" where
  "unreadable (CondPH c) \<longleftrightarrow> ph_source c = SrcParam \<and> ph_path c \<noteq> [] \<and> safe_text (ph_path c)
     \<and> ((ph_mode c = MATCH_CONTAINS \<and> safe_text (ph_value c))
        \<or> (ph_mode c \<in> {MATCH_GT, MATCH_GTE, MATCH_LT, MATCH_LTE} \<and> is_numeric_literal (ph_value c)))"
| "unreadable (CondTime c) \<longleftrightarrow> False"

lemma param_compare_alone:
  assumes "list_all not_quote path" "path \<noteq> []" "s \<in> {js ''>'', js ''>='', js ''<'', js ''<=''}"
  shows \<open>tryParseRequestCondition (js ''param("'' @ path @ js ''") '' @ s @ js '' '' @ v) = Inr None\<close>
proof -
  have "s = js ''>'' \<or> s = js ''>='' \<or> s = js ''<'' \<or> s = js ''<=''" using assms(3) by simp
  then show ?thesis using assms(1,2)
    by (elim disjE) (simp_all add: tryParseRequestCondition_def tryParseTimeCondition_def re_defs re_eval run_stop Let_def del: re_raw)
qed

lemma param_has_alone: \<open>tryParseRequestCondition (js ''has(param("'' @ t) = Inr None\<close>
  by (simp add: tryParseRequestCondition_def tryParseTimeCondition_def re_defs re_eval del: re_raw)

lemma unreadable_built:
  assumes "unreadable c"
  shows "\<exists>e1 e2 c1. buildRequestConditionExpr c = e1 @ js '' && '' @ e2 \<and> reads_as e1 c1 \<and> solid e2
    \<and> tryParseRequestCondition e2 = Inr None"
proof (cases c)
  case (CondTime t)
  then show ?thesis using assms by simp
next
  case c: (CondPH p)
  obtain path v where pv: "ph_path p = path" "ph_value p = v" "path \<noteq> []" "safe_text path" and src: "ph_source p = SrcParam"
    using assms c by auto
  have path: "js_trim path = path" "list_all safe_char path" using pv(4) by (simp_all add: safe_text_def)
  note pq = safe_not_quote(1)[OF path(2)] and quote = safe_quote[OF path(2)] and q = quiet_safe[OF path(2)]
  let ?e1 = \<open>js ''param("'' @ path @ js ''") != nil''\<close>
  have quiet1: "quiet ?e1" using q by (auto simp: quiet_def paren_step_def)
  have "solid ?e1" by (rule solid_ends[OF quiet1]) (simp_all add: is_space_def)
  then have e1: "reads_as ?e1 (CondPH \<lparr>ph_source = SrcParam, ph_path = path, ph_mode = MATCH_EXISTS, ph_value = []\<rparr>)"
    using param_exists[OF pq pv(3)] by (simp add: reads_as_def)
  consider (has) "ph_mode p = MATCH_CONTAINS" "safe_text v"
    | (cmp) "ph_mode p \<in> {MATCH_GT, MATCH_GTE, MATCH_LT, MATCH_LTE}" "is_numeric_literal v" using assms c pv(2) by auto
  then show ?thesis
  proof cases
    case has
    have v: "js_trim v = v" "list_all safe_char v" using has(2) by (simp_all add: safe_text_def)
    let ?e2 = \<open>js ''has(param("'' @ path @ js ''"), '' @ json_quote v @ js '')''\<close>
    have shape: "buildRequestConditionExpr c = ?e1 @ js '' && '' @ ?e2"
      using pv has src path(1) v(1) quote
      by (simp add: c build_ph_expr_def normalizeCondition_def text_or_def text_of_def offered_mode_def getRequestRuleMatchOptions_def
          buildExprLiteral_def match_defs Let_def)
    have quiet2: "quiet ?e2" unfolding safe_quote[OF v(2)] using q quiet_safe[OF v(2)] by (auto simp: quiet_def paren_step_def)
    have "solid ?e2" by (rule solid_ends[OF quiet2]) (simp_all add: is_space_def)
    then show ?thesis using shape e1 param_has_alone[of \<open>path @ js ''"), '' @ json_quote v @ js '')''\<close>] by blast
  next
    case cmp
    note v = numeric_literal_text[OF cmp(2)]
    have trim: "js_trim v = v" using v(3) by (simp add: safe_text_def)
    let ?s = "compare_symbol (ph_mode p)"
    let ?e2 = \<open>js ''param("'' @ path @ js ''") '' @ ?s @ js '' '' @ v\<close>
    have s: "?s \<in> {js ''>'', js ''>='', js ''<'', js ''<=''}" by (simp add: compare_symbol_def)
    have shape: "buildRequestConditionExpr c = ?e1 @ js '' && '' @ ?e2"
      using pv cmp src path(1) trim quote
      by (auto simp: c build_ph_expr_def normalizeCondition_def text_or_def text_of_def offered_mode_def getRequestRuleMatchOptions_def
          match_defs Let_def)
    have "quiet v" using v(3) quiet_safe by (simp add: safe_text_def)
    then have quiet2: "quiet ?e2" using q s by (auto simp: quiet_def paren_step_def)
    have "solid ?e2" by (rule solid_ends[OF quiet2]) (use v(1) last_num[OF v(2,1)] in \<open>simp_all add: is_space_def\<close>)
    then show ?thesis using shape e1 param_compare_alone[OF pq pv(3) s, of v] by blast
  qed
qed

text \<open>
  A rule that compares a parameter with a number or looks for a text in it is written but not read
  back: the editor offers these conditions and builds their text, and the reader answers \<open>null\<close> for it.
\<close>

lemma parameter_rules_not_read_back:
  assumes "unreadable c" "is_numeric_literal m"
  shows "tryParseRequestRuleExpr (buildRequestRuleExpr [\<lparr>rg_conditions = [c], rg_multiplier = m\<rparr>]) = Inr None"
proof -
  obtain e1 e2 c1 where e: "buildRequestConditionExpr c = e1 @ js '' && '' @ e2" "reads_as e1 c1" "solid e2"
    "tryParseRequestCondition e2 = Inr None" using unreadable_built[OF assms(1)] by blast
  let ?comb = "js_join (js '' && '') [e1, e2]"
  let ?f = "js ''('' @ ?comb @ js '' ? '' @ m @ js '' : 1)''"
  note m = numeric_literal_text[OF assms(2)]
  have trim: "js_trim m = m" using m(3) by (simp add: safe_text_def)
  have solid: "solid e1" "solid e2" using e(2,3) by (simp_all add: reads_as_def)
  have comb: "?comb \<noteq> []" using solid(1) by (simp add: solid_def)
  have shape: "buildRequestRuleExpr [\<lparr>rg_conditions = [c], rg_multiplier = m\<rparr>] = ?f"
    using e(1) assms(2) solid(1) by (simp add: buildRequestRuleExpr_def buildRuleGroupFactor_def trim Let_def solid_def)
  have "quiet m" using m(3) quiet_safe by (simp add: safe_text_def)
  then have f: "42 \<notin> set ?f \<and> paren_sum ?f = 0" using solid by (auto simp: solid_def quiet_def paren_step_def)
  have ftrim: "js_trim ?f = ?f" by (rule js_trim_id) simp
  have "splitTopLevelMultiply (js_join (js '' * '') [?f]) = [?f]" by (rule split_multiply_joined) (use f ftrim in simp_all)
  then have split: "splitTopLevelMultiply ?f = [?f]" by simp
  have "splitTopLevelAnd ?comb = [e1, e2]" by (rule split_and_joined) (use solid in simp_all)
  then have factor: "tryParseRuleGroupFactor ?f = Inr None"
    unfolding tryParseRuleGroupFactor_def rule_factor_match[OF comb m(2,1)]
    using e(2,4) solid by (simp add: cap_def reads_as_def solid_def del: js_Cons js_Nil js_join.simps)
  have "?f \<noteq> []" by simp
  then show ?thesis unfolding shape tryParseRequestRuleExpr_def ftrim Let_def split by (simp add: factor del: js_Cons js_Nil js_join.simps)
qed

end
