(* ===== verification/BillingTiers.thy ===== *)
theory BillingTiers
  imports JsRegex JsNumText BillingEvaluator
begin

text \<open>
  Tiered prices: the registry of billing variables and the tier reader of features/pricing/lib/billing-expr.ts,
  and the visual tier editor of features/pricing/lib/tier-expr.ts, which writes an expression from a
  configuration, reads a configuration from an expression, and estimates a cost with the evaluator.
\<close>

section \<open>Billing variables\<close>

record BillingVar =
  bv_key :: jsstr
  bv_field :: "jsstr option"
  bv_tierField :: "jsstr option"
  bv_label :: jsstr
  bv_shortLabel :: jsstr
  bv_side :: jsstr
  bv_isBase :: bool
  bv_isConditionOnly :: bool
  bv_group :: "jsstr option"

definition BILLING_VARS :: "BillingVar list" where
  "BILLING_VARS =
     [\<lparr>bv_key = js ''p'', bv_field = Some (js ''inputPrice''), bv_tierField = Some (js ''input_unit_cost''),
       bv_label = js ''Input price'', bv_shortLabel = js ''Input'', bv_side = js ''input'',
       bv_isBase = True, bv_isConditionOnly = False, bv_group = None\<rparr>,
      \<lparr>bv_key = js ''c'', bv_field = Some (js ''outputPrice''), bv_tierField = Some (js ''output_unit_cost''),
       bv_label = js ''Completion price'', bv_shortLabel = js ''Output'', bv_side = js ''output'',
       bv_isBase = True, bv_isConditionOnly = False, bv_group = None\<rparr>,
      \<lparr>bv_key = js ''len'', bv_field = None, bv_tierField = None,
       bv_label = js ''Input length'', bv_shortLabel = js ''Length'', bv_side = js ''condition'',
       bv_isBase = False, bv_isConditionOnly = True, bv_group = None\<rparr>,
      \<lparr>bv_key = js ''cr'', bv_field = Some (js ''cacheReadPrice''), bv_tierField = Some (js ''cache_read_unit_cost''),
       bv_label = js ''Cache read price'', bv_shortLabel = js ''Cache Read'', bv_side = js ''input'',
       bv_isBase = False, bv_isConditionOnly = False, bv_group = Some (js ''cache'')\<rparr>,
      \<lparr>bv_key = js ''cc'', bv_field = Some (js ''cacheCreatePrice''), bv_tierField = Some (js ''cache_create_unit_cost''),
       bv_label = js ''Cache create price'', bv_shortLabel = js ''Cache Write'', bv_side = js ''input'',
       bv_isBase = False, bv_isConditionOnly = False, bv_group = Some (js ''cache'')\<rparr>,
      \<lparr>bv_key = js ''cc1h'', bv_field = Some (js ''cacheCreate1hPrice''), bv_tierField = Some (js ''cache_create_1h_unit_cost''),
       bv_label = js ''Cache create (1h) price'', bv_shortLabel = js ''Cache Write (1h)'', bv_side = js ''input'',
       bv_isBase = False, bv_isConditionOnly = False, bv_group = Some (js ''cache'')\<rparr>,
      \<lparr>bv_key = js ''img'', bv_field = Some (js ''imagePrice''), bv_tierField = Some (js ''image_unit_cost''),
       bv_label = js ''Image input price'', bv_shortLabel = js ''Image In'', bv_side = js ''input'',
       bv_isBase = False, bv_isConditionOnly = False, bv_group = Some (js ''media'')\<rparr>,
      \<lparr>bv_key = js ''img_o'', bv_field = Some (js ''imageOutputPrice''), bv_tierField = Some (js ''image_output_unit_cost''),
       bv_label = js ''Image output price'', bv_shortLabel = js ''Image Out'', bv_side = js ''output'',
       bv_isBase = False, bv_isConditionOnly = False, bv_group = Some (js ''media'')\<rparr>,
      \<lparr>bv_key = js ''ai'', bv_field = Some (js ''audioInputPrice''), bv_tierField = Some (js ''audio_input_unit_cost''),
       bv_label = js ''Audio input price'', bv_shortLabel = js ''Audio In'', bv_side = js ''input'',
       bv_isBase = False, bv_isConditionOnly = False, bv_group = Some (js ''media'')\<rparr>,
      \<lparr>bv_key = js ''ao'', bv_field = Some (js ''audioOutputPrice''), bv_tierField = Some (js ''audio_output_unit_cost''),
       bv_label = js ''Audio output price'', bv_shortLabel = js ''Audio Out'', bv_side = js ''output'',
       bv_isBase = False, bv_isConditionOnly = False, bv_group = Some (js ''media'')\<rparr>]"

definition BILLING_PRICING_VARS :: "BillingVar list" where
  "BILLING_PRICING_VARS = filter (\<lambda>v. \<not> bv_isConditionOnly v) BILLING_VARS"

definition BILLING_CONDITION_VARS :: "jsstr list" where
  "BILLING_CONDITION_VARS = map bv_key (filter (\<lambda>v. bv_isBase v \<or> bv_isConditionOnly v) BILLING_VARS)"

definition BILLING_VAR_KEY_TO_FIELD :: "(jsstr \<times> jsstr) list" where
  "BILLING_VAR_KEY_TO_FIELD = map (\<lambda>v. (bv_key v, the (bv_field v))) BILLING_PRICING_VARS"

definition BILLING_EXTRA_VARS :: "BillingVar list" where
  "BILLING_EXTRA_VARS = filter (\<lambda>v. \<not> bv_isBase v \<and> \<not> bv_isConditionOnly v) BILLING_VARS"

text \<open>Pairs of the tier field and the variable.\<close>

definition BILLING_CACHE_VAR_MAP :: "(jsstr \<times> jsstr) list" where
  "BILLING_CACHE_VAR_MAP = map (\<lambda>v. (the (bv_tierField v), bv_key v)) BILLING_EXTRA_VARS"

text \<open>\<open>\b(p|c|...)\s*\*\s*([\d.eE+-]+)\<close>\<close>

definition BILLING_VAR_REGEX :: regex where
  "BILLING_VAR_REGEX = rseq [RWordB, RCap 1 (ralt (map (\<lambda>v. RLit (bv_key v)) BILLING_PRICING_VARS)),
     RSpaces, RLit (js ''*''), RSpaces, RCap 2 (RPlus (RCh num_char))]"

lemma billing_cache_vars:
  "BILLING_CACHE_VAR_MAP =
     [(js ''cache_read_unit_cost'', js ''cr''), (js ''cache_create_unit_cost'', js ''cc''), (js ''cache_create_1h_unit_cost'', js ''cc1h''),
      (js ''image_unit_cost'', js ''img''), (js ''image_output_unit_cost'', js ''img_o''), (js ''audio_input_unit_cost'', js ''ai''),
      (js ''audio_output_unit_cost'', js ''ao'')]"
  by (simp add: BILLING_CACHE_VAR_MAP_def BILLING_EXTRA_VARS_def BILLING_VARS_def)

section \<open>Reading tiers for display\<close>

record TierCondition =
  tc_var :: jsstr
  tc_op :: jsstr
  tc_value :: number

record ParsedTier =
  pt_label :: jsstr
  pt_conditions :: "TierCondition list"
  pt_prices :: "(jsstr \<times> number) list"

definition version_re :: regex where
  "version_re = rseq [RLit (js ''v''), RCap 1 (RPlus (RCh is_digit)), RLit (js '':''), RCap 2 (RStar (RCh (\<lambda>_. True))), REol]"

definition stripExprVersion :: "jsstr \<Rightarrow> number \<times> jsstr" where
  "stripExprVersion exprStr = (if exprStr = [] then (Fin 1, []) else
     case re_match version_re exprStr of Some m \<Rightarrow> (js_Number (cap 1 m), cap 2 m) | None \<Rightarrow> (Fin 1, exprStr))"

text \<open>\<open>x || 0\<close> on a number\<close>

definition num_or_zero :: "number \<Rightarrow> number" where
  "num_or_zero n = (if num_truthy n then n else Fin 0)"

definition parseTierBody :: "jsstr \<Rightarrow> (jsstr \<times> number) list" where
  "parseTierBody bodyStr =
     (let coeffs = foldl (\<lambda>m caps. if map_of m (cap 1 caps) = None then m @ [(cap 1 caps, js_Number (cap 2 caps))] else m) []
                     (re_exec_all BILLING_VAR_REGEX None bodyStr)
      in map (\<lambda>(varName, field). (field, case map_of coeffs varName of Some n \<Rightarrow> num_or_zero n | None \<Rightarrow> Fin 0)) BILLING_VAR_KEY_TO_FIELD)"

definition cond_var_re :: regex where
  "cond_var_re = ralt [RLit (js ''p''), RLit (js ''c''), RLit (js ''len'')]"

definition cond_op_re :: regex where
  "cond_op_re = ralt [RLit (js ''<''), RLit (js ''<=''), RLit (js ''>''), RLit (js ''>='')]"

definition cond_re :: regex where
  "cond_re = rseq [cond_var_re, RSpaces, cond_op_re, RSpaces, RPlus (RCh pos_num_char)]"

definition cond_group_re :: regex where
  "cond_group_re = RCap 1 (RSeq cond_re (RStar (rseq [RSpaces, RLit (js ''&&''), RSpaces, cond_re])))"

definition cond_part_re :: regex where
  "cond_part_re = rseq [RCap 1 cond_var_re, RSpaces, RCap 2 cond_op_re, RSpaces, RCap 3 (RPlus (RCh pos_num_char)), REol]"

text \<open>
  \<open>condStr.split(/\s*&&\s*/)\<close> with every part trimmed: the white space that the pattern takes is trimmed
  from the parts between plain occurrences of \<open>&&\<close> as well.
\<close>

fun split_amp :: "jsstr \<Rightarrow> jsstr \<Rightarrow> jsstr list" where
  "split_amp cur (c # d # cs) = (if c = 38 \<and> d = 38 then rev cur # split_amp [] cs else split_amp (c # cur) (d # cs))"
| "split_amp cur s = [rev cur @ s]"

definition parse_tier_conditions :: "jsstr \<Rightarrow> TierCondition list" where
  "parse_tier_conditions condStr = (if condStr = [] then [] else
     List.map_filter (\<lambda>cp. case re_match cond_part_re (js_trim cp) of
         Some m \<Rightarrow> Some \<lparr>tc_var = cap 1 m, tc_op = cap 2 m, tc_value = js_Number (cap 3 m)\<rparr>
       | None \<Rightarrow> None) (split_amp [] condStr))"

definition tier_head_re :: "regex list" where
  \<open>tier_head_re = [ROpt (rseq [cond_group_re, RSpaces, RLit (js ''?''), RSpaces]), RLit (js ''tier("''), RCap 2 (RStar (RCh not_quote)),
     RLit (js ''",''), RSpaces]\<close>

definition display_tier_re :: regex where
  "display_tier_re = rseq (tier_head_re @ [RCap 3 (RPlus (RCh (\<lambda>c. c \<noteq> 41))), RLit (js '')'')])"

definition parseTiersFromExpr :: "jsstr \<Rightarrow> ParsedTier list" where
  "parseTiersFromExpr exprStr = (if exprStr = [] then [] else
     map (\<lambda>m. \<lparr>pt_label = cap 2 m, pt_conditions = parse_tier_conditions (cap 1 m), pt_prices = parseTierBody (cap 3 m)\<rparr>)
       (re_exec_all display_tier_re None (snd (stripExprVersion exprStr))))"

text \<open>
  Comparison signs in a label are unified: the sign \<open>p0\<close> or its full-width form \<open>wide\<close>, with an equals sign
  after it or not, and the single sign \<open>eq\<close> become \<open>p0\<close>.
\<close>

fun unify_sign :: "code_unit \<Rightarrow> code_unit \<Rightarrow> code_unit \<Rightarrow> jsstr \<Rightarrow> jsstr" where
  "unify_sign p0 wide eq [] = []"
| "unify_sign p0 wide eq [c] = [if c \<in> {p0, wide, eq} then p0 else c]"
| "unify_sign p0 wide eq (c # d # cs) =
     (if c = p0 \<or> c = wide then (if d = 61 \<or> d = 65309 then p0 # unify_sign p0 wide eq cs else p0 # unify_sign p0 wide eq (d # cs))
      else if c = eq then p0 # unify_sign p0 wide eq (d # cs)
      else c # unify_sign p0 wide eq (d # cs))"

text \<open>\<open>toLowerCase\<close> of the language is the parameter \<open>lower\<close>.\<close>

definition normalizeTierLabel :: "(jsstr \<Rightarrow> jsstr) \<Rightarrow> jsstr option \<Rightarrow> jsstr" where
  "normalizeTierLabel lower label = (case label of
       None \<Rightarrow> []
     | Some l \<Rightarrow> if l = [] then [] else
         lower (strip_spaces (unify_sign 62 65310 8805 (unify_sign 60 65308 8804 l))))"

section \<open>Visual configurations\<close>

datatype CacheMode = CACHE_MODE_TIMED | CACHE_MODE_GENERIC

datatype cond_value = CondNum number | CondText jsstr

record TierConditionInput =
  ci_var :: jsstr
  ci_op :: jsstr
  ci_value :: cond_value

record VisualTier =
  vt_label :: jsstr
  vt_conditions :: "TierConditionInput list"
  vt_input :: number
  vt_output :: number
  vt_cache_mode :: CacheMode
  vt_cache_read :: number
  vt_cache_create :: number
  vt_cache_create_1h :: number
  vt_image :: number
  vt_image_output :: number
  vt_audio_input :: number
  vt_audio_output :: number

text \<open>\<open>Partial<VisualTier>\<close>: a field may be absent.\<close>

record PartialTier =
  px_label :: "jsstr option"
  px_conditions :: "TierConditionInput list option"
  px_input :: "number option"
  px_output :: "number option"
  px_cache_mode :: "CacheMode option"
  px_extras :: "(jsstr \<times> number) list"

definition getTierCacheMode :: "PartialTier \<Rightarrow> CacheMode" where
  "getTierCacheMode tier = (case px_cache_mode tier of
       Some m \<Rightarrow> m
     | None \<Rightarrow> (case map_of (px_extras tier) (js ''cache_create_1h_unit_cost'') of
         Some n \<Rightarrow> if num_less (Fin 0) n then CACHE_MODE_TIMED else CACHE_MODE_GENERIC
       | None \<Rightarrow> CACHE_MODE_GENERIC))"

definition extra_cost :: "PartialTier \<Rightarrow> string \<Rightarrow> number" where
  "extra_cost tier field = (case map_of (px_extras tier) (js field) of Some n \<Rightarrow> num_or_zero n | None \<Rightarrow> Fin 0)"

text \<open>
  The fields of \<open>tier\<close> that are present replace the defaults before them in the object literal, so that a
  present unit cost is kept as it is; the costs after the spread are normalised.
\<close>

definition normalizeVisualTier :: "PartialTier \<Rightarrow> VisualTier" where
  "normalizeVisualTier tier =
     \<lparr>vt_label = (case px_label tier of Some l \<Rightarrow> l | None \<Rightarrow> []),
      vt_conditions = (case px_conditions tier of Some cs \<Rightarrow> cs | None \<Rightarrow> []),
      vt_input = (case px_input tier of Some n \<Rightarrow> n | None \<Rightarrow> Fin 0),
      vt_output = (case px_output tier of Some n \<Rightarrow> n | None \<Rightarrow> Fin 0),
      vt_cache_mode = getTierCacheMode tier,
      vt_cache_read = extra_cost tier ''cache_read_unit_cost'',
      vt_cache_create = extra_cost tier ''cache_create_unit_cost'',
      vt_cache_create_1h = extra_cost tier ''cache_create_1h_unit_cost'',
      vt_image = extra_cost tier ''image_unit_cost'',
      vt_image_output = extra_cost tier ''image_output_unit_cost'',
      vt_audio_input = extra_cost tier ''audio_input_unit_cost'',
      vt_audio_output = extra_cost tier ''audio_output_unit_cost''\<rparr>"

definition tier_fields :: "VisualTier \<Rightarrow> (jsstr \<times> number) list" where
  "tier_fields tier =
     [(js ''cache_read_unit_cost'', vt_cache_read tier), (js ''cache_create_unit_cost'', vt_cache_create tier),
      (js ''cache_create_1h_unit_cost'', vt_cache_create_1h tier), (js ''image_unit_cost'', vt_image tier),
      (js ''image_output_unit_cost'', vt_image_output tier), (js ''audio_input_unit_cost'', vt_audio_input tier),
      (js ''audio_output_unit_cost'', vt_audio_output tier)]"

definition tier_partial :: "VisualTier \<Rightarrow> PartialTier" where
  "tier_partial tier = \<lparr>px_label = Some (vt_label tier), px_conditions = Some (vt_conditions tier), px_input = Some (vt_input tier),
     px_output = Some (vt_output tier), px_cache_mode = Some (vt_cache_mode tier), px_extras = tier_fields tier\<rparr>"

definition createDefaultVisualConfig :: "VisualTier list" where
  "createDefaultVisualConfig = [normalizeVisualTier \<lparr>px_label = Some (js ''base''), px_conditions = Some [], px_input = Some (Fin 0),
     px_output = Some (Fin 0), px_cache_mode = Some CACHE_MODE_GENERIC, px_extras = []\<rparr>]"

text \<open>A configuration is its list of tiers.\<close>

definition normalizeVisualConfig :: "VisualTier list option \<Rightarrow> VisualTier list" where
  "normalizeVisualConfig config = (case config of
       None \<Rightarrow> createDefaultVisualConfig
     | Some tiers \<Rightarrow> if tiers = [] then createDefaultVisualConfig else map (\<lambda>t. normalizeVisualTier (tier_partial t)) tiers)"

section \<open>Writing expressions\<close>

fun cond_value_text :: "cond_value \<Rightarrow> jsstr" where
  "cond_value_text (CondNum n) = num_text n"
| "cond_value_text (CondText s) = s"

definition buildConditionStr :: "TierConditionInput list \<Rightarrow> jsstr" where
  "buildConditionStr conditions = js_join (js '' && '')
     (map (\<lambda>c. ci_var c @ js '' '' @ ci_op c @ js '' '' @ cond_value_text (ci_value c))
       (filter (\<lambda>c. ci_var c \<noteq> [] \<and> ci_op c \<noteq> [] \<and> ci_value c \<noteq> CondText []) conditions))"

definition buildTierBodyExpr :: "VisualTier \<Rightarrow> jsstr" where
  "buildTierBodyExpr tier = js_join (js '' + '')
     ([js ''p * '' @ num_text (num_or_zero (vt_input tier)), js ''c * '' @ num_text (num_or_zero (vt_output tier))]
      @ List.map_filter (\<lambda>(field, exprVar).
          let v = (case map_of (tier_fields tier) field of Some n \<Rightarrow> num_or_zero n | None \<Rightarrow> Fin 0)
          in if v \<noteq> Fin 0 then Some (exprVar @ js '' * '' @ num_text v) else None) BILLING_CACHE_VAR_MAP)"

definition tier_call :: "jsstr \<Rightarrow> VisualTier \<Rightarrow> jsstr" where
  \<open>tier_call label tier = js ''tier("'' @ label @ js ''", '' @ buildTierBodyExpr tier @ js '')''\<close>

definition tier_part :: "nat \<Rightarrow> nat \<times> VisualTier \<Rightarrow> jsstr" where
  "tier_part n it = (case it of (i, tier) \<Rightarrow>
     let label = (if vt_label tier = [] then js ''tier_'' @ nat_text (i + 1) else vt_label tier);
         body = tier_call label tier;
         cond = buildConditionStr (vt_conditions tier)
     in if i < n - 1 \<and> cond \<noteq> [] then cond @ js '' ? '' @ body else body)"

definition generateExprFromVisualConfig :: "VisualTier list option \<Rightarrow> jsstr" where
  "generateExprFromVisualConfig config = (case config of
       None \<Rightarrow> js ''p * 0 + c * 0''
     | Some [] \<Rightarrow> js ''p * 0 + c * 0''
     | Some [tier] \<Rightarrow>
         (let label = (if vt_label tier = [] then js ''default'' else vt_label tier);
              body = tier_call label tier;
              cond = buildConditionStr (vt_conditions tier)
          in if cond \<noteq> [] then cond @ js '' ? '' @ body @ js '' : p * 0 + c * 0'' else body)
     | Some tiers \<Rightarrow> js_join (js '' : '') (map (tier_part (length tiers)) (enumerate 0 tiers)))"

section \<open>Reading expressions\<close>

definition unversioned_re :: regex where
  "unversioned_re = rseq [RLit (js ''v''), RPlus (RCh is_digit), RLit (js '':''), RCap 1 (RStar (RCh (\<lambda>_. True))), REol]"

text \<open>\<open>v\s*\*\s*([\d.eE+-]+)\<close>, and the same after \<open>\s*\+\s*\<close>.\<close>

definition coeff_parts :: "nat \<Rightarrow> jsstr \<Rightarrow> regex list" where
  "coeff_parts i v = [RLit v, RSpaces, RLit (js ''*''), RSpaces, RCap i (RPlus (RCh num_char))]"

definition plus_coeff :: "nat \<Rightarrow> jsstr \<Rightarrow> regex" where
  "plus_coeff i v = rseq ([RSpaces, RLit (js ''+''), RSpaces] @ coeff_parts i v)"

definition body_parts :: "nat \<Rightarrow> regex list" where
  "body_parts i = coeff_parts i (js ''p'') @ [plus_coeff (i + 1) (js ''c'')]
     @ map (\<lambda>(j, field, v). ROpt (plus_coeff (i + 2 + j) v)) (enumerate 0 BILLING_CACHE_VAR_MAP)"

definition single_re :: regex where
  \<open>single_re = rseq ([RLit (js ''tier("''), RCap 1 (RStar (RCh not_quote)), RLit (js ''",''), RSpaces] @ body_parts 2 @ [RLit (js '')''), REol])\<close>

definition tier_re :: regex where
  "tier_re = rseq (tier_head_re @ body_parts 3 @ [RLit (js '')'')])"

definition tier_from_match :: "nat \<Rightarrow> TierConditionInput list \<Rightarrow> jsstr \<Rightarrow> (nat \<times> jsstr) list \<Rightarrow> VisualTier" where
  "tier_from_match i conditions label m = normalizeVisualTier
     \<lparr>px_label = Some label, px_conditions = Some conditions, px_input = Some (js_Number (cap i m)),
      px_output = Some (js_Number (cap (i + 1) m)), px_cache_mode = None,
      px_extras = List.map_filter (\<lambda>(j, field, v). map_option (\<lambda>s. (field, js_Number s)) (map_of m (i + 2 + j)))
        (enumerate 0 BILLING_CACHE_VAR_MAP)\<rparr>"

definition condition_inputs :: "jsstr \<Rightarrow> TierConditionInput list" where
  "condition_inputs condStr = map (\<lambda>c. \<lparr>ci_var = tc_var c, ci_op = tc_op c, ci_value = CondNum (tc_value c)\<rparr>) (parse_tier_conditions condStr)"

definition tryParseVisualConfig :: "jsstr option \<Rightarrow> VisualTier list option" where
  "tryParseVisualConfig exprStr = (case exprStr of
       None \<Rightarrow> None
     | Some e \<Rightarrow> if e = [] then None else
         let body = (case re_match unversioned_re e of Some m \<Rightarrow> cap 1 m | None \<Rightarrow> e) in
         (case re_match single_re body of
            Some m \<Rightarrow> Some (normalizeVisualConfig (Some [normalizeVisualTier (tier_partial (tier_from_match 2 [] (cap 1 m) m))]))
          | None \<Rightarrow>
              let tiers = map (\<lambda>m. tier_from_match 3 (condition_inputs (cap 1 m)) (cap 2 m) m) (re_exec_all tier_re None body) in
              if tiers = [] then None
              else let cfg = normalizeVisualConfig (Some tiers) in
                if strip_spaces (generateExprFromVisualConfig (Some cfg)) \<noteq> strip_spaces body then None else Some cfg))"

section \<open>Estimating\<close>

definition ESTIMATOR_VARS :: "(jsstr \<times> jsstr) list" where
  "ESTIMATOR_VARS = [(js ''cr'', js ''cacheReadTokens''), (js ''cc'', js ''cacheCreateTokens''), (js ''cc1h'', js ''cacheCreate1hTokens''),
     (js ''img'', js ''imageTokens''), (js ''img_o'', js ''imageOutputTokens''), (js ''ai'', js ''audioInputTokens''), (js ''ao'', js ''audioOutputTokens'')]"

record EvalResult =
  er_cost :: number
  er_matchedTier :: jsstr
  er_error :: "billing_error option"

text \<open>Extra token counts by state key; a missing one counts as 0.\<close>

definition token_count :: "(jsstr \<times> number) list \<Rightarrow> jsstr \<Rightarrow> number" where
  "token_count extra key = (case map_of extra key of Some n \<Rightarrow> n | None \<Rightarrow> Fin 0)"

definition estimator_env :: "number \<Rightarrow> number \<Rightarrow> (jsstr \<times> number) list \<Rightarrow> environment" where
  "estimator_env promptTokens completionTokens extra =
     [(js ''p'', promptTokens), (js ''c'', completionTokens),
      (js ''len'', num_add (num_add (num_add promptTokens (token_count extra (js ''cacheReadTokens'')))
         (token_count extra (js ''cacheCreateTokens''))) (token_count extra (js ''cacheCreate1hTokens'')))]
     @ map (\<lambda>(v, key). (v, token_count extra key)) ESTIMATOR_VARS"

definition evalExprLocally :: "(number \<Rightarrow> number \<Rightarrow> number) \<Rightarrow> jsstr \<Rightarrow> number \<Rightarrow> number \<Rightarrow> (jsstr \<times> number) list \<Rightarrow> EvalResult" where
  "evalExprLocally approx exprStr promptTokens completionTokens extra =
     (if js_trim exprStr = [] then \<lparr>er_cost = Fin 0, er_matchedTier = [], er_error = None\<rparr>
      else case evaluateBillingExpression approx exprStr (estimator_env promptTokens completionTokens extra) of
        Inr r \<Rightarrow> \<lparr>er_cost = cost r, er_matchedTier = matchedTier r, er_error = None\<rparr>
      | Inl e \<Rightarrow> \<lparr>er_cost = Fin 0, er_matchedTier = [], er_error = Some e\<rparr>)"

definition exprUsesExtraVars :: "jsstr \<Rightarrow> bool" where
  "exprUsesExtraVars exprStr \<longleftrightarrow> exprStr \<noteq> []
     \<and> re_search (rseq [RWordB, RCap 1 (ralt (map (\<lambda>(v, key). RLit v) ESTIMATOR_VARS)), RWordB]) None exprStr \<noteq> None"

end
