(* ===== verification/RegexReading.thy ===== *)
theory RegexReading
  imports JsRegex
begin

text \<open>
  A calculus for the first match of a pattern.  \<open>reads r s t cs cs'\<close>: in front of the text \<open>t\<close> the first way in
  which \<open>r\<close> matches consumes \<open>s\<close> and turns the captures \<open>cs\<close> into \<open>cs'\<close>.  \<open>fails r t\<close>: \<open>r\<close> has no match in front of
  \<open>t\<close>.  A pattern that reads its text at every part reads it as a whole, whatever the matcher would try next.
\<close>

definition reads :: "regex \<Rightarrow> jsstr \<Rightarrow> jsstr \<Rightarrow> (nat \<times> jsstr) list \<Rightarrow> (nat \<times> jsstr) list \<Rightarrow> bool" where
  "reads r s t cs cs' \<longleftrightarrow> (\<forall>st. rs_rest st = s @ t \<longrightarrow> rs_caps st = cs \<longrightarrow>
     (\<exists>st' sts. re_step r st = st' # sts \<and> rs_rest st' = t \<and> rs_caps st' = cs'))"

definition fails :: "regex \<Rightarrow> jsstr \<Rightarrow> bool" where
  "fails r t \<longleftrightarrow> (\<forall>st. rs_rest st = t \<longrightarrow> re_step r st = [])"

named_theorems reading

text \<open>A text does not continue a run of the class \<open>p\<close>.\<close>

definition stops :: "(code_unit \<Rightarrow> bool) \<Rightarrow> jsstr \<Rightarrow> bool" where
  "stops p t \<longleftrightarrow> (case t of [] \<Rightarrow> True | c # _ \<Rightarrow> \<not> p c)"

lemma stops_simps [simp]: "stops p []" "stops p (c # t) \<longleftrightarrow> \<not> p c"
  by (simp_all add: stops_def)

lemma run_stops: "list_all p s \<Longrightarrow> stops p t \<Longrightarrow> takeWhile p (s @ t) = s"
  by (cases t) (auto simp: stops_def list_all_iff takeWhile_append)

lemma reads_seq:
  assumes "reads r sa (sb @ t) cs ca" "reads q sb t ca cb"
  shows "reads (RSeq r q) (sa @ sb) t cs cb"
  unfolding reads_def
proof (intro allI impI)
  fix st :: re_state assume "rs_rest st = (sa @ sb) @ t" "rs_caps st = cs"
  then obtain st1 sts1 where 1: "re_step r st = st1 # sts1" "rs_rest st1 = sb @ t" "rs_caps st1 = ca"
    using assms(1) by (auto simp: reads_def)
  then obtain st2 sts2 where "re_step q st1 = st2 # sts2" "rs_rest st2 = t" "rs_caps st2 = cb"
    using assms(2) by (auto simp: reads_def)
  with 1 show "\<exists>st' sts. re_step (RSeq r q) st = st' # sts \<and> rs_rest st' = t \<and> rs_caps st' = cb" by simp
qed

lemma reads_lit [reading]: "reads (RLit s) s t cs cs"
  by (simp add: reads_def)

lemma reads_eol [reading]: "reads REol [] [] cs cs"
  by (simp add: reads_def)

lemma reads_star:
  assumes "list_all p s" "stops p t"
  shows "reads (RStar (RCh p)) s t cs cs"
  using assms by (simp add: reads_def re_step_star_class run_stops del: re_step.simps)

lemma reads_spaces [reading]: "list_all is_space s \<Longrightarrow> stops is_space t \<Longrightarrow> reads RSpaces s t cs cs"
  by (simp add: RSpaces_def reads_star)

lemma reads_cap:
  assumes "reads r s t cs cs'"
  shows "reads (RCap i r) s t cs ((i, s) # cs')"
  unfolding reads_def
proof (intro allI impI)
  fix st :: re_state assume st: "rs_rest st = s @ t" "rs_caps st = cs"
  then obtain st1 sts1 where "re_step r st = st1 # sts1" "rs_rest st1 = t" "rs_caps st1 = cs'"
    using assms by (auto simp: reads_def)
  with st show "\<exists>st' sts. re_step (RCap i r) st = st' # sts \<and> rs_rest st' = t \<and> rs_caps st' = (i, s) # cs'" by simp
qed

lemma reads_plus:
  assumes "list_all p s" "s \<noteq> []" "stops p t"
  shows "reads (RPlus (RCh p)) s t cs cs"
proof -
  have "rev [1..<Suc (length s)] = length s # rev [1..<length s]" using assms(2) by (cases s) auto
  with assms show ?thesis by (simp add: reads_def re_step_plus_class run_stops del: re_step.simps upt_Suc)
qed

lemma reads_opt: "reads r s t cs cs' \<Longrightarrow> reads (ROpt r) s t cs cs'"
  by (fastforce simp: reads_def)

lemma reads_opt_skip: "fails r t \<Longrightarrow> reads (ROpt r) [] t cs cs"
  by (simp add: reads_def fails_def)

lemma reads_rseq_Nil [reading]: "reads (rseq []) [] t cs cs"
  by (simp add: reads_def)

lemma reads_rseq_Cons:
  assumes "reads r sa (sb @ t) cs ca" "reads (rseq rs) sb t ca cb"
  shows "reads (rseq (r # rs)) (sa @ sb) t cs cb"
proof (cases rs)
  case Nil
  have "sb = [] \<and> cb = ca"
    using assms(2) Nil unfolding reads_def
    by (auto dest: spec[of _ "\<lparr>rs_prev = None, rs_rest = sb @ t, rs_caps = ca\<rparr>"])
  with assms(1) Nil show ?thesis by simp
next
  case Cons
  with reads_seq[OF assms] show ?thesis by simp
qed

lemma reads_rseq_append:
  assumes "reads (rseq rs) sa (sb @ t) cs ca" "reads (rseq qs) sb t ca cb"
  shows "reads (rseq (rs @ qs)) (sa @ sb) t cs cb"
proof -
  have empty: "re_step (RLit []) = (\<lambda>x. [x])" by (rule ext) simp
  have "re_step (rseq (rs @ qs)) st = re_step (RSeq (rseq rs) (rseq qs)) st" for st
  proof (induction rs arbitrary: st)
    case Nil
    then show ?case by simp
  next
    case (Cons r rs)
    show ?case
    proof (cases "rs @ qs")
      case Nil
      then show ?thesis by (simp add: empty del: re_step.simps(2))
    next
      case (Cons q l)
      then have "rseq ((r # rs) @ qs) = RSeq r (rseq (rs @ qs))" by simp
      moreover have "re_step (RSeq (rseq (r # rs)) (rseq qs)) st = re_step (RSeq (RSeq r (rseq rs)) (rseq qs)) st"
        by (cases rs) (simp_all add: empty del: re_step.simps(2))
      moreover have "re_step (rseq (rs @ qs)) = re_step (RSeq (rseq rs) (rseq qs))" using Cons.IH by (rule ext)
      ultimately show ?thesis by (metis re_seq_assoc re_step.simps(3))
    qed
  qed
  with reads_seq[OF assms] show ?thesis by (simp add: reads_def)
qed

lemma reads_match:
  assumes "reads r s [] [] cs"
  shows "re_match r s = Some cs"
  using assms by (auto simp: reads_def re_match_def dest: spec[of _ "\<lparr>rs_prev = None, rs_rest = s, rs_caps = []\<rparr>"])

end
