(* ===== verification/TierRoundTrip.thy ===== *)
theory TierRoundTrip
  imports BillingTiers RegexReading
begin

text \<open>
  The visual editor reads back the configuration of one tier from the text it writes for it: the optional
  prices are written only when they are not zero, and the optional parts of the pattern take exactly those.
\<close>

section \<open>Texts of tier bodies\<close>

text \<open>A price whose text consists of number characters and denotes the price.\<close>

definition readable_price :: "number \<Rightarrow> bool" where
  "readable_price n \<longleftrightarrow> num_text n \<noteq> [] \<and> list_all num_char (num_text n) \<and> js_Number (num_text n) = n \<and> num_or_zero n = n"

definition opt_terms :: "(jsstr \<Rightarrow> number) \<Rightarrow> (jsstr \<times> jsstr) list \<Rightarrow> jsstr" where
  "opt_terms f vars = concat (map (\<lambda>(field, v). if f field = Fin 0 then [] else js '' + '' @ v @ js '' * '' @ num_text (f field)) vars)"

definition field_price :: "VisualTier \<Rightarrow> jsstr \<Rightarrow> number" where
  "field_price tier field = (case map_of (tier_fields tier) field of Some n \<Rightarrow> num_or_zero n | None \<Rightarrow> Fin 0)"

lemma js_join_Cons: "js_join sep (x # xs) = x @ concat (map ((@) sep) xs)"
  by (induction xs arbitrary: x) simp_all

lemma opt_terms_filter:
  "opt_terms f vars = concat (map ((@) (js '' + '')) (List.map_filter (\<lambda>(field, v). let n = f field in
     if n \<noteq> Fin 0 then Some (v @ js '' * '' @ num_text n) else None) vars))"
  by (induction vars) (auto simp: opt_terms_def Let_def List.map_filter_simps simp del: js_Cons js_Nil)

lemma tier_body_text:
  "buildTierBodyExpr tier = js ''p * '' @ num_text (num_or_zero (vt_input tier)) @ js '' + '' @ js ''c * ''
     @ num_text (num_or_zero (vt_output tier)) @ opt_terms (field_price tier) BILLING_CACHE_VAR_MAP"
  by (simp add: buildTierBodyExpr_def opt_terms_filter field_price_def js_join_Cons del: js_Cons js_Nil)

section \<open>Reading one coefficient\<close>

lemma not_space [simp]: "\<not> is_space 43" "\<not> is_space 42" "is_space 32" "\<not> is_space 41"
  by (simp_all add: is_space_def)

lemma coeff_reads:
  assumes "list_all num_char w" "w \<noteq> []" "stops num_char t"
  shows "reads (rseq (coeff_parts i v)) (v @ js '' * '' @ w) t cs ((i, w) # cs)"
proof -
  have star: "js '' * '' = js '' '' @ js ''*'' @ js '' ''" by simp
  have w: "stops is_space (w @ t)" using assms(1,2) by (cases w) (auto simp: num_char_def is_digit_def is_space_def)
  show ?thesis unfolding coeff_parts_def star append_assoc
    using assms w
    by (intro reads_rseq_Cons[where ca = cs] reads_lit reads_spaces)
      (auto simp: is_space_def intro!: reads_rseq_Cons[where sb = "[]", simplified] reads_cap reads_plus reads_rseq_Nil)
qed

lemma plus_coeff_reads:
  assumes "list_all num_char w" "w \<noteq> []" "stops num_char t" "v \<noteq> []" "\<not> is_space (hd v)"
  shows "reads (plus_coeff i v) (js '' + '' @ v @ js '' * '' @ w) t cs ((i, w) # cs)"
proof -
  have plus: "js '' + '' = js '' '' @ js ''+'' @ js '' ''" by simp
  have v: "stops is_space (v @ u)" for u using assms(4,5) by (cases v) auto
  have "reads (rseq (coeff_parts i v)) (v @ js '' * '' @ w) t cs ((i, w) # cs)" by (rule coeff_reads) (rule assms)+
  then show ?thesis unfolding plus_coeff_def plus append_assoc append_Cons append_Nil
    using v by (intro reads_rseq_Cons[where ca = cs] reads_lit reads_spaces) (auto simp: is_space_def)
qed

lemma spaces_lit_step:
  assumes "\<not> is_space c"
  shows "re_step (RSeq RSpaces (RSeq (RLit (c # l)) q)) st
    = re_step (RSeq (RLit (c # l)) q) (re_advance (length (takeWhile is_space (rs_rest st))) st)"
  unfolding RSpaces_def using assms by (intro re_seq_star_run) (auto simp: neq_Nil_conv)

lemma plus_coeff_fails_end: "\<not> is_space c \<Longrightarrow> c \<noteq> 43 \<Longrightarrow> fails (plus_coeff i v) (c # t)"
  by (simp add: fails_def plus_coeff_def coeff_parts_def spaces_lit_step re_seq_lit del: re_step.simps)

lemma word_not_space: "is_word c \<Longrightarrow> \<not> is_space c \<and> c \<noteq> 42 \<and> c \<noteq> 32"
  by (auto simp: is_word_def is_digit_def is_space_def)

lemma plus_coeff_fails_other:
  assumes "list_all is_word v" "list_all is_word w" "v \<noteq> []" "w \<noteq> []" "v \<noteq> w"
  shows "fails (plus_coeff i v) (js '' + '' @ w @ js '' * '' @ t)"
proof -
  obtain a v' where v: "v = a # v'" using assms(3) by (cases v) auto
  obtain b w' where w: "w = b # w'" using assms(4) by (cases w) auto
  have sp: "\<not> is_space a" "\<not> is_space b" using assms(1,2) v w word_not_space by auto
  let ?q = "RSeq RSpaces (RSeq (RLit (js ''*'')) (RSeq RSpaces (RCap i (RPlus (RCh num_char)))))"
  have tail: "re_step (RSeq (RLit v) ?q) st = []" if st: "rs_rest st = w @ js '' * '' @ t" for st
  proof (cases "starts_with (rs_rest st) v")
    case True
    then obtain u where u: "w @ js '' * '' @ t = v @ u" using st by (auto simp: starts_with_iff)
    have "\<not> (\<exists>x. v = w @ x \<and> x \<noteq> [] \<and> js '' * '' @ t = x @ u)"
      using assms(1) word_not_space by (auto simp: neq_Nil_conv)
    with u assms(5) obtain x where x: "w = v @ x" "u = x @ js '' * '' @ t" "x \<noteq> []"
      by (auto simp: append_eq_append_conv2 simp del: js_Cons js_Nil)
    then obtain c x' where "x = c # x'" "is_word c" using assms(2) by (cases x) auto
    with x True st word_not_space[of c] show ?thesis
      by (simp add: re_seq_lit spaces_lit_step del: re_step.simps)
  qed (simp add: re_seq_lit del: re_step.simps)
  show ?thesis
    unfolding fails_def
  proof (intro allI impI)
    fix st :: re_state assume st: "rs_rest st = js '' + '' @ w @ js '' * '' @ t"
    have "re_step (plus_coeff i v) st = re_step (RSeq (RLit v) ?q) (re_advance 1 (re_advance 1 (re_advance 1 st)))"
      using st sp by (simp add: plus_coeff_def coeff_parts_def spaces_lit_step re_seq_lit v w del: re_step.simps)
    then show "re_step (plus_coeff i v) st = []" using tail[of "re_advance 1 (re_advance 1 (re_advance 1 st))"] st by simp
  qed
qed

section \<open>Reading the optional prices\<close>

fun opt_caps :: "nat \<Rightarrow> (jsstr \<Rightarrow> number) \<Rightarrow> nat \<Rightarrow> (jsstr \<times> jsstr) list \<Rightarrow> (nat \<times> jsstr) list" where
  "opt_caps i f k [] = []"
| "opt_caps i f k ((field, v) # vars) = opt_caps i f (Suc k) vars @ (if f field = Fin 0 then [] else [(i + k, num_text (f field))])"

definition price_vars :: "(jsstr \<Rightarrow> number) \<Rightarrow> (jsstr \<times> jsstr) list \<Rightarrow> bool" where
  "price_vars f vars \<longleftrightarrow> list_all (\<lambda>(field, v). list_all is_word v \<and> v \<noteq> [] \<and> readable_price (f field)) vars \<and> distinct (map snd vars)"

lemma opt_terms_head:
  "opt_terms f vars = [] \<or> (\<exists>w u. opt_terms f vars = js '' + '' @ w @ js '' * '' @ u \<and> w \<in> snd ` set vars)"
proof (induction vars)
  case Nil
  show ?case by (simp add: opt_terms_def)
next
  case (Cons a vars)
  obtain field v where a: "a = (field, v)" by (cases a)
  have step: "opt_terms f (a # vars) = (if f field = Fin 0 then [] else js '' + '' @ v @ js '' * '' @ num_text (f field)) @ opt_terms f vars"
    by (simp add: opt_terms_def a del: js_Cons js_Nil)
  show ?case
  proof (cases "f field = Fin 0")
    case True
    with Cons step show ?thesis by auto
  next
    case False
    with step have "opt_terms f (a # vars) = js '' + '' @ v @ js '' * '' @ (num_text (f field) @ opt_terms f vars)"
      by (simp del: js_Cons js_Nil)
    moreover have "v \<in> snd ` set (a # vars)" by (simp add: a)
    ultimately show ?thesis by blast
  qed
qed

lemma opt_terms_stop: "\<not> p 32 \<Longrightarrow> stops p t \<Longrightarrow> stops p (opt_terms f vars @ t)"
  using opt_terms_head[of f vars] by auto

lemma plus_coeff_fails:
  assumes "list_all is_word v" "v \<noteq> []" "v \<notin> snd ` set vars" "price_vars f vars"
  shows "fails (plus_coeff i v) (opt_terms f vars @ 41 # t)"
  using opt_terms_head[of f vars]
proof
  assume "opt_terms f vars = []"
  then show ?thesis by (simp add: plus_coeff_fails_end)
next
  assume "\<exists>w u. opt_terms f vars = js '' + '' @ w @ js '' * '' @ u \<and> w \<in> snd ` set vars"
  then obtain w u where w: "opt_terms f vars = js '' + '' @ w @ js '' * '' @ u" "w \<in> snd ` set vars" by blast
  then have "list_all is_word w" "w \<noteq> []" using assms(4) by (auto simp: price_vars_def list_all_iff)
  with w assms(1-3) show ?thesis by (simp only: append_assoc) (rule plus_coeff_fails_other, auto)
qed

lemma opt_reads:
  assumes "price_vars f vars"
  shows "reads (rseq (map (\<lambda>(j, field, v). ROpt (plus_coeff (i + j) v)) (enumerate k vars)))
    (opt_terms f vars) (41 # t) cs (opt_caps i f k vars @ cs)"
  using assms
proof (induction vars arbitrary: k cs)
  case Nil
  show ?case by (simp add: opt_terms_def reads_rseq_Nil[simplified])
next
  case (Cons a vars)
  obtain field v where a: "a = (field, v)" by (cases a)
  from Cons.prems have pv: "price_vars f vars" "list_all is_word v" "v \<noteq> []" "v \<notin> snd ` set vars" "readable_price (f field)"
    by (auto simp: price_vars_def a)
  let ?s = "if f field = Fin 0 then [] else js '' + '' @ v @ js '' * '' @ num_text (f field)"
  let ?cs = "(if f field = Fin 0 then [] else [(i + k, num_text (f field))]) @ cs"
  have "reads (ROpt (plus_coeff (i + k) v)) ?s (opt_terms f vars @ 41 # t) cs ?cs"
  proof (cases "f field = Fin 0")
    case True
    with plus_coeff_fails[OF pv(2,3,4,1)] show ?thesis by (simp add: reads_opt_skip)
  next
    case False
    have "stops num_char (opt_terms f vars @ 41 # t)" by (rule opt_terms_stop) (simp_all add: num_char_def is_digit_def)
    moreover have "\<not> is_space (hd v)" using pv(2,3) word_not_space by (cases v) auto
    ultimately have "reads (plus_coeff (i + k) v) (js '' + '' @ v @ js '' * '' @ num_text (f field)) (opt_terms f vars @ 41 # t)
      cs ((i + k, num_text (f field)) # cs)"
      using pv(3,5) by (intro plus_coeff_reads) (simp_all add: readable_price_def)
    with False show ?thesis by (simp add: reads_opt del: js_Cons js_Nil)
  qed
  from reads_rseq_Cons[OF this Cons.IH[OF pv(1), of "Suc k"]] show ?case
    by (simp add: a opt_terms_def del: js_Cons js_Nil)
qed

lemma opt_caps_below: "j < k \<Longrightarrow> map_of (opt_caps i f k vars) (i + j) = None"
  by (induction vars arbitrary: k) (auto split: prod.splits)

lemma opt_caps_at:
  assumes "(j, field, v) \<in> set (enumerate k vars)" "\<And>n. map_of base (i + (k + n)) = None"
  shows "map_of (opt_caps i f k vars @ base) (i + j) = (if f field = Fin 0 then None else Some (num_text (f field)))"
  using assms
proof (induction vars arbitrary: k base)
  case (Cons a vars)
  obtain field' v' where a: "a = (field', v')" by (cases a)
  let ?base = "(if f field' = Fin 0 then [] else [(i + k, num_text (f field'))]) @ base"
  have below: "map_of (opt_caps i f (Suc k) vars) (i + k) = None" by (rule opt_caps_below) simp
  have base: "map_of ?base (i + (Suc k + n)) = None" for n using Cons.prems(2)[of "Suc n"] by (auto simp: map_add_def)
  from Cons.prems(1) consider "j = k" "field = field'" | "(j, field, v) \<in> set (enumerate (Suc k) vars)" by (auto simp: a)
  then show ?case
  proof cases
    case 1
    with below Cons.prems(2)[of 0] show ?thesis by (auto simp: a map_add_def)
  next
    case 2
    from Cons.IH[OF this base] show ?thesis by (simp add: a)
  qed
qed simp

lemma price_extras:
  assumes "\<And>j field v. (j, field, v) \<in> set (enumerate k vars) \<Longrightarrow>
      map_of m (i + j) = (if f field = Fin 0 then None else Some (num_text (f field)))"
    "price_vars f vars"
  shows "List.map_filter (\<lambda>(j, field, v). map_option (\<lambda>s. (field, js_Number s)) (map_of m (i + j))) (enumerate k vars)
    = map (\<lambda>(field, v). (field, f field)) (filter (\<lambda>(field, v). f field \<noteq> Fin 0) vars)"
  using assms
proof (induction vars arbitrary: k)
  case (Cons a vars)
  obtain field v where a: "a = (field, v)" by (cases a)
  have "price_vars f vars" "js_Number (num_text (f field)) = f field"
    using Cons.prems(2) by (auto simp: price_vars_def a readable_price_def)
  moreover have "map_of m (i + k) = (if f field = Fin 0 then None else Some (num_text (f field)))"
    using Cons.prems(1)[of k field v] by (simp add: a)
  ultimately show ?case using Cons.IH[of "Suc k"] Cons.prems(1) by (auto simp: a List.map_filter_simps)
qed (simp add: List.map_filter_simps)

lemma price_lookup:
  assumes "distinct (map fst vars)" "field \<in> fst ` set vars"
  shows "map_of (map (\<lambda>(field, v). (field, f field)) (filter (\<lambda>(field, v). f field \<noteq> Fin 0) vars)) field
    = (if f field = Fin 0 then None else Some (f field))"
  using assms
proof (induction vars)
  case (Cons a vars)
  obtain field' v' where a: "a = (field', v')" by (cases a)
  have none: "map_of (map (\<lambda>(field, v). (field, f field)) (filter (\<lambda>(field, v). f field \<noteq> Fin 0) vars)) field' = None"
    using Cons.prems(1) by (auto simp: map_of_eq_None_iff a image_iff)
  show ?case using Cons none by (cases "field = field'") (auto simp: a)
qed simp

section \<open>The round trip\<close>

definition readable_tier :: "VisualTier \<Rightarrow> bool" where
  "readable_tier tier \<longleftrightarrow> vt_label tier \<noteq> [] \<and> list_all not_quote (vt_label tier) \<and> vt_conditions tier = []
     \<and> readable_price (vt_input tier) \<and> readable_price (vt_output tier)
     \<and> list_all (\<lambda>(field, n). readable_price n) (tier_fields tier)
     \<and> vt_cache_mode tier = (if num_less (Fin 0) (vt_cache_create_1h tier) then CACHE_MODE_TIMED else CACHE_MODE_GENERIC)"

lemma billing_names: "distinct (map snd BILLING_CACHE_VAR_MAP)" "distinct (map fst BILLING_CACHE_VAR_MAP)"
  "list_all (\<lambda>(field, v). list_all is_word v \<and> v \<noteq> []) BILLING_CACHE_VAR_MAP"
  by (simp_all add: billing_cache_vars is_word_def is_digit_def)

lemma tier_fields_keys: "map fst (tier_fields tier) = map fst BILLING_CACHE_VAR_MAP"
  by (simp add: tier_fields_def billing_cache_vars)

lemma readable_zero: "readable_price (Fin 0)"
  by (simp add: readable_price_def num_text_def num_char_def is_digit_def num_or_zero_def js_Number_def js_Number_unsigned_def number_eval
      is_space_def num_truthy_def)

lemma tier_price_vars:
  assumes "readable_tier tier"
  shows "price_vars (field_price tier) BILLING_CACHE_VAR_MAP"
proof -
  have "readable_price (field_price tier field)" for field
  proof (cases "map_of (tier_fields tier) field")
    case (Some n)
    then have "readable_price n" using assms map_of_SomeD[OF Some] by (auto simp: readable_tier_def list_all_iff)
    with Some show ?thesis by (simp add: field_price_def readable_price_def)
  qed (simp add: field_price_def readable_zero)
  with billing_names show ?thesis by (auto simp: price_vars_def list_all_iff)
qed

lemma body_reads:
  assumes "list_all num_char a" "a \<noteq> []" "list_all num_char b" "b \<noteq> []" "price_vars f BILLING_CACHE_VAR_MAP"
  shows "reads (rseq (body_parts i)) (js ''p * '' @ a @ js '' + '' @ js ''c * '' @ b @ opt_terms f BILLING_CACHE_VAR_MAP) (41 # t) cs
    (opt_caps (i + 2) f 0 BILLING_CACHE_VAR_MAP @ (i + 1, b) # (i, a) # cs)"
proof -
  let ?opt = "opt_terms f BILLING_CACHE_VAR_MAP"
  have stop: "stops num_char (?opt @ 41 # t)" by (rule opt_terms_stop) (simp_all add: num_char_def is_digit_def)
  have p: "reads (rseq (coeff_parts i (js ''p''))) (js ''p'' @ js '' * '' @ a) ((js '' + '' @ js ''c'' @ js '' * '' @ b) @ ?opt @ 41 # t) cs ((i, a) # cs)"
    using assms(1,2) by (intro coeff_reads) (simp_all add: num_char_def is_digit_def)
  have c: "reads (plus_coeff (i + 1) (js ''c'')) (js '' + '' @ js ''c'' @ js '' * '' @ b) (?opt @ 41 # t) ((i, a) # cs) ((i + 1, b) # (i, a) # cs)"
    using assms(3,4) stop by (intro plus_coeff_reads) (simp_all add: is_space_def)
  have o: "reads (rseq (map (\<lambda>(j, field, v). ROpt (plus_coeff (i + 2 + j) v)) (enumerate 0 BILLING_CACHE_VAR_MAP))) ?opt (41 # t)
      ((i + 1, b) # (i, a) # cs) (opt_caps (i + 2) f 0 BILLING_CACHE_VAR_MAP @ (i + 1, b) # (i, a) # cs)"
    by (rule opt_reads) (rule assms)
  have shape: "js ''p * '' @ a @ js '' + '' @ js ''c * '' @ b @ ?opt
      = (js ''p'' @ js '' * '' @ a) @ ((js '' + '' @ js ''c'' @ js '' * '' @ b) @ ?opt)" by simp
  have "reads (rseq (plus_coeff (i + 1) (js ''c'') # map (\<lambda>(j, field, v). ROpt (plus_coeff (i + 2 + j) v)) (enumerate 0 BILLING_CACHE_VAR_MAP)))
      ((js '' + '' @ js ''c'' @ js '' * '' @ b) @ ?opt) (41 # t) ((i, a) # cs)
      (opt_caps (i + 2) f 0 BILLING_CACHE_VAR_MAP @ (i + 1, b) # (i, a) # cs)"
    by (rule reads_rseq_Cons[OF c o])
  then show ?thesis unfolding body_parts_def shape append_Cons append_Nil
    by (intro reads_rseq_append) (use p in \<open>simp_all only: append_assoc\<close>)
qed

lemma single_reads:
  assumes "list_all not_quote label" "list_all num_char a" "a \<noteq> []" "list_all num_char b" "b \<noteq> []" "price_vars f BILLING_CACHE_VAR_MAP"
  shows \<open>re_match single_re (js ''tier("'' @ label @ js ''", '' @ (js ''p * '' @ a @ js '' + '' @ js ''c * '' @ b
      @ opt_terms f BILLING_CACHE_VAR_MAP) @ js '')'') = Some (opt_caps 4 f 0 BILLING_CACHE_VAR_MAP @ [(3, b), (2, a), (1, label)])\<close>
proof (rule reads_match)
  define body where "body = js ''p * '' @ a @ js '' + '' @ js ''c * '' @ b @ opt_terms f BILLING_CACHE_VAR_MAP"
  let ?cs = "opt_caps 4 f 0 BILLING_CACHE_VAR_MAP @ [(3, b), (2, a), (1, label)]"
  let ?tail = "body_parts 2 @ [RLit (js '')''), REol]"
  have "reads (rseq (body_parts 2)) body (js '')'' @ []) [(1, label)] ?cs"
    using body_reads[OF assms(2-6), of 2 "[]" "[(1, label)]"] by (simp add: body_def)
  moreover have "reads (rseq [RLit (js '')''), REol]) (js '')'' @ []) [] ?cs ?cs"
    by (rule reads_rseq_Cons[OF reads_lit]) (simp add: reads_eol)
  then have "reads (rseq [RLit (js '')''), REol]) (js '')'') [] ?cs ?cs" by (simp only: append_Nil2)
  ultimately have r1: "reads (rseq ?tail) (body @ js '')'') [] [(1, label)] ?cs" by (rule reads_rseq_append)
  have "stops is_space ((body @ js '')'') @ [])" by (simp add: body_def is_space_def)
  then have r2: "reads (rseq (RSpaces # ?tail)) (js '' '' @ body @ js '')'') [] [(1, label)] ?cs"
    by (intro reads_rseq_Cons[OF reads_spaces r1]) (simp_all add: is_space_def)
  have r3: \<open>reads (rseq (RLit (js ''",'') # RSpaces # ?tail)) (js ''",'' @ js '' '' @ body @ js '')'') [] [(1, label)] ?cs\<close>
    by (rule reads_rseq_Cons[OF reads_lit r2])
  have "stops not_quote ((js ''\",'' @ js '' '' @ body @ js '')'') @ [])" by (simp add: not_quote_def)
  with assms(1) have r4: \<open>reads (rseq (RCap 1 (RStar (RCh not_quote)) # RLit (js ''",'') # RSpaces # ?tail))
      (label @ js ''",'' @ js '' '' @ body @ js '')'') [] [] ?cs\<close>
    by (intro reads_rseq_Cons[OF reads_cap[OF reads_star] r3])
  have sep: \<open>js ''", '' = js ''",'' @ js '' ''\<close> by simp
  show \<open>reads single_re (js ''tier("'' @ label @ js ''", '' @ (js ''p * '' @ a @ js '' + '' @ js ''c * '' @ b
      @ opt_terms f BILLING_CACHE_VAR_MAP) @ js '')'') [] [] ?cs\<close>
    unfolding body_def[symmetric] single_re_def sep using reads_rseq_Cons[OF reads_lit r4]
    by (simp only: append_Cons append_Nil append_assoc)
qed

lemma unversioned_tier: "re_match unversioned_re (js ''tier(\"'' @ s) = None"
  by (simp add: re_match_def unversioned_re_def re_seq_lit)

lemma field_prices:
  assumes "readable_tier tier"
  shows "field_price tier (js ''cache_read_unit_cost'') = vt_cache_read tier"
    "field_price tier (js ''cache_create_unit_cost'') = vt_cache_create tier"
    "field_price tier (js ''cache_create_1h_unit_cost'') = vt_cache_create_1h tier"
    "field_price tier (js ''image_unit_cost'') = vt_image tier"
    "field_price tier (js ''image_output_unit_cost'') = vt_image_output tier"
    "field_price tier (js ''audio_input_unit_cost'') = vt_audio_input tier"
    "field_price tier (js ''audio_output_unit_cost'') = vt_audio_output tier"
  using assms by (simp_all add: field_price_def tier_fields_def readable_tier_def readable_price_def)

lemma price_keys:
  "s \<in> {''cache_read_unit_cost'', ''cache_create_unit_cost'', ''cache_create_1h_unit_cost'', ''image_unit_cost'',
     ''image_output_unit_cost'', ''audio_input_unit_cost'', ''audio_output_unit_cost''} \<Longrightarrow> js s \<in> fst ` set BILLING_CACHE_VAR_MAP"
  by (auto simp: billing_cache_vars simp del: js_Cons js_Nil)

text \<open>The tier that the captures of a readable text give.\<close>

lemma tier_from_caps:
  assumes "price_vars f BILLING_CACHE_VAR_MAP"
  shows "tier_from_match 2 [] label (opt_caps 4 f 0 BILLING_CACHE_VAR_MAP @ [(3, b), (2, a), (1, label')])
    = \<lparr>vt_label = label, vt_conditions = [], vt_input = js_Number a, vt_output = js_Number b,
       vt_cache_mode = (if num_less (Fin 0) (f (js ''cache_create_1h_unit_cost'')) then CACHE_MODE_TIMED else CACHE_MODE_GENERIC),
       vt_cache_read = f (js ''cache_read_unit_cost''), vt_cache_create = f (js ''cache_create_unit_cost''),
       vt_cache_create_1h = f (js ''cache_create_1h_unit_cost''), vt_image = f (js ''image_unit_cost''),
       vt_image_output = f (js ''image_output_unit_cost''), vt_audio_input = f (js ''audio_input_unit_cost''),
       vt_audio_output = f (js ''audio_output_unit_cost'')\<rparr>"
proof -
  let ?m = "opt_caps 4 f 0 BILLING_CACHE_VAR_MAP @ [(3, b), (2, a), (1, label')]"
  have caps: "map_of ?m (4 + j) = (if f field = Fin 0 then None else Some (num_text (f field)))"
    if "(j, field, v) \<in> set (enumerate 0 BILLING_CACHE_VAR_MAP)" for j field v
    using that by (rule opt_caps_at) simp
  have four: "(2::nat) + 2 + j = 4 + j" for j by simp
  have extras: "List.map_filter (\<lambda>(j, field, v). map_option (\<lambda>s. (field, js_Number s)) (map_of ?m (2 + 2 + j))) (enumerate 0 BILLING_CACHE_VAR_MAP)
      = map (\<lambda>(field, v). (field, f field)) (filter (\<lambda>(field, v). f field \<noteq> Fin 0) BILLING_CACHE_VAR_MAP)"
    unfolding four using caps assms by (rule price_extras)
  have low: "cap 2 ?m = a" "cap (2 + 1) ?m = b" by (simp_all add: cap_def billing_cache_vars)
  have prices: "num_or_zero (f field) = f field" if "field \<in> fst ` set BILLING_CACHE_VAR_MAP" for field
    using assms that by (auto simp: price_vars_def list_all_iff readable_price_def)
  note look = price_lookup[OF billing_names(2), of _ f]
  have cost: "extra_cost \<lparr>px_label = l, px_conditions = c, px_input = x, px_output = y, px_cache_mode = z,
      px_extras = map (\<lambda>(field, v). (field, f field)) (filter (\<lambda>(field, v). f field \<noteq> Fin 0) BILLING_CACHE_VAR_MAP)\<rparr> field = f (js field)"
    if "js field \<in> fst ` set BILLING_CACHE_VAR_MAP" for l c x y z field
    using look[OF that] prices[OF that] by (simp add: extra_cost_def)
  have "num_less (Fin 0) (Fin 0) = False" by (simp add: num_less_def num_val_def is_finite_def)
  then show ?thesis
    unfolding tier_from_match_def low extras
    by (simp add: normalizeVisualTier_def getTierCacheMode_def cost price_keys look del: js_Cons js_Nil)
qed

lemma normalize_settled:
  assumes "list_all (\<lambda>(field, n). num_or_zero n = n) (tier_fields tier)"
  shows "normalizeVisualTier (tier_partial tier) = tier"
  using assms
  by (simp add: tier_fields_def normalizeVisualTier_def tier_partial_def getTierCacheMode_def extra_cost_def)

lemma parse_single:
  assumes "re_match unversioned_re e = None" "re_match single_re e = Some m"
  shows "tryParseVisualConfig (Some e) = (if e = [] then None else
    Some [normalizeVisualTier (tier_partial (normalizeVisualTier (tier_partial (tier_from_match 2 [] (cap 1 m) m))))])"
  using assms by (simp add: tryParseVisualConfig_def normalizeVisualConfig_def)

lemma read_single_tier:
  assumes "list_all not_quote label" "list_all num_char a" "a \<noteq> []" "list_all num_char b" "b \<noteq> []" "price_vars f BILLING_CACHE_VAR_MAP"
  shows \<open>tryParseVisualConfig (Some (js ''tier("'' @ label @ js ''", '' @ (js ''p * '' @ a @ js '' + '' @ js ''c * '' @ b
      @ opt_terms f BILLING_CACHE_VAR_MAP) @ js '')''))
    = Some [tier_from_match 2 [] label (opt_caps 4 f 0 BILLING_CACHE_VAR_MAP @ [(3, b), (2, a), (1, label)])]\<close>
proof -
  let ?m = "opt_caps 4 f 0 BILLING_CACHE_VAR_MAP @ [(3, b), (2, a), (1, label)]"
  let ?t = "tier_from_match 2 [] label ?m"
  have label: "cap 1 ?m = label" by (simp add: cap_def billing_cache_vars)
  have "num_or_zero (f field) = f field" if "field \<in> fst ` set BILLING_CACHE_VAR_MAP" for field
    using assms(6) that by (auto simp: price_vars_def list_all_iff readable_price_def)
  then have "list_all (\<lambda>(field, n). num_or_zero n = n) (tier_fields ?t)"
    unfolding tier_from_caps[OF assms(6)] by (simp add: tier_fields_def price_keys del: js_Cons js_Nil)
  note settled = normalize_settled[OF this]
  have "js ''tier(\"'' \<noteq> []" by simp
  then show ?thesis
    unfolding parse_single[OF unversioned_tier single_reads[OF assms]] label settled by simp
qed

text \<open>
  C16. The visual editor reads back what it writes for a single unconditional tier: when the tier has no conditions, its
  label is not empty and has no quote, its prices are numbers that their text denotes (all natural numbers below
  \<open>2 ^ 53\<close>, for example), and its cache mode is the timed one exactly if the price of a one-hour cache entry is
  positive, then reading the generated expression gives the configuration of that tier, with every optional price
  and the cache mode.
\<close>

theorem tier_round_trip:
  assumes "readable_tier tier"
  shows "tryParseVisualConfig (Some (generateExprFromVisualConfig (Some [tier]))) = Some [tier]"
proof -
  note t = assms[unfolded readable_tier_def]
  have zero: "num_or_zero (vt_input tier) = vt_input tier" "num_or_zero (vt_output tier) = vt_output tier"
    using t by (simp_all add: readable_price_def)
  have expr: "generateExprFromVisualConfig (Some [tier]) = js ''tier(\"'' @ vt_label tier @ js ''\", ''
      @ (js ''p * '' @ num_text (vt_input tier) @ js '' + '' @ js ''c * '' @ num_text (vt_output tier)
         @ opt_terms (field_price tier) BILLING_CACHE_VAR_MAP) @ js '')''"
    using t zero by (simp add: generateExprFromVisualConfig_def tier_call_def tier_body_text buildConditionStr_def Let_def del: js_Cons js_Nil)
  have "tryParseVisualConfig (Some (generateExprFromVisualConfig (Some [tier]))) =
      Some [tier_from_match 2 [] (vt_label tier) (opt_caps 4 (field_price tier) 0 BILLING_CACHE_VAR_MAP
        @ [(3, num_text (vt_output tier)), (2, num_text (vt_input tier)), (1, vt_label tier)])]"
    unfolding expr using t by (intro read_single_tier tier_price_vars assms) (simp_all add: readable_price_def)
  then show ?thesis
    unfolding tier_from_caps[OF tier_price_vars[OF assms]] field_prices[OF assms] using t by (simp add: readable_price_def)
qed

lemma scan_digits: "list_all is_digit s \<Longrightarrow> s \<noteq> [] \<Longrightarrow> scan_decimal s = Some \<lparr>d_int = s, d_dot = False, d_frac = [], d_exp = []\<rparr>"
  by (simp add: scan_decimal_def scan_frac_def scan_exponent_def takeWhile_eq_all_conv[THEN iffD2] dropWhile_eq_Nil_conv[THEN iffD2] list_all_iff)

lemma digits_number:
  assumes "list_all is_digit s" "s \<noteq> []" "val_in_base 10 s < 2 ^ 53"
  shows "js_Number s = Fin (of_nat (val_in_base 10 s))"
proof -
  obtain c cs where s: "s = c # cs" using assms(2) by (cases s) auto
  have d: "is_digit c" "cs \<noteq> [] \<Longrightarrow> is_digit (hd cs)" using assms(1) s by (cases cs; simp)+
  then have c: "c \<noteq> 43" "c \<noteq> 45" "cs \<noteq> [] \<Longrightarrow> hd cs \<notin> {120, 88, 111, 79, 98, 66}" by (auto simp: is_digit_def)
  have "js_trim s = s" using assms(1) by (intro js_trim_no_space) (auto simp: list_all_iff is_digit_def is_space_def)
  moreover have "s \<noteq> js ''Infinity''" using assms(1) by (auto simp: is_digit_def)
  moreover have "int (val_in_base 10 s) < 2 ^ 53" using assms(3) by (metis of_nat_less_iff of_nat_numeral of_nat_power)
  then have "round_num (of_int (int (val_in_base 10 s))) = Fin (of_int (int (val_in_base 10 s)))" by (intro round_num_int) simp
  then have "round_signed False (of_nat (val_in_base 10 s)) = Fin (of_nat (val_in_base 10 s))"
    by (simp add: round_signed_def signed_zero_def)
  moreover have "decimal_val \<lparr>d_int = s, d_dot = False, d_frac = [], d_exp = []\<rparr> = of_nat (val_in_base 10 s)"
    by (simp add: decimal_val_def exponent_val_def)
  ultimately show ?thesis
    using c scan_digits[OF assms(1,2)] by (auto simp: s js_Number_def js_Number_unsigned_def decimal_text_def)
qed

lemma natural_price:
  assumes "n < 2 ^ 53"
  shows "readable_price (Fin (of_nat n))"
proof -
  have "list_all num_char (nat_text n)" using nat_text_digits[of n] by (auto simp: list_all_iff num_char_def)
  with digits_number[of "nat_text n"] nat_text_digits[of n] assms show ?thesis
    by (simp add: readable_price_def num_text_nat num_or_zero_def num_truthy_def)
qed

lemma numeral_price: "(numeral k :: nat) < 2 ^ 53 \<Longrightarrow> readable_price (Fin (numeral k))"
  using natural_price[of "numeral k"] by simp

definition sample_visual_tier :: VisualTier where
  "sample_visual_tier = \<lparr>vt_label = js ''base'', vt_conditions = [], vt_input = Fin 3, vt_output = Fin 15, vt_cache_mode = CACHE_MODE_TIMED,
     vt_cache_read = Fin 0, vt_cache_create = Fin 0, vt_cache_create_1h = Fin 6, vt_image = Fin 0, vt_image_output = Fin 40,
     vt_audio_input = Fin 0, vt_audio_output = Fin 0\<rparr>"

theorem tier_round_trip_witness:
  "tryParseVisualConfig (Some (generateExprFromVisualConfig (Some [sample_visual_tier]))) = Some [sample_visual_tier]
   \<and> generateExprFromVisualConfig (Some [sample_visual_tier]) = js ''tier(\"base\", p * 3 + c * 15 + cc1h * 6 + img_o * 40)''"
proof
  show "tryParseVisualConfig (Some (generateExprFromVisualConfig (Some [sample_visual_tier]))) = Some [sample_visual_tier]"
    by (rule tier_round_trip)
      (simp add: readable_tier_def sample_visual_tier_def tier_fields_def not_quote_def readable_zero numeral_price num_less_def is_finite_def num_val_def)
  have "num_text (Fin 3) = js ''3''" "num_text (Fin 15) = js ''15''" "num_text (Fin 6) = js ''6''" "num_text (Fin 40) = js ''40''"
    by (simp_all add: num_text_def positive_text_def nat_text.simps)
  then show "generateExprFromVisualConfig (Some [sample_visual_tier]) = js ''tier(\"base\", p * 3 + c * 15 + cc1h * 6 + img_o * 40)''"
    by (simp add: generateExprFromVisualConfig_def tier_call_def tier_body_text buildConditionStr_def sample_visual_tier_def
        opt_terms_def billing_cache_vars field_price_def tier_fields_def num_or_zero_def num_truthy_def)
qed

section \<open>Prices that are not numbers\<close>

text \<open>
  The reader of single tiers does not compare the regenerated expression with its input.  A coefficient that is
  not a number, such as \<open>1-2\<close> (where the evaluator computes a difference), is read as the price \<open>NaN\<close>, and the
  expression generated from the configuration charges nothing for it.
\<close>

lemma misread_price:
  assumes "list_all not_quote label" "label \<noteq> []" "list_all num_char a" "a \<noteq> []" "js_Number a = NaN" "readable_price n"
  shows "\<exists>tier. tryParseVisualConfig (Some (js ''tier(\"'' @ label @ js ''\", p * '' @ a @ js '' + c * '' @ num_text n @ js '')'')) = Some [tier]
    \<and> generateExprFromVisualConfig (Some [tier]) = js ''tier(\"'' @ label @ js ''\", p * 0 + c * '' @ num_text n @ js '')''"
proof -
  have vars: "price_vars (\<lambda>_. Fin 0) BILLING_CACHE_VAR_MAP"
    using billing_names readable_zero by (auto simp: price_vars_def list_all_iff)
  have none: "opt_terms (\<lambda>_. Fin 0) vars = []" for vars by (simp add: opt_terms_def)
  let ?t = "tier_from_match 2 [] label (opt_caps 4 (\<lambda>_. Fin 0) 0 BILLING_CACHE_VAR_MAP @ [(3, num_text n), (2, a), (1, label)])"
  have "tryParseVisualConfig (Some (js ''tier(\"'' @ label @ js ''\", p * '' @ a @ js '' + c * '' @ num_text n @ js '')'')) = Some [?t]"
    using read_single_tier[OF assms(1,3,4) _ _ vars, of "num_text n"] assms(6) by (simp add: readable_price_def none)
  moreover have "opt_terms (field_price ?t) BILLING_CACHE_VAR_MAP = []"
    unfolding tier_from_caps[OF vars] by (simp add: opt_terms_def billing_cache_vars field_price_def tier_fields_def num_or_zero_def)
  moreover have "vt_label ?t = label" "vt_conditions ?t = []" "vt_input ?t = NaN" "vt_output ?t = n"
    unfolding tier_from_caps[OF vars] using assms(5,6) by (simp_all add: readable_price_def)
  moreover have "num_text (num_or_zero NaN) = js ''0''" "num_or_zero n = n"
    using assms(6) by (simp_all add: num_text_def num_or_zero_def num_truthy_def readable_price_def)
  ultimately have "tryParseVisualConfig (Some (js ''tier(\"'' @ label @ js ''\", p * '' @ a @ js '' + c * '' @ num_text n @ js '')'')) = Some [?t]"
    "generateExprFromVisualConfig (Some [?t]) = js ''tier(\"'' @ label @ js ''\", p * 0 + c * '' @ num_text n @ js '')''"
    using assms(2) by (simp_all add: generateExprFromVisualConfig_def tier_call_def tier_body_text buildConditionStr_def)
  then show ?thesis by blast
qed

end
