(* ===== verification/TierEstimate.thy ===== *)
theory TierEstimate
  imports TierRoundTrip
begin

text \<open>
  The editor, the parser and the evaluator together: the expression that \<open>generateExprFromVisualConfig\<close> writes for a
  tier is read by the tokenizer and the parser as the sum of price times token count, and \<open>evalExprLocally\<close>
  estimates exactly that sum.  Tokens are compared without their positions, which only error messages use.
\<close>

section \<open>Lexing known text\<close>

definition lexes :: "jsstr \<Rightarrow> jsstr \<Rightarrow> token_type \<Rightarrow> jsstr \<Rightarrow> bool" where
  "lexes l r ty v \<longleftrightarrow> l \<noteq> [] \<and> \<not> is_space (hd l) \<and> (\<forall>i. read_token \<lparr>lx_index = i, lx_rest = l @ r\<rparr> =
     Inr (\<lparr>tok_type = ty, tok_value = v, tok_pos = i\<rparr>, \<lparr>lx_index = i + length l, lx_rest = r\<rparr>))"

definition kind :: "token \<Rightarrow> token_type \<times> jsstr" where
  "kind t = (tok_type t, tok_value t)"

inductive lexed :: "jsstr \<Rightarrow> (token_type \<times> jsstr) list \<Rightarrow> bool" where
  lexed_end: "lexed [] []"
| lexed_token: "lexes l r ty v \<Longrightarrow> lexed r ks \<Longrightarrow> lexed (l @ r) ((ty, v) # ks)"
| lexed_space: "lexes l r ty v \<Longrightarrow> lexed r ks \<Longrightarrow> lexed (32 # l @ r) ((ty, v) # ks)"

lemma tokenize_step:
  assumes "lexes l r ty v" "list_all is_space w" "length acc < MAX_TOKENS"
  shows "\<exists>j k. tokenize_loop \<lparr>lx_index = i, lx_rest = w @ l @ r\<rparr> acc
    = tokenize_loop \<lparr>lx_index = j, lx_rest = r\<rparr> (acc @ [\<lparr>tok_type = ty, tok_value = v, tok_pos = k\<rparr>])"
proof -
  have l: "l \<noteq> []" "stops is_space (l @ r)" using assms(1) by (auto simp: lexes_def neq_Nil_conv)
  then have "takeWhile is_space (w @ l @ r) = w" using assms(2) by (intro run_stops)
  then have "skipWhitespace \<lparr>lx_index = i, lx_rest = w @ l @ r\<rparr> = \<lparr>lx_index = i + length w, lx_rest = l @ r\<rparr>"
    by (simp add: skipWhitespace_def advance_lexer_def)
  moreover have "read_token \<lparr>lx_index = i + length w, lx_rest = l @ r\<rparr> =
      Inr (\<lparr>tok_type = ty, tok_value = v, tok_pos = i + length w\<rparr>, \<lparr>lx_index = i + length w + length l, lx_rest = r\<rparr>)"
    using assms(1) by (simp add: lexes_def)
  ultimately show ?thesis using l(1) assms(3) by (subst tokenize_loop.simps) (auto simp: Let_def)
qed

lemma tokenize_more:
  assumes "lexes l r ty v" "list_all is_space w" "length acc < MAX_TOKENS"
    "\<And>j acc'. length acc' = Suc (length acc) \<Longrightarrow>
       \<exists>ts. tokenize_loop \<lparr>lx_index = j, lx_rest = r\<rparr> acc' = Inr (acc' @ ts) \<and> map kind ts = ks"
  shows "\<exists>ts. tokenize_loop \<lparr>lx_index = i, lx_rest = w @ l @ r\<rparr> acc = Inr (acc @ ts) \<and> map kind ts = (ty, v) # ks"
proof -
  obtain j k where step: "tokenize_loop \<lparr>lx_index = i, lx_rest = w @ l @ r\<rparr> acc
    = tokenize_loop \<lparr>lx_index = j, lx_rest = r\<rparr> (acc @ [\<lparr>tok_type = ty, tok_value = v, tok_pos = k\<rparr>])"
    using tokenize_step[OF assms(1-3)] by blast
  obtain ts where "tokenize_loop \<lparr>lx_index = j, lx_rest = r\<rparr> (acc @ [\<lparr>tok_type = ty, tok_value = v, tok_pos = k\<rparr>])
      = Inr ((acc @ [\<lparr>tok_type = ty, tok_value = v, tok_pos = k\<rparr>]) @ ts)" "map kind ts = ks"
    using assms(4)[of "acc @ [\<lparr>tok_type = ty, tok_value = v, tok_pos = k\<rparr>]" j] by auto
  with step show ?thesis by (intro exI[of _ "\<lparr>tok_type = ty, tok_value = v, tok_pos = k\<rparr> # ts"]) (simp add: kind_def)
qed

lemma lexed_tokenize:
  assumes "lexed s ks" "length acc + length ks \<le> MAX_TOKENS"
  shows "\<exists>ts. tokenize_loop \<lparr>lx_index = i, lx_rest = s\<rparr> acc = Inr (acc @ ts) \<and> map kind ts = ks @ [(TEof, [])]"
  using assms
proof (induction arbitrary: i acc rule: lexed.induct)
  case lexed_end
  show ?case by (subst tokenize_loop.simps) (simp add: eof_token_def kind_def)
next
  case (lexed_token l r ty v ks)
  have "\<exists>ts. tokenize_loop \<lparr>lx_index = i, lx_rest = [] @ l @ r\<rparr> acc = Inr (acc @ ts) \<and> map kind ts = (ty, v) # ks @ [(TEof, [])]"
    using lexed_token.hyps(1) by (rule tokenize_more) (use lexed_token in simp_all)
  then show ?case by simp
next
  case (lexed_space l r ty v ks)
  have "\<exists>ts. tokenize_loop \<lparr>lx_index = i, lx_rest = [32] @ l @ r\<rparr> acc = Inr (acc @ ts) \<and> map kind ts = (ty, v) # ks @ [(TEof, [])]"
    using lexed_space.hyps(1) by (rule tokenize_more) (use lexed_space in simp_all)
  then show ?case by simp
qed

definition ident_char :: "code_unit \<Rightarrow> bool" where
  "ident_char c \<longleftrightarrow> isIdentifierPart (Some c)"

lemma lexes_identifier:
  assumes "list_all ident_char l" "l \<noteq> []" "isIdentifierStart (Some (hd l))" "stops ident_char r"
  shows "lexes l r TIdentifier l"
proof -
  obtain c cs where l: "l = c # cs" using assms(2) by (cases l) auto
  have run: "takeWhile (\<lambda>c. isIdentifierPart (Some c)) (cs @ r) = cs"
    using run_stops[of ident_char cs r] assms(1,4) l by (simp add: ident_char_def[abs_def])
  have c: "isIdentifierStart (Some c)" "\<not> isDigit (Some c)" "c \<noteq> 46" "c \<noteq> 34" "c \<noteq> 39" "\<not> is_space c"
    using assms(3) l by (auto simp: isIdentifierStart_def isDigit_def is_space_def)
  then show ?thesis
    by (simp add: lexes_def l read_token_def char_at_def readIdentifier_def run advance_lexer_def Let_def)
qed

text \<open>Digits, or digits, a point and digits.\<close>

definition plain_decimal :: "jsstr \<Rightarrow> jsstr \<Rightarrow> jsstr \<Rightarrow> bool" where
  "plain_decimal a b l \<longleftrightarrow> a \<noteq> [] \<and> list_all is_digit a \<and> list_all is_digit b \<and> l = a @ (if b = [] then [] else 46 # b)"

lemma scan_plain_decimal:
  assumes "plain_decimal a b l" "stops (\<lambda>c. is_digit c \<or> c \<in> {46, 101, 69}) r"
  shows "scan_decimal (l @ r) = Some \<lparr>d_int = a, d_dot = (b \<noteq> []), d_frac = b, d_exp = []\<rparr>"
proof -
  have run: "takeWhile is_digit (s @ u) = s \<and> dropWhile is_digit (s @ u) = u" if "list_all is_digit s" "stops is_digit u" for s u
    using run_stops[OF that] by (metis append_eq_conv_conj dropWhile_eq_drop)
  have r: "stops is_digit r" "scan_frac r = (False, [], r)" "scan_exponent r = []"
    using assms(2) by (cases r; simp add: scan_frac_def scan_exponent_def)+
  show ?thesis
  proof (cases "b = []")
    case True
    with assms(1) run[of a r] r show ?thesis by (simp add: plain_decimal_def scan_decimal_def)
  next
    case False
    have "stops is_digit (46 # b @ r)" by (simp add: is_digit_def)
    with False assms(1) run[of a "46 # b @ r"] run[of b r] r show ?thesis
      by (simp add: plain_decimal_def scan_decimal_def scan_frac_def)
  qed
qed

lemma lexes_number:
  assumes "plain_decimal a b l" "stops (\<lambda>c. is_digit c \<or> c \<in> {46, 101, 69}) r" "is_finite (js_Number l)"
  shows "lexes l r TNumber l"
proof -
  obtain c cs where a: "a = c # cs" using assms(1) by (cases a) (auto simp: plain_decimal_def)
  have l: "l = c # cs @ (if b = [] then [] else 46 # b)" "is_digit c" using assms(1) a by (auto simp: plain_decimal_def)
  have "isDigit (char_at 0 (l @ r))" "\<not> is_space (hd l)" "l \<noteq> []"
    using l by (auto simp: char_at_def isDigit_def is_digit_def is_space_def)
  moreover have "decimal_text \<lparr>d_int = a, d_dot = (b \<noteq> []), d_frac = b, d_exp = []\<rparr> = l"
    using assms(1) by (simp add: plain_decimal_def decimal_text_def)
  ultimately show ?thesis
    using assms(3) scan_plain_decimal[OF assms(1,2)] by (simp add: lexes_def read_token_def readNumber_def advance_lexer_def Let_def)
qed

lemma string_body_plain: "list_all (\<lambda>c. c \<notin> {34, 10, 13, 92}) s \<Longrightarrow> string_body 34 s s"
  by (induction s) (auto intro: string_body.intros)

lemma lexes_string:
  assumes "list_all (\<lambda>c. c \<notin> {34, 10, 13, 92}) s"
  shows "lexes (34 # s @ [34]) r TString s"
  using readString_loop_complete[OF string_body_plain[OF assms], of _ _ r "[]"]
  by (simp add: lexes_def read_token_def char_at_def isDigit_def readString_def is_space_def Let_def)

lemma lexes_symbol:
  assumes "c \<in> set (js ''+*(),'')" "stops (\<lambda>d. d = 42) r"
  shows "lexes [c] r TSymbol [c]"
  using assms
  by (cases r) (auto simp: lexes_def read_token_def char_at_def isDigit_def isIdentifierStart_def readSymbol_def two_character_symbols_def
      one_character_symbols_def advance_lexer_def is_space_def Let_def)

section \<open>Tokens of sums of products\<close>

definition name_text :: "jsstr \<Rightarrow> bool" where
  "name_text v \<longleftrightarrow> v \<noteq> [] \<and> list_all ident_char v \<and> isIdentifierStart (Some (hd v)) \<and> v \<noteq> js ''true'' \<and> v \<noteq> js ''false''"

definition digits_text :: "jsstr \<Rightarrow> bool" where
  "digits_text w \<longleftrightarrow> (\<exists>a b. plain_decimal a b w) \<and> is_finite (js_Number w)"

definition term_text :: "jsstr \<times> jsstr \<Rightarrow> jsstr" where
  "term_text t = (case t of (v, w) \<Rightarrow> v @ js '' * '' @ w)"

definition term_kinds :: "jsstr \<times> jsstr \<Rightarrow> (token_type \<times> jsstr) list" where
  "term_kinds t = (case t of (v, w) \<Rightarrow> [(TIdentifier, v), (TSymbol, js ''*''), (TNumber, w)])"

definition more_text :: "(jsstr \<times> jsstr) list \<Rightarrow> jsstr" where
  "more_text ts = concat (map (\<lambda>t. js '' + '' @ term_text t) ts)"

definition more_kinds :: "(jsstr \<times> jsstr) list \<Rightarrow> (token_type \<times> jsstr) list" where
  "more_kinds ts = concat (map (\<lambda>t. (TSymbol, js ''+'') # term_kinds t) ts)"

definition sum_terms :: "(jsstr \<times> jsstr) list \<Rightarrow> bool" where
  "sum_terms ts \<longleftrightarrow> list_all (\<lambda>(v, w). name_text v \<and> digits_text w) ts"

definition closing :: "jsstr \<Rightarrow> bool" where
  "closing r \<longleftrightarrow> r \<noteq> [] \<and> hd r \<in> {32, 41}"

lemma lexed_term:
  assumes "name_text v" "digits_text w" "closing r" "lexed r ks"
  shows "lexed (32 # term_text (v, w) @ r) (term_kinds (v, w) @ ks)"
proof -
  obtain c r' where r: "r = c # r'" "c = 32 \<or> c = 41" using assms(3) by (cases r) (auto simp: closing_def)
  have w: "lexes w r TNumber w" using assms(2) r lexes_number[of _ _ w r] by (auto simp: digits_text_def is_digit_def)
  have star: "lexes [42] (32 # w @ r) TSymbol [42]" by (rule lexes_symbol) simp_all
  have v: "lexes v (32 # 42 # 32 # w @ r) TIdentifier v"
    using assms(1)
    by (intro lexes_identifier)
      (auto simp: name_text_def ident_char_def isIdentifierPart_def isIdentifierStart_def isDigit_def)
  have "lexed (32 # w @ r) ((TNumber, w) # ks)" using w assms(4) by (rule lexed_space)
  then have "lexed (32 # [42] @ 32 # w @ r) ((TSymbol, [42]) # (TNumber, w) # ks)" by (rule lexed_space[OF star])
  then have "lexed (32 # v @ 32 # 42 # 32 # w @ r) ((TIdentifier, v) # (TSymbol, [42]) # (TNumber, w) # ks)"
    using lexed_space[OF v] by simp
  then show ?thesis by (simp add: term_text_def term_kinds_def)
qed

lemma lexed_more:
  assumes "sum_terms ts" "closing r" "lexed r ks"
  shows "lexed (more_text ts @ r) (more_kinds ts @ ks) \<and> closing (more_text ts @ r)"
  using assms(1)
proof (induction ts)
  case Nil
  with assms show ?case by (simp add: more_text_def more_kinds_def)
next
  case (Cons t ts)
  obtain v w where t: "t = (v, w)" by (cases t)
  from Cons have ih: "lexed (more_text ts @ r) (more_kinds ts @ ks)" "closing (more_text ts @ r)" and vw: "name_text v" "digits_text w"
    by (auto simp: sum_terms_def t)
  have plus: "lexes [43] (32 # term_text (v, w) @ more_text ts @ r) TSymbol [43]" by (rule lexes_symbol) simp_all
  have "lexed (32 # [43] @ 32 # term_text (v, w) @ more_text ts @ r) ((TSymbol, [43]) # term_kinds (v, w) @ more_kinds ts @ ks)"
    using lexed_term[OF vw ih(2,1)] by (rule lexed_space[OF plus])
  then show ?case by (simp add: t more_text_def more_kinds_def closing_def)
qed

section \<open>Parsing sums of products\<close>

text \<open>
  \<open>accepts p d ks k e\<close>: at a nesting depth of at most \<open>d\<close>, \<open>p\<close> reads the tokens \<open>ks\<close> in front of a token \<open>k\<close> as the
  tree \<open>e\<close> and leaves the depth as it was.
\<close>

definition accepts :: "expr parse_fun \<Rightarrow> nat \<Rightarrow> (token_type \<times> jsstr) list \<Rightarrow> token_type \<times> jsstr \<Rightarrow> expr \<Rightarrow> bool" where
  "accepts p d ks k e \<longleftrightarrow> (\<forall>st ks'. map kind (ps_rest st) = ks @ k # ks' \<longrightarrow> ps_depth st \<le> d \<longrightarrow>
     (\<exists>ts. p st = Inr (e, st\<lparr>ps_rest := ts\<rparr>) \<and> map kind ts = k # ks'))"

lemma acceptsD:
  "accepts p d ks k e \<Longrightarrow> map kind (ps_rest st) = ks @ k # ks' \<Longrightarrow> ps_depth st \<le> d \<Longrightarrow>
    \<exists>ts. p st = Inr (e, st\<lparr>ps_rest := ts\<rparr>) \<and> map kind ts = k # ks'"
  unfolding accepts_def by blast

lemma acceptsI:
  "(\<And>st ks'. map kind (ps_rest st) = ks @ k # ks' \<Longrightarrow> ps_depth st \<le> d \<Longrightarrow>
    \<exists>ts. p st = Inr (e, st\<lparr>ps_rest := ts\<rparr>) \<and> map kind ts = k # ks') \<Longrightarrow> accepts p d ks k e"
  unfolding accepts_def by blast

lemma accepts_current:
  "map kind (ps_rest st) = (ty, v) # ks \<Longrightarrow> \<exists>t ts. current st = Inr t \<and> tok_type t = ty \<and> tok_value t = v \<and> ps_rest st = t # ts \<and> map kind ts = ks"
  by (cases "ps_rest st") (auto simp: current_def kind_def)

lemma accepts_advance:
  assumes "map kind (ps_rest st) = (ty, v) # ks" "ty \<noteq> TEof"
  shows "\<exists>t ts. advance st = Inr (t, st\<lparr>ps_rest := ts\<rparr>) \<and> tok_type t = ty \<and> tok_value t = v \<and> map kind ts = ks"
  using accepts_current[OF assms(1)] assms(2) by (auto simp: advance_def)

lemma consume_other: "map kind (ps_rest st) = (ty, v) # ks \<Longrightarrow> v \<noteq> u \<Longrightarrow> consume u st = Inr (False, st)"
  using accepts_current[of st ty v ks] by (auto simp: consume_def check_def)

lemma consume_same:
  assumes "map kind (ps_rest st) = (ty, u) # ks" "ty \<noteq> TEof"
  shows "\<exists>ts. consume u st = Inr (True, st\<lparr>ps_rest := ts\<rparr>) \<and> map kind ts = ks"
  using accepts_current[OF assms(1)] accepts_advance[OF assms] by (auto simp: consume_def check_def)

lemma loop_stop:
  assumes "map kind (ps_rest st) = (ty, v) # ks" "ops v = None"
  shows "binary_loop (Suc n) ops p e st = Inr (e, st)"
proof -
  from accepts_current[OF assms(1)] obtain t where "current st = Inr t" "tok_value t = v" by blast
  with assms(2) show ?thesis by simp
qed

text \<open>A level whose operators do not follow passes its operand on.\<close>

lemma accepts_level:
  assumes "accepts p d ks k e" "ops (snd k) = None" "0 < n" "\<And>st. level st = rbind (p st) (\<lambda>(e, st1). binary_loop n ops q e st1)"
  shows "accepts level d ks k e"
proof (rule acceptsI)
  fix st :: parser and ks'
  assume st: "map kind (ps_rest st) = ks @ k # ks'" "ps_depth st \<le> d"
  from acceptsD[OF assms(1) this] obtain ts where ts: "p st = Inr (e, st\<lparr>ps_rest := ts\<rparr>)" "map kind ts = k # ks'"
    by (elim exE conjE)
  obtain m where m: "n = Suc m" using assms(3) by (cases n) auto
  have "binary_loop n ops q e (st\<lparr>ps_rest := ts\<rparr>) = Inr (e, st\<lparr>ps_rest := ts\<rparr>)"
    unfolding m by (rule loop_stop[of _ "fst k" "snd k" ks']) (use ts(2) assms(2) in simp_all)
  with ts assms(4) show "\<exists>ts. level st = Inr (e, st\<lparr>ps_rest := ts\<rparr>) \<and> map kind ts = k # ks'"
    by (intro exI[of _ ts]) simp
qed

lemma accepts_primary_atom:
  assumes "0 < n" "(ty = TNumber \<and> e = Literal (VNum (js_Number v))) \<or> (ty = TString \<and> e = Literal (VStr v))
    \<or> (ty = TIdentifier \<and> name_text v \<and> e = Identifier v \<and> snd k \<noteq> js ''('')"
  shows "accepts (parsePrimary n) d [(ty, v)] k e"
proof (rule acceptsI)
  fix st :: parser and ks'
  assume st: "map kind (ps_rest st) = [(ty, v)] @ k # ks'" "ps_depth st \<le> d"
  have "ty \<noteq> TEof" using assms(2) by auto
  with st(1) obtain t ts where t: "advance st = Inr (t, st\<lparr>ps_rest := ts\<rparr>)" "tok_type t = ty" "tok_value t = v" "map kind ts = k # ks'"
    using accepts_advance[of st ty v "k # ks'"] by auto
  have "snd k \<noteq> js ''('' \<Longrightarrow> consume (js ''('') (st\<lparr>ps_rest := ts\<rparr>) = Inr (False, st\<lparr>ps_rest := ts\<rparr>)"
    using t(4) by (intro consume_other[of _ "fst k" "snd k" ks']) simp_all
  then show "\<exists>ts. parsePrimary n st = Inr (e, st\<lparr>ps_rest := ts\<rparr>) \<and> map kind ts = k # ks'"
    using assms t by (cases n) (auto simp: parsePrimary.simps name_text_def)
qed

lemma accepts_exponentiation:
  assumes "accepts (parsePrimary n) d ks k e" "snd k \<noteq> js ''**''"
  shows "accepts (parseExponentiation (Suc n)) d ks k e"
proof (rule acceptsI)
  fix st :: parser and ks'
  assume st: "map kind (ps_rest st) = ks @ k # ks'" "ps_depth st \<le> d"
  from acceptsD[OF assms(1) this] obtain ts where ts: "parsePrimary n st = Inr (e, st\<lparr>ps_rest := ts\<rparr>)" "map kind ts = k # ks'"
    by (elim exE conjE)
  have "consume (js ''**'') (st\<lparr>ps_rest := ts\<rparr>) = Inr (False, st\<lparr>ps_rest := ts\<rparr>)"
    by (rule consume_other[of _ "fst k" "snd k" ks']) (use ts(2) assms(2) in simp_all)
  with ts show "\<exists>ts. parseExponentiation (Suc n) st = Inr (e, st\<lparr>ps_rest := ts\<rparr>) \<and> map kind ts = k # ks'"
    by (intro exI[of _ ts]) (simp add: parseExponentiation.simps del: js_Cons js_Nil)
qed

lemma accepts_unary:
  assumes "accepts (parseExponentiation n) d ((ty, v) # ks) k e" "unary_op_of v = None"
  shows "accepts (parseUnary (Suc n)) d ((ty, v) # ks) k e"
proof (rule acceptsI)
  fix st :: parser and ks'
  assume st: "map kind (ps_rest st) = ((ty, v) # ks) @ k # ks'" "ps_depth st \<le> d"
  from acceptsD[OF assms(1) this] obtain ts where ts: "parseExponentiation n st = Inr (e, st\<lparr>ps_rest := ts\<rparr>)" "map kind ts = k # ks'"
    by (elim exE conjE)
  moreover obtain t where "current st = Inr t" "tok_value t = v" using accepts_current[of st ty v "ks @ k # ks'"] st(1) by auto
  ultimately show "\<exists>ts. parseUnary (Suc n) st = Inr (e, st\<lparr>ps_rest := ts\<rparr>) \<and> map kind ts = k # ks'"
    using assms(2) by (intro exI[of _ ts]) (simp add: parseUnary.simps)
qed

text \<open>A single token in front of a token that continues no operand.\<close>

definition inert :: "jsstr \<Rightarrow> bool" where
  "inert v \<longleftrightarrow> v \<noteq> js ''('' \<and> v \<noteq> js ''**''"

lemma accepts_operand:
  assumes "3 \<le> n" "unary_op_of v = None" "inert (snd k)" "(ty = TNumber \<and> e = Literal (VNum (js_Number v)))
    \<or> (ty = TString \<and> e = Literal (VStr v)) \<or> (ty = TIdentifier \<and> name_text v \<and> e = Identifier v)"
  shows "accepts (parseUnary n) d [(ty, v)] k e"
proof -
  obtain m where n: "n = Suc (Suc m)" "0 < m" using assms(1) by (cases n; cases "n - 1") auto
  have "accepts (parsePrimary m) d [(ty, v)] k e" by (rule accepts_primary_atom) (use n assms(3,4) in \<open>auto simp: inert_def\<close>)
  with assms(2,3) show ?thesis unfolding n by (intro accepts_unary accepts_exponentiation) (simp_all add: inert_def)
qed

definition product :: "jsstr \<times> jsstr \<Rightarrow> expr" where
  "product t = (case t of (v, w) \<Rightarrow> Binary BMul (Identifier v) (Literal (VNum (js_Number w))))"

definition sum_tree :: "expr \<Rightarrow> (jsstr \<times> jsstr) list \<Rightarrow> expr" where
  "sum_tree e ts = foldl (\<lambda>e t. Binary BAdd e (product t)) e ts"

lemma name_no_operator: "name_text v \<Longrightarrow> unary_op_of v = None" "digits_text w \<Longrightarrow> unary_op_of w = None"
  by (cases v; auto simp: name_text_def unary_op_of_def isIdentifierStart_def)
    (auto simp: digits_text_def plain_decimal_def unary_op_of_def is_digit_def neq_Nil_conv)

lemma accepts_product:
  assumes "5 \<le> n" "name_text v" "digits_text w" "inert (snd k)" "multiplicative_op (snd k) = None"
  shows "accepts (parseMultiplicative n) d (term_kinds (v, w)) k (product (v, w))"
proof (rule acceptsI)
  fix st :: parser and ks'
  assume st: "map kind (ps_rest st) = term_kinds (v, w) @ k # ks'" "ps_depth st \<le> d"
  obtain m where n: "n = Suc (Suc (Suc m))" "3 \<le> Suc (Suc m)" using assms(1) by (cases n; cases "n - 1"; cases "n - 2") auto
  have "accepts (parseUnary (Suc (Suc m))) d [(TIdentifier, v)] (TSymbol, js ''*'') (Identifier v)"
    by (rule accepts_operand) (use n assms(2) name_no_operator in \<open>auto simp: inert_def\<close>)
  from acceptsD[OF this, of st "(TNumber, w) # k # ks'"] st obtain ts1 where
    1: "parseUnary (Suc (Suc m)) st = Inr (Identifier v, st\<lparr>ps_rest := ts1\<rparr>)" "map kind ts1 = (TSymbol, js ''*'') # (TNumber, w) # k # ks'"
    by (simp add: term_kinds_def) (elim exE conjE)
  obtain t1 ts2 where 2: "advance (st\<lparr>ps_rest := ts1\<rparr>) = Inr (t1, st\<lparr>ps_rest := ts2\<rparr>)" "map kind ts2 = (TNumber, w) # k # ks'"
    using accepts_advance[of "st\<lparr>ps_rest := ts1\<rparr>"] 1(2) by auto
  obtain t where cur: "current (st\<lparr>ps_rest := ts1\<rparr>) = Inr t" "tok_value t = js ''*''"
    using accepts_current[of "st\<lparr>ps_rest := ts1\<rparr>"] 1(2) by auto
  have "accepts (parseUnary (Suc (Suc m))) d [(TNumber, w)] k (Literal (VNum (js_Number w)))"
    by (rule accepts_operand) (use n assms(3,4) name_no_operator in auto)
  from acceptsD[OF this, of "st\<lparr>ps_rest := ts2\<rparr>" ks'] 2 st obtain ts3 where
    3: "parseUnary (Suc (Suc m)) (st\<lparr>ps_rest := ts2\<rparr>) = Inr (Literal (VNum (js_Number w)), st\<lparr>ps_rest := ts3\<rparr>)" "map kind ts3 = k # ks'"
    by auto
  have stop: "binary_loop (Suc m) multiplicative_op q e (st\<lparr>ps_rest := ts3\<rparr>) = Inr (e, st\<lparr>ps_rest := ts3\<rparr>)" for q e
    by (rule loop_stop[of _ "fst k" "snd k" ks']) (use 3(2) assms(5) in simp_all)
  have star: "multiplicative_op (js ''*'') = Some BMul" by (simp add: multiplicative_op_def)
  have "parseMultiplicative n st = Inr (product (v, w), st\<lparr>ps_rest := ts3\<rparr>)"
    unfolding n(1) using 1(1) 2(1) 3(1) stop star cur by (simp add: parseMultiplicative.simps product_def del: js_Cons js_Nil)
  with 3(2) show "\<exists>ts. parseMultiplicative n st = Inr (product (v, w), st\<lparr>ps_rest := ts\<rparr>) \<and> map kind ts = k # ks'" by (intro exI[of _ ts3]) simp
qed

lemma additive_loop:
  assumes "sum_terms ts" "5 \<le> n" "length ts < m" "k = (TSymbol, js '')'')" "map kind (ps_rest st) = more_kinds ts @ k # ks'" "ps_depth st \<le> d"
  shows "\<exists>rest. binary_loop m additive_op (parseMultiplicative n) e st = Inr (sum_tree e ts, st\<lparr>ps_rest := rest\<rparr>) \<and> map kind rest = k # ks'"
  using assms(1,3,5,6)
proof (induction ts arbitrary: e m st)
  case Nil
  then obtain m' where m: "m = Suc m'" by (cases m) auto
  have "binary_loop m additive_op (parseMultiplicative n) e st = Inr (e, st)"
    unfolding m by (rule loop_stop[of _ TSymbol "js '')''" ks']) (use Nil assms(4) in \<open>simp_all add: more_kinds_def additive_op_def\<close>)
  with Nil show ?case by (intro exI[of _ "ps_rest st"]) (simp add: more_kinds_def sum_tree_def)
next
  case (Cons t ts)
  obtain v w where t: "t = (v, w)" by (cases t)
  obtain m' where m: "m = Suc m'" "length ts < m'" using Cons.prems(2) by (cases m) auto
  let ?k = "hd (more_kinds ts @ [k])"
  have k: "more_kinds ts @ k # ks' = ?k # tl (more_kinds ts @ k # ks')" by (cases "more_kinds ts") simp_all
  have ops: "?k = (TSymbol, js ''+'') \<or> ?k = (TSymbol, js '')'')" using assms(4) by (cases ts) (simp_all add: more_kinds_def)
  obtain t1 ts1 where 1: "advance st = Inr (t1, st\<lparr>ps_rest := ts1\<rparr>)" "map kind ts1 = term_kinds t @ more_kinds ts @ k # ks'"
    using accepts_advance[of st] Cons.prems(3) by (auto simp: more_kinds_def)
  obtain t0 where cur: "current st = Inr t0" "tok_value t0 = js ''+''" using accepts_current[of st] Cons.prems(3) by (auto simp: more_kinds_def)
  have "accepts (parseMultiplicative n) d (term_kinds t) ?k (product t)"
    unfolding t by (rule accepts_product)
      (use assms(2) Cons.prems(1) ops in \<open>auto simp: t sum_terms_def inert_def multiplicative_op_def\<close>)
  from acceptsD[OF this, of "st\<lparr>ps_rest := ts1\<rparr>" "tl (more_kinds ts @ k # ks')"] 1(2) Cons.prems(4) k obtain ts2 where
    2: "parseMultiplicative n (st\<lparr>ps_rest := ts1\<rparr>) = Inr (product t, st\<lparr>ps_rest := ts2\<rparr>)" "map kind ts2 = more_kinds ts @ k # ks'"
    by auto
  have "sum_terms ts" using Cons.prems(1) by (simp add: sum_terms_def)
  from Cons.IH[OF this m(2), of "st\<lparr>ps_rest := ts2\<rparr>" "Binary BAdd e (product t)"] 2(2) Cons.prems(4) obtain rest where
    3: "binary_loop m' additive_op (parseMultiplicative n) (Binary BAdd e (product t)) (st\<lparr>ps_rest := ts2\<rparr>)
      = Inr (sum_tree (Binary BAdd e (product t)) ts, st\<lparr>ps_rest := rest\<rparr>)" "map kind rest = k # ks'" by auto
  have "additive_op (js ''+'') = Some BAdd" by (simp add: additive_op_def)
  with 1(1) 2(1) 3 cur show ?case unfolding m(1) by (intro exI[of _ rest]) (simp add: sum_tree_def)
qed

lemma accepts_sum:
  assumes "sum_terms (t # ts)" "5 \<le> n" "length ts < n"
  shows "accepts (parseAdditive (Suc n)) d (term_kinds t @ more_kinds ts) (TSymbol, js '')'') (sum_tree (product t) ts)"
proof (rule acceptsI)
  fix st :: parser and ks'
  let ?c = "(TSymbol, js '')'')"
  assume st: "map kind (ps_rest st) = (term_kinds t @ more_kinds ts) @ ?c # ks'" "ps_depth st \<le> d"
  obtain v w where t: "t = (v, w)" by (cases t)
  let ?k = "hd (more_kinds ts @ [?c])"
  have k: "more_kinds ts @ ?c # ks' = ?k # tl (more_kinds ts @ ?c # ks')" by (cases "more_kinds ts") simp_all
  have ops: "?k = (TSymbol, js ''+'') \<or> ?k = ?c" by (cases ts) (simp_all add: more_kinds_def)
  have "accepts (parseMultiplicative n) d (term_kinds t) ?k (product t)"
    unfolding t by (rule accepts_product)
      (use assms ops in \<open>auto simp: t sum_terms_def inert_def multiplicative_op_def\<close>)
  from acceptsD[OF this, of st "tl (more_kinds ts @ ?c # ks')"] st k obtain ts1 where
    1: "parseMultiplicative n st = Inr (product t, st\<lparr>ps_rest := ts1\<rparr>)" "map kind ts1 = more_kinds ts @ ?c # ks'"
    by auto
  have "sum_terms ts" using assms(1) by (simp add: sum_terms_def)
  from additive_loop[OF this assms(2,3) refl, of "st\<lparr>ps_rest := ts1\<rparr>" ks' d "product t"] 1(2) st(2) obtain rest where
    2: "binary_loop n additive_op (parseMultiplicative n) (product t) (st\<lparr>ps_rest := ts1\<rparr>)
      = Inr (sum_tree (product t) ts, st\<lparr>ps_rest := rest\<rparr>)" "map kind rest = ?c # ks'" by auto
  then show "\<exists>rest. parseAdditive (Suc n) st = Inr (sum_tree (product t) ts, st\<lparr>ps_rest := rest\<rparr>) \<and> map kind rest = ?c # ks'"
    using 1(1) by (intro exI[of _ rest]) (simp add: parseAdditive.simps)
qed

text \<open>The levels above the sums pass a tree on in front of a token that is no operator of theirs.\<close>

definition quiet_op :: "jsstr \<Rightarrow> bool" where
  "quiet_op v \<longleftrightarrow> or_op v = None \<and> and_op v = None \<and> equality_op v = None \<and> comparison_op v = None \<and> v \<noteq> js ''?''"

lemma accepts_conditional:
  assumes "accepts (parseAdditive n) d ks k e" "0 < n" "quiet_op (snd k)"
  shows "accepts (parseConditional (n + 5)) d ks k e"
proof (rule acceptsI)
  have q: "or_op (snd k) = None" "and_op (snd k) = None" "equality_op (snd k) = None" "comparison_op (snd k) = None" "snd k \<noteq> js ''?''"
    using assms(3) by (simp_all add: quiet_op_def)
  have "accepts (parseComparison (Suc n)) d ks k e"
    by (rule accepts_level[where ops = comparison_op, OF assms(1) q(4) assms(2)]) (simp add: parseComparison.simps)
  then have "accepts (parseEquality (Suc (Suc n))) d ks k e"
    by (rule accepts_level[where ops = equality_op, OF _ q(3) zero_less_Suc]) (simp add: parseEquality.simps del: binary_loop.simps)
  then have "accepts (parseLogicalAnd (Suc (Suc (Suc n)))) d ks k e"
    by (rule accepts_level[where ops = and_op, OF _ q(2) zero_less_Suc]) (simp add: parseLogicalAnd.simps del: binary_loop.simps)
  then have or: "accepts (parseLogicalOr (Suc (Suc (Suc (Suc n))))) d ks k e"
    by (rule accepts_level[where ops = or_op, OF _ q(1) zero_less_Suc]) (simp add: parseLogicalOr.simps del: binary_loop.simps)
  fix st :: parser and ks'
  assume st: "map kind (ps_rest st) = ks @ k # ks'" "ps_depth st \<le> d"
  from acceptsD[OF or this] obtain ts where
    ts: "parseLogicalOr (Suc (Suc (Suc (Suc n)))) st = Inr (e, st\<lparr>ps_rest := ts\<rparr>)" "map kind ts = k # ks'" by (elim exE conjE)
  have "consume (js ''?'') (st\<lparr>ps_rest := ts\<rparr>) = Inr (False, st\<lparr>ps_rest := ts\<rparr>)"
    by (rule consume_other[of _ "fst k" "snd k" ks']) (use ts(2) q(5) in simp_all)
  moreover have five: "n + 5 = Suc (Suc (Suc (Suc (Suc n))))" by simp
  ultimately show "\<exists>ts. parseConditional (n + 5) st = Inr (e, st\<lparr>ps_rest := ts\<rparr>) \<and> map kind ts = k # ks'"
    unfolding five using ts by (intro exI[of _ ts]) (simp add: parseConditional.simps del: js_Cons js_Nil)
qed

lemma accepts_additive:
  assumes "accepts (parseUnary n) d ks k e" "0 < n" "multiplicative_op (snd k) = None" "additive_op (snd k) = None"
  shows "accepts (parseAdditive (n + 2)) d ks k e"
proof -
  have "accepts (parseMultiplicative (Suc n)) d ks k e"
    by (rule accepts_level[where ops = multiplicative_op, OF assms(1,3,2)]) (simp add: parseMultiplicative.simps)
  then have "accepts (parseAdditive (Suc (Suc n))) d ks k e"
    by (rule accepts_level[where ops = additive_op, OF _ assms(4) zero_less_Suc]) (simp add: parseAdditive.simps del: binary_loop.simps)
  then show ?thesis by simp
qed

section \<open>The call of a tier\<close>

definition tier_kinds :: "jsstr \<Rightarrow> jsstr \<times> jsstr \<Rightarrow> (jsstr \<times> jsstr) list \<Rightarrow> (token_type \<times> jsstr) list" where
  "tier_kinds label t ts = [(TIdentifier, js ''tier''), (TSymbol, js ''(''), (TString, label), (TSymbol, js '','')]
     @ term_kinds t @ more_kinds ts @ [(TSymbol, js '')'')]"

definition tier_tree :: "jsstr \<Rightarrow> jsstr \<times> jsstr \<Rightarrow> (jsstr \<times> jsstr) list \<Rightarrow> expr" where
  "tier_tree label t ts = Call (js ''tier'') [Literal (VStr label), sum_tree (product t) ts]"

definition label_text :: "jsstr \<Rightarrow> bool" where
  "label_text s \<longleftrightarrow> s \<noteq> [] \<and> s \<notin> set symbol_values \<and> list_all (\<lambda>c. c \<notin> {34, 10, 13, 92}) s"

lemma label_no_operator:
  assumes "label_text s"
  shows "unary_op_of s = None" "s \<noteq> js '')''"
  using assms by (auto simp: label_text_def symbol_values_def one_character_symbols_def unary_op_of_def)

lemma argument_label:
  assumes "10 \<le> n" "label_text label"
  shows "accepts (parseConditional n) d [(TString, label)] (TSymbol, js '','') (Literal (VStr label))"
proof -
  obtain m where n: "n = m + 2 + 5" "3 \<le> m" using assms(1) that[of "n - 7"] by simp
  show ?thesis unfolding n
    by (intro accepts_conditional accepts_additive accepts_operand)
      (use n(2) label_no_operator[OF assms(2)] in \<open>auto simp: inert_def quiet_op_def operator_defs\<close>)
qed

lemma argument_sum:
  assumes "12 \<le> n" "sum_terms (t # ts)" "length ts + 7 \<le> n"
  shows "accepts (parseConditional n) d (term_kinds t @ more_kinds ts) (TSymbol, js '')'') (sum_tree (product t) ts)"
proof -
  obtain m where n: "n = Suc m + 5" using assms(1) that[of "n - 6"] by simp
  show ?thesis unfolding n
    by (intro accepts_conditional accepts_sum) (use n assms in \<open>auto simp: quiet_op_def operator_defs\<close>)
qed

lemma expect_same:
  assumes "map kind (ps_rest st) = (ty, u) # ks" "ty \<noteq> TEof"
  shows "\<exists>ts. expect u st = Inr ((), st\<lparr>ps_rest := ts\<rparr>) \<and> map kind ts = ks"
  using consume_same[OF assms] by (auto simp: expect_def)

lemma argument_loop_tier:
  assumes "12 \<le> n" "length ts + 7 \<le> n" "label_text label" "sum_terms (t # ts)" "2 \<le> m"
    "map kind (ps_rest st) = (TString, label) # (TSymbol, js '','') # term_kinds t @ more_kinds ts @ (TSymbol, js '')'') # ks"
  shows "\<exists>rest. argument_loop m (parseConditional n) [] st
    = Inr ([Literal (VStr label), sum_tree (product t) ts], st\<lparr>ps_rest := rest\<rparr>) \<and> map kind rest = (TSymbol, js '')'') # ks"
proof -
  obtain m' where m: "m = Suc (Suc m')" using assms(5) that[of "m - 2"] by simp
  let ?r = "term_kinds t @ more_kinds ts @ (TSymbol, js '')'') # ks"
  have "accepts (parseConditional n) (ps_depth st) [(TString, label)] (TSymbol, js '','') (Literal (VStr label))"
    by (rule argument_label) (use assms in auto)
  from acceptsD[OF this, of st ?r] assms(6) obtain ts1 where
    1: "parseConditional n st = Inr (Literal (VStr label), st\<lparr>ps_rest := ts1\<rparr>)" "map kind ts1 = (TSymbol, js '','') # ?r" by auto
  then obtain ts2 where 2: "consume (js '','') (st\<lparr>ps_rest := ts1\<rparr>) = Inr (True, st\<lparr>ps_rest := ts2\<rparr>)" "map kind ts2 = ?r"
    using consume_same[of "st\<lparr>ps_rest := ts1\<rparr>" TSymbol "js '',''" ?r] by (auto simp del: js_Cons js_Nil)
  have "accepts (parseConditional n) (ps_depth st) (term_kinds t @ more_kinds ts) (TSymbol, js '')'') (sum_tree (product t) ts)"
    by (rule argument_sum) (use assms in auto)
  from acceptsD[OF this, of "st\<lparr>ps_rest := ts2\<rparr>" ks] 2(2) obtain ts3 where
    3: "parseConditional n (st\<lparr>ps_rest := ts2\<rparr>) = Inr (sum_tree (product t) ts, st\<lparr>ps_rest := ts3\<rparr>)" "map kind ts3 = (TSymbol, js '')'') # ks"
    by auto
  have "consume (js '','') (st\<lparr>ps_rest := ts3\<rparr>) = Inr (False, st\<lparr>ps_rest := ts3\<rparr>)"
    by (rule consume_other[of _ TSymbol "js '')''" ks]) (use 3(2) in simp_all)
  with 1(1) 2(1) 3 show ?thesis unfolding m by (intro exI[of _ ts3]) (simp del: js_Cons js_Nil)
qed

lemma accepts_call:
  assumes "14 \<le> n" "length ts + 9 \<le> n" "label_text label" "sum_terms (t # ts)" "d < MAX_PARSE_DEPTH"
  shows "accepts (parsePrimary n) d (tier_kinds label t ts) k (tier_tree label t ts)"
proof (rule acceptsI)
  fix st :: parser and ks'
  assume st: "map kind (ps_rest st) = tier_kinds label t ts @ k # ks'" "ps_depth st \<le> d"
  obtain m where n: "n = Suc m" using assms(1) by (cases n) auto
  let ?r = "(TString, label) # (TSymbol, js '','') # term_kinds t @ more_kinds ts @ (TSymbol, js '')'') # k # ks'"
  obtain t1 ts1 where 1: "advance st = Inr (t1, st\<lparr>ps_rest := ts1\<rparr>)" "tok_type t1 = TIdentifier" "tok_value t1 = js ''tier''"
      "map kind ts1 = (TSymbol, js ''('') # ?r"
    using accepts_advance[of st TIdentifier "js ''tier''"] st(1) by (auto simp: tier_kinds_def simp del: js_Cons js_Nil)
  obtain ts2 where 2: "consume (js ''('') (st\<lparr>ps_rest := ts1\<rparr>) = Inr (True, st\<lparr>ps_rest := ts2\<rparr>)" "map kind ts2 = ?r"
    using consume_same[of "st\<lparr>ps_rest := ts1\<rparr>" TSymbol "js ''(''" ?r] 1(4) by (auto simp del: js_Cons js_Nil)
  let ?s = "st\<lparr>ps_rest := ts2, ps_depth := ps_depth st + 1\<rparr>"
  have closed: "check (js '')'') ?s = Inr False"
    using accepts_current[of ?s TString label] 2(2) label_no_operator(2)[OF assms(3)] by (auto simp: check_def)
  obtain ts3 where 3: "argument_loop m (parseConditional m) [] ?s
      = Inr ([Literal (VStr label), sum_tree (product t) ts], ?s\<lparr>ps_rest := ts3\<rparr>)" "map kind ts3 = (TSymbol, js '')'') # k # ks'"
    using argument_loop_tier[of m ts label t m ?s "k # ks'"] assms n 2(2) by (auto simp del: js_Cons js_Nil)
  obtain ts4 where 4: "expect (js '')'') (?s\<lparr>ps_rest := ts3\<rparr>) = Inr ((), ?s\<lparr>ps_rest := ts4\<rparr>)" "map kind ts4 = k # ks'"
    using expect_same[of "?s\<lparr>ps_rest := ts3\<rparr>" TSymbol "js '')''" "k # ks'"] 3(2) by (auto simp del: js_Cons js_Nil)
  have depth: "\<not> MAX_PARSE_DEPTH < ps_depth st + 1" using st(2) assms(5) by simp
  have "js ''tier'' \<noteq> js ''true''" "js ''tier'' \<noteq> js ''false''" by simp_all
  with 1(1-3) 2(1) 3(1) 4(1) closed depth
  have "parsePrimary n st = Inr (tier_tree label t ts, st\<lparr>ps_rest := ts4\<rparr>)"
    unfolding n by (simp add: parsePrimary.simps withDepth_def tier_tree_def Let_def del: js_Cons js_Nil)
  with 4(2) show "\<exists>ts'. parsePrimary n st = Inr (tier_tree label t ts, st\<lparr>ps_rest := ts'\<rparr>) \<and> map kind ts' = k # ks'"
    by (intro exI[of _ ts4]) simp
qed

lemma parse_tier:
  assumes "label_text label" "sum_terms (t # ts)" "map kind toks = tier_kinds label t ts @ [(TEof, [])]"
  shows "parse toks = Inr (tier_tree label t ts)"
proof -
  have len: "length (more_kinds ts) = 4 * length ts" by (induction ts) (auto simp: more_kinds_def term_kinds_def)
  have "length toks = length (tier_kinds label t ts @ [(TEof, [])])" using assms(3) by (metis length_map)
  then have fuel: "parse_fuel toks = (10 * (9 + 4 * length ts) - 9) + 2 + 2 + 5"
    by (simp add: parse_fuel_def tier_kinds_def term_kinds_def len split: prod.splits)
  let ?m = "10 * (9 + 4 * length ts) - 9"
  have "accepts (parsePrimary ?m) 0 (tier_kinds label t ts) (TEof, []) (tier_tree label t ts)"
    by (rule accepts_call) (use assms in \<open>auto simp: MAX_PARSE_DEPTH_def\<close>)
  then have "accepts (parseUnary (Suc (Suc ?m))) 0 (tier_kinds label t ts) (TEof, []) (tier_tree label t ts)"
    unfolding tier_kinds_def append_Cons by (intro accepts_unary accepts_exponentiation) (simp_all add: unary_op_of_def)
  then have "accepts (parseConditional (parse_fuel toks)) 0 (tier_kinds label t ts) (TEof, []) (tier_tree label t ts)"
    unfolding fuel by (intro accepts_conditional accepts_additive) (simp_all add: quiet_op_def operator_defs)
  from acceptsD[OF this, of "\<lparr>ps_rest = toks, ps_depth = 0\<rparr>" "[]"] assms(3) obtain rest where
    r: "parseConditional (parse_fuel toks) \<lparr>ps_rest = toks, ps_depth = 0\<rparr> = Inr (tier_tree label t ts, \<lparr>ps_rest = rest, ps_depth = 0\<rparr>)"
      "map kind rest = [(TEof, [])]" by auto
  then show ?thesis by (auto simp: parse_def current_def kind_def)
qed

lemma tokenize_tier:
  assumes "label_text label" "sum_terms (t # ts)" "9 + 4 * length ts \<le> MAX_TOKENS"
  shows "\<exists>toks. tokenize (js ''tier(\"'' @ label @ js ''\", '' @ term_text t @ more_text ts @ js '')'') = Inr toks
    \<and> map kind toks = tier_kinds label t ts @ [(TEof, [])]"
proof -
  obtain v w where t: "t = (v, w)" by (cases t)
  have good: "name_text v" "digits_text w" "sum_terms ts" using assms(2) by (auto simp: sum_terms_def t)
  have "lexes [41] [] TSymbol [41]" by (rule lexes_symbol) simp_all
  then have "lexed ([41] @ []) [(TSymbol, [41])]" using lexed_end by (rule lexed_token)
  then have "lexed (more_text ts @ [41]) (more_kinds ts @ [(TSymbol, [41])])" "closing (more_text ts @ [41])"
    using lexed_more[OF good(3), of "[41]" "[(TSymbol, [41])]"] by (simp_all add: closing_def)
  from lexed_term[OF good(1,2) this(2,1)]
  have l1: "lexed (32 # term_text t @ more_text ts @ [41]) (term_kinds t @ more_kinds ts @ [(TSymbol, [41])])" by (simp only: t)
  let ?x = "32 # term_text t @ more_text ts @ [41]"
  have "lexes [44] ?x TSymbol [44]" by (rule lexes_symbol) simp_all
  from lexed_token[OF this l1]
  have l2: "lexed (44 # ?x) ((TSymbol, [44]) # term_kinds t @ more_kinds ts @ [(TSymbol, [41])])" by simp
  have "lexes (34 # label @ [34]) (44 # ?x) TString label" by (rule lexes_string) (use assms(1) in \<open>simp add: label_text_def\<close>)
  note l3 = lexed_token[OF this l2]
  have "lexes [40] ((34 # label @ [34]) @ 44 # ?x) TSymbol [40]" by (rule lexes_symbol) simp_all
  note l4 = lexed_token[OF this l3]
  have "lexes (js ''tier'') ([40] @ (34 # label @ [34]) @ 44 # ?x) TIdentifier (js ''tier'')"
    by (rule lexes_identifier) (simp_all add: ident_char_def isIdentifierPart_def isIdentifierStart_def isDigit_def)
  from lexed_token[OF this l4] have lex: "lexed (js ''tier(\"'' @ label @ js ''\", '' @ term_text t @ more_text ts @ js '')'') (tier_kinds label t ts)"
    by (simp add: tier_kinds_def)
  have "length (more_kinds ts) = 4 * length ts" by (induction ts) (auto simp: more_kinds_def term_kinds_def)
  then have "length (tier_kinds label t ts) \<le> MAX_TOKENS" using assms(3) by (simp add: tier_kinds_def term_kinds_def t)
  with lexed_tokenize[OF lex, of "[]" 0] show ?thesis by (simp add: tokenize_def)
qed

section \<open>Evaluating sums of products\<close>

definition charge :: "environment \<Rightarrow> jsstr \<times> jsstr \<Rightarrow> number" where
  "charge env t = (case t of (v, w) \<Rightarrow> num_mul (the (map_of env v)) (js_Number w))"

fun partial_sums :: "number \<Rightarrow> number list \<Rightarrow> number list" where
  "partial_sums x [] = []"
| "partial_sums x (y # ys) = num_add x y # partial_sums (num_add x y) ys"

lemma partial_sums_snoc: "partial_sums x (ys @ [y]) = partial_sums x ys @ [foldl num_add x (ys @ [y])]"
  by (induction ys arbitrary: x) simp_all

definition billable :: "environment \<Rightarrow> jsstr \<times> jsstr \<Rightarrow> bool" where
  "billable env t \<longleftrightarrow> (case t of (v, w) \<Rightarrow> (\<exists>x. map_of env v = Some x \<and> is_finite x) \<and> is_finite (js_Number w)) \<and> is_finite (charge env t)"

lemma evaluate_product:
  assumes "billable env t" "depth < MAX_EVALUATION_DEPTH"
  shows "evaluateNode approx env (product t) depth tier = Inr (VNum (charge env t), tier)"
    "validateNode env (product t) depth = Inr TyNumber"
  using assms by (auto simp: billable_def product_def charge_def evaluateBinary_def expectNumber_def ensureFinite_def arithmetic_def
      has_own_def validateBinary_def literal_type_def split: prod.splits)

lemma evaluate_sum:
  assumes "list_all (billable env) (t # ts)" "list_all is_finite (partial_sums (charge env t) (map (charge env) ts))"
    "depth + length ts < MAX_EVALUATION_DEPTH"
  shows "evaluateNode approx env (sum_tree (product t) ts) depth tier = Inr (VNum (foldl num_add (charge env t) (map (charge env) ts)), tier)
    \<and> validateNode env (sum_tree (product t) ts) depth = Inr TyNumber"
  using assms
proof (induction ts arbitrary: depth rule: rev_induct)
  case Nil
  then show ?case by (simp add: sum_tree_def evaluate_product)
next
  case (snoc u ts)
  have fin: "list_all is_finite (partial_sums (charge env t) (map (charge env) ts))"
    "is_finite (num_add (foldl num_add (charge env t) (map (charge env) ts)) (charge env u))"
    using snoc.prems(2) by (simp_all add: partial_sums_snoc)
  have ih: "evaluateNode approx env (sum_tree (product t) ts) (depth + 1) tier = Inr (VNum (foldl num_add (charge env t) (map (charge env) ts)), tier)"
    "validateNode env (sum_tree (product t) ts) (depth + 1) = Inr TyNumber"
    using snoc.IH[of "depth + 1"] snoc.prems fin(1) by simp_all
  have u: "evaluateNode approx env (product u) (depth + 1) tier = Inr (VNum (charge env u), tier)"
    "validateNode env (product u) (depth + 1) = Inr TyNumber"
    using snoc.prems(1,3) by (simp_all add: evaluate_product)
  show ?case using ih u fin(2) snoc.prems(3)
    by (simp add: sum_tree_def evaluateBinary_def ensureFinite_def validateBinary_def)
qed

section \<open>Costs are not negative\<close>

lemma round_not_negative: "0 \<le> q \<Longrightarrow> \<not> num_less (round_signed s q) (Fin 0)"
proof -
  assume q: "0 \<le> q"
  have "0 \<le> round_half_even (q / 2 powi ulp_exp q)" using q by (intro round_half_even_ge) simp
  then have "0 \<le> round_mag q" by (simp add: round_mag_def)
  then show ?thesis using q
    by (auto simp: round_signed_def round_num_def signed_zero_def num_less_def num_val_def is_finite_def Let_def)
qed

lemma not_negative_val: "is_finite n \<Longrightarrow> \<not> num_less n (Fin 0) \<longleftrightarrow> 0 \<le> num_val n"
  by (cases n) (auto simp: num_less_def num_val_def is_finite_def)

lemma mul_not_negative:
  assumes "is_finite a" "is_finite b" "\<not> num_less a (Fin 0)" "\<not> num_less b (Fin 0)"
  shows "\<not> num_less (num_mul a b) (Fin 0)"
proof -
  have "0 \<le> num_val a * num_val b" using assms not_negative_val by simp
  from round_not_negative[OF this] assms(1,2) show ?thesis by (auto simp: num_mul_def Let_def is_finite_def)
qed

lemma add_not_negative:
  assumes "is_finite a" "is_finite b" "\<not> num_less a (Fin 0)" "\<not> num_less b (Fin 0)"
  shows "\<not> num_less (num_add a b) (Fin 0)"
proof -
  have "0 \<le> num_val a + num_val b" using assms not_negative_val by simp
  from round_not_negative[OF this] assms(1,2) show ?thesis by (auto simp: num_add_def is_finite_def)
qed

lemma sum_not_negative:
  assumes "is_finite x" "\<not> num_less x (Fin 0)" "list_all (\<lambda>y. is_finite y \<and> \<not> num_less y (Fin 0)) ys" "list_all is_finite (partial_sums x ys)"
  shows "is_finite (foldl num_add x ys) \<and> \<not> num_less (foldl num_add x ys) (Fin 0)"
  using assms by (induction ys arbitrary: x) (auto simp: add_not_negative)

section \<open>The estimate\<close>

text \<open>
  A price as it is typed: its text is digits with at most one point between them and denotes the price again.  Numbers
  with an exponent in their text (below a millionth, or from \<open>10 ^ 21\<close> on) are left out.
\<close>

definition plain_price :: "number \<Rightarrow> bool" where
  "plain_price n \<longleftrightarrow> digits_text (num_text n) \<and> js_Number (num_text n) = n \<and> num_or_zero n = n \<and> \<not> num_less n (Fin 0)"

lemma plain_price_facts:
  assumes "plain_price n"
  shows "digits_text (num_text n)" "js_Number (num_text n) = n" "num_or_zero n = n" "is_finite n" "\<not> num_less n (Fin 0)"
  using assms by (auto simp: plain_price_def digits_text_def)

lemma natural_plain:
  assumes "k < 2 ^ 53"
  shows "plain_price (Fin (of_nat k))"
proof -
  have "js_Number (num_text (Fin (of_nat k))) = Fin (of_nat k)" "num_or_zero (Fin (of_nat k)) = Fin (of_nat k)"
    using natural_price[OF assms] by (simp_all add: readable_price_def)
  moreover have "plain_decimal (nat_text k) [] (num_text (Fin (of_nat k)))"
    using num_text_nat[OF assms] nat_text_digits[of k] by (simp add: plain_decimal_def)
  then have "\<exists>a b. plain_decimal a b (num_text (Fin (of_nat k)))" by blast
  ultimately show ?thesis by (simp add: plain_price_def digits_text_def is_finite_def num_less_def num_val_def)
qed

lemma numeral_plain: "(numeral k :: nat) < 2 ^ 53 \<Longrightarrow> plain_price (Fin (numeral k))" "plain_price (Fin 0)"
  using natural_plain[of "numeral k"] natural_plain[of 0] by simp_all

lemma half_plain: "plain_price (Fin (5 / 2))"
proof -
  have "plain_decimal (js ''2'') (js ''5'') (num_text (Fin (5 / 2)))" by (simp add: num_text_half plain_decimal_def is_digit_def)
  then have "\<exists>a b. plain_decimal a b (num_text (Fin (5 / 2)))" by blast
  moreover have "js_Number (num_text (Fin (5 / 2))) = Fin (5 / 2)"
    by (simp add: num_text_half number_eval round_num_half is_digit_def is_space_def power_int_minus)
  ultimately show ?thesis
    by (simp add: plain_price_def digits_text_def num_or_zero_def num_truthy_def is_finite_def num_less_def num_val_def)
qed

definition plain_tier :: "VisualTier \<Rightarrow> bool" where
  "plain_tier tier \<longleftrightarrow> label_text (vt_label tier) \<and> vt_conditions tier = [] \<and> plain_price (vt_input tier) \<and> plain_price (vt_output tier)
     \<and> list_all (\<lambda>(field, n). plain_price n) (tier_fields tier)"

text \<open>Price times token count for the two base prices and every optional price that is not zero.\<close>

definition tier_charges :: "VisualTier \<Rightarrow> environment \<Rightarrow> number list" where
  "tier_charges tier env = num_mul (the (map_of env (js ''p''))) (vt_input tier) # num_mul (the (map_of env (js ''c''))) (vt_output tier)
     # List.map_filter (\<lambda>(field, v). if field_price tier field = Fin 0 then None
         else Some (num_mul (the (map_of env v)) (field_price tier field))) BILLING_CACHE_VAR_MAP"

definition tier_terms :: "VisualTier \<Rightarrow> (jsstr \<times> jsstr) list" where
  "tier_terms tier = (js ''c'', num_text (vt_output tier)) # List.map_filter (\<lambda>(field, v).
     if field_price tier field = Fin 0 then None else Some (v, num_text (field_price tier field))) BILLING_CACHE_VAR_MAP"

lemma plain_field: "plain_tier tier \<Longrightarrow> plain_price (field_price tier field)"
proof (cases "map_of (tier_fields tier) field")
  case (Some n)
  assume "plain_tier tier"
  then have "plain_price n" using map_of_SomeD[OF Some] by (auto simp: plain_tier_def list_all_iff)
  with Some plain_price_facts(3)[of n] show ?thesis by (simp add: field_price_def)
qed (simp add: field_price_def numeral_plain)

lemma billing_identifiers: "list_all (\<lambda>(field, v). name_text v) BILLING_CACHE_VAR_MAP" "name_text (js ''p'')" "name_text (js ''c'')"
  by (simp_all add: billing_cache_vars name_text_def ident_char_def isIdentifierPart_def isIdentifierStart_def isDigit_def)

lemma tier_text:
  assumes "plain_tier tier"
  shows "generateExprFromVisualConfig (Some [tier]) = js ''tier(\"'' @ vt_label tier @ js ''\", ''
    @ term_text (js ''p'', num_text (vt_input tier)) @ more_text (tier_terms tier) @ js '')''"
proof -
  have opt: "opt_terms f vars = more_text (List.map_filter (\<lambda>(field, v). if f field = Fin 0 then None else Some (v, num_text (f field))) vars)" for f vars
    by (induction vars) (auto simp: opt_terms_def more_text_def term_text_def List.map_filter_simps)
  have "num_or_zero (vt_input tier) = vt_input tier" "num_or_zero (vt_output tier) = vt_output tier"
    "vt_label tier \<noteq> []" "vt_conditions tier = []"
    using assms plain_price_facts(3) by (auto simp: plain_tier_def label_text_def)
  then show ?thesis
    by (simp add: generateExprFromVisualConfig_def tier_call_def tier_body_text buildConditionStr_def opt tier_terms_def more_text_def term_text_def)
qed

lemma tier_sum_terms:
  assumes "plain_tier tier"
  shows "sum_terms ((js ''p'', num_text (vt_input tier)) # tier_terms tier)" "length (tier_terms tier) \<le> 8"
proof -
  have base: "plain_price (vt_input tier)" "plain_price (vt_output tier)" using assms by (auto simp: plain_tier_def)
  have "sum_terms (List.map_filter (\<lambda>(field, v). if f field = Fin 0 then None else Some (v, num_text (f field))) vars)"
    if "list_all (\<lambda>(field, v). name_text v) vars" "\<And>field. digits_text (num_text (f field))" for f vars
    using that by (induction vars) (auto simp: sum_terms_def List.map_filter_simps)
  from this[OF billing_identifiers(1), of "field_price tier"] base
  show "sum_terms ((js ''p'', num_text (vt_input tier)) # tier_terms tier)"
    using plain_price_facts(1) plain_field[OF assms] billing_identifiers
    by (auto simp: tier_terms_def sum_terms_def simp del: js_Cons js_Nil)
  have "length (List.map_filter g vars) \<le> length vars" for g :: "jsstr \<times> jsstr \<Rightarrow> (jsstr \<times> jsstr) option" and vars
    by (induction vars) (auto simp: List.map_filter_simps split: option.splits)
  from this[of _ BILLING_CACHE_VAR_MAP] show "length (tier_terms tier) \<le> 8"
    by (simp add: tier_terms_def) (simp add: billing_cache_vars)
qed

lemma tier_charges_terms:
  assumes "plain_tier tier"
  shows "tier_charges tier env = charge env (js ''p'', num_text (vt_input tier)) # map (charge env) (tier_terms tier)"
proof -
  have "map (charge env) (List.map_filter (\<lambda>(field, v). if f field = Fin 0 then None else Some (v, num_text (f field))) vars)
      = List.map_filter (\<lambda>(field, v). if f field = Fin 0 then None else Some (num_mul (the (map_of env v)) (f field))) vars"
    if "\<And>field. js_Number (num_text (f field)) = f field" for f vars
    using that by (induction vars) (auto simp: charge_def List.map_filter_simps)
  from this[of "field_price tier" BILLING_CACHE_VAR_MAP] show ?thesis
    using assms plain_price_facts(2) plain_field[OF assms]
    by (simp add: tier_charges_def tier_terms_def charge_def plain_tier_def del: js_Cons js_Nil)
qed

lemma checked_env: "check_environment env = Inr () \<Longrightarrow> map_of env v = Some x \<Longrightarrow> is_finite x \<and> \<not> num_less x (Fin 0)"
  by (induction env rule: check_environment.induct) (auto split: if_splits)

lemma estimator_knows:
  "v \<in> {js ''p'', js ''c''} \<union> snd ` set BILLING_CACHE_VAR_MAP \<Longrightarrow> \<exists>x. map_of (estimator_env p c extra) v = Some x"
  by (auto simp: estimator_env_def ESTIMATOR_VARS_def billing_cache_vars)

lemma tier_billable:
  assumes "plain_tier tier" "check_environment (estimator_env p c extra) = Inr ()"
    "list_all is_finite (tier_charges tier (estimator_env p c extra))"
  shows "list_all (\<lambda>t. billable (estimator_env p c extra) t \<and> \<not> num_less (charge (estimator_env p c extra) t) (Fin 0))
    ((js ''p'', num_text (vt_input tier)) # tier_terms tier)"
proof -
  let ?env = "estimator_env p c extra" and ?ts = "(js ''p'', num_text (vt_input tier)) # tier_terms tier"
  let ?names = "{js ''p'', js ''c''} \<union> snd ` set BILLING_CACHE_VAR_MAP"
  have "list_all (\<lambda>(v, w). v \<in> S \<and> (\<exists>n. plain_price n \<and> w = num_text n))
      (List.map_filter (\<lambda>(field, v). if f field = Fin 0 then None else Some (v, num_text (f field))) vars)"
    if "snd ` set vars \<subseteq> S" "\<And>field. plain_price (f field)" for S f vars
  proof -
    have "\<exists>n. plain_price n \<and> num_text (f field) = num_text n" for field using that(2) by blast
    with that(1) show ?thesis by (induction vars) (auto simp: List.map_filter_simps)
  qed
  from this[of BILLING_CACHE_VAR_MAP ?names "field_price tier"] plain_field[OF assms(1)]
  have "list_all (\<lambda>(v, w). v \<in> ?names \<and> (\<exists>n. plain_price n \<and> w = num_text n)) (tl (tier_terms tier))"
    by (simp only: tier_terms_def list.sel Un_upper2)
  moreover have "\<exists>n. plain_price n \<and> num_text (vt_input tier) = num_text n" "\<exists>n. plain_price n \<and> num_text (vt_output tier) = num_text n"
    using assms(1) by (auto simp: plain_tier_def)
  ultimately have "list_all (\<lambda>(v, w). v \<in> ?names \<and> (\<exists>n. plain_price n \<and> w = num_text n)) ?ts"
    by (simp add: tier_terms_def del: js_Cons js_Nil)
  moreover have "list_all (\<lambda>t. is_finite (charge ?env t)) ?ts"
    using assms(3) tier_charges_terms[OF assms(1)] by (simp add: list.pred_map comp_def)
  ultimately show ?thesis
    unfolding list_all_iff
  proof (intro ballI, elim ballE)
    fix t assume t: "case t of (v, w) \<Rightarrow> v \<in> {js ''p'', js ''c''} \<union> snd ` set BILLING_CACHE_VAR_MAP \<and> (\<exists>n. plain_price n \<and> w = num_text n)"
      "is_finite (charge ?env t)"
    obtain v w where vw: "t = (v, w)" by (cases t)
    from t(1) obtain n where n: "plain_price n" "w = num_text n" and v: "v \<in> {js ''p'', js ''c''} \<union> snd ` set BILLING_CACHE_VAR_MAP"
      by (auto simp: vw)
    obtain x where x: "map_of ?env v = Some x" using estimator_knows[OF v] by blast
    have fx: "is_finite x" "\<not> num_less x (Fin 0)" using checked_env[OF assms(2) x] by simp_all
    have "charge ?env t = num_mul x n" using plain_price_facts(2)[OF n(1)] by (simp add: charge_def vw x n(2))
    with mul_not_negative[OF fx(1) plain_price_facts(4)[OF n(1)] fx(2) plain_price_facts(5)[OF n(1)]] t(2) fx x plain_price_facts[OF n(1)]
    show "billable ?env t \<and> \<not> num_less (charge ?env t) (Fin 0)" by (simp add: billable_def vw n(2))
  qed auto
qed

text \<open>
  C3. The estimate of an unconditional tier is the sum of its charges.  For a tier without conditions whose prices
  are not negative and are written as plain decimals that denote them, with a name that is plain text and no
  operator symbol, and for valid token counts: the expression that the editor generates passes the tokenizer,
  the parser and the static check, and the evaluator returns the sum, from left to right, of price times token
  count over the two base prices and every optional price that is not zero, together with the name of the tier,
  provided that no product and no partial sum overflows and that the text is within the length limit.
\<close>

theorem estimate_is_sum_of_charges:
  assumes env_def: "env = estimator_env p c extra" and "plain_tier tier" and "check_environment env = Inr ()"
    and "list_all is_finite (tier_charges tier env)"
    and "list_all is_finite (partial_sums (hd (tier_charges tier env)) (tl (tier_charges tier env)))"
    and "length (generateExprFromVisualConfig (Some [tier])) \<le> MAX_EXPRESSION_LENGTH"
  shows "evalExprLocally approx (generateExprFromVisualConfig (Some [tier])) p c extra
    = \<lparr>er_cost = foldl num_add (hd (tier_charges tier env)) (tl (tier_charges tier env)), er_matchedTier = vt_label tier, er_error = None\<rparr>"
proof -
  let ?e = "generateExprFromVisualConfig (Some [tier])" and ?t = "(js ''p'', num_text (vt_input tier))" and ?ts = "tier_terms tier"
  note gen = tier_text[OF assms(2)] and sum = tier_sum_terms[OF assms(2)]
  have label: "label_text (vt_label tier)" using assms(2) by (simp add: plain_tier_def)
  have charges: "hd (tier_charges tier env) = charge env ?t" "tl (tier_charges tier env) = map (charge env) ?ts"
    by (simp_all add: tier_charges_terms[OF assms(2)] del: js_Cons js_Nil)
  have bill: "list_all (\<lambda>t. billable env t \<and> \<not> num_less (charge env t) (Fin 0)) (?t # ?ts)"
    using tier_billable[OF assms(2) assms(3)[unfolded env_def] assms(4)[unfolded env_def]] by (simp only: env_def)
  then have "list_all (billable env) (?t # ?ts)" by (rule list.pred_mono_strong) simp
  from evaluate_sum[OF this, of "0 + 1" approx "[]"] assms(5) sum(2)
  have ev: "evaluateNode approx env (sum_tree (product ?t) ?ts) (0 + 1) [] = Inr (VNum (foldl num_add (charge env ?t) (map (charge env) ?ts)), [])"
    "validateNode env (sum_tree (product ?t) ?ts) (0 + 1) = Inr TyNumber"
    by (simp_all add: charges MAX_EVALUATION_DEPTH_def del: js_Cons js_Nil)
  have fin: "is_finite (foldl num_add (charge env ?t) (map (charge env) ?ts)) \<and> \<not> num_less (foldl num_add (charge env ?t) (map (charge env) ?ts)) (Fin 0)"
    using bill assms(5) charges by (intro sum_not_negative) (auto simp: billable_def list.pred_map comp_def list_all_iff simp del: js_Cons js_Nil)
  obtain toks where toks: "tokenize ?e = Inr toks" "map kind toks = tier_kinds (vt_label tier) ?t ?ts @ [(TEof, [])]"
    using tokenize_tier[OF label sum(1)] sum(2) gen by (auto simp: MAX_TOKENS_def simp del: js_Cons js_Nil)
  have e: "\<not> starts_with ?e (js ''v1:'')" "js_trim ?e \<noteq> []"
    using js_trim_id[of ?e] by (simp_all add: gen is_space_def)
  have "evaluateBillingExpression approx ?e env = Inr \<lparr>cost = foldl num_add (charge env ?t) (map (charge env) ?ts), matchedTier = vt_label tier\<rparr>"
    using toks(1) parse_tier[OF label sum(1) toks(2)] ev fin assms(3,6) e(1)
    by (simp add: evaluateBillingExpression_def validate_def evaluate_def tier_tree_def MAX_EVALUATION_DEPTH_def validateCall_def
        evaluateCall_def requireArgumentCount_def literal_type_def expectNumber_def ensureFinite_def del: js_Cons js_Nil)
  with e(2) show ?thesis unfolding charges by (simp add: evalExprLocally_def env_def)
qed

definition sample_tokens :: "(jsstr \<times> number) list" where
  "sample_tokens = [(js ''cacheCreate1hTokens'', Fin 10), (js ''imageOutputTokens'', Fin 2)]"

definition sample_decimal_tier :: VisualTier where
  "sample_decimal_tier = sample_visual_tier\<lparr>vt_input := Fin (5 / 2)\<rparr>"

lemmas sample_tier_defs = sample_decimal_tier_def sample_visual_tier_def

lemma sample_charges:
  "tier_charges sample_decimal_tier (estimator_env (Fin 1000) (Fin 500) sample_tokens) = [Fin 2500, Fin 7500, Fin 60, Fin 80]"
  by (simp add: tier_charges_def sample_tier_defs sample_tokens_def estimator_env_def ESTIMATOR_VARS_def token_count_def billing_cache_vars
      field_price_def tier_fields_def num_or_zero_def num_truthy_def List.map_filter_simps num_mul_def num_val_def is_finite_def sign_neg_def
      round_signed_def Let_def)

lemma sample_environment: "check_environment (estimator_env (Fin 1000) (Fin 500) sample_tokens) = Inr ()"
  by (simp add: sample_tokens_def estimator_env_def ESTIMATOR_VARS_def token_count_def is_finite_def num_less_def num_val_def
      num_add_def sign_neg_def round_signed_def signed_zero_def)

theorem estimate_is_sum_of_charges_witness:
  "evalExprLocally (\<lambda>_ _. NaN) (generateExprFromVisualConfig (Some [sample_decimal_tier])) (Fin 1000) (Fin 500) sample_tokens
    = \<lparr>er_cost = Fin 10140, er_matchedTier = js ''base'', er_error = None\<rparr>"
proof -
  have plain: "plain_tier sample_decimal_tier"
    by (simp add: plain_tier_def sample_tier_defs label_text_def symbol_values_def two_character_symbols_def one_character_symbols_def
        tier_fields_def numeral_plain half_plain)
  have "num_text (Fin (5 / 2)) = js ''2.5''" "num_text (Fin 15) = js ''15''" "num_text (Fin 6) = js ''6''" "num_text (Fin 40) = js ''40''"
    by (rule num_text_half) (simp_all add: num_text_def positive_text_def nat_text.simps)
  then have len: "length (generateExprFromVisualConfig (Some [sample_decimal_tier])) \<le> MAX_EXPRESSION_LENGTH"
    by (simp add: tier_text[OF plain])
      (simp add: sample_tier_defs MAX_EXPRESSION_LENGTH_def term_text_def more_text_def tier_terms_def billing_cache_vars
        field_price_def tier_fields_def num_or_zero_def num_truthy_def List.map_filter_simps)
  have "list_all is_finite (tier_charges sample_decimal_tier (estimator_env (Fin 1000) (Fin 500) sample_tokens))"
    "list_all is_finite (partial_sums (hd (tier_charges sample_decimal_tier (estimator_env (Fin 1000) (Fin 500) sample_tokens)))
       (tl (tier_charges sample_decimal_tier (estimator_env (Fin 1000) (Fin 500) sample_tokens))))"
    "foldl num_add (hd (tier_charges sample_decimal_tier (estimator_env (Fin 1000) (Fin 500) sample_tokens)))
       (tl (tier_charges sample_decimal_tier (estimator_env (Fin 1000) (Fin 500) sample_tokens))) = Fin 10140"
    by (simp_all add: sample_charges num_add_def is_finite_def num_val_def sign_neg_def round_signed_def)
  moreover have "vt_label sample_decimal_tier = js ''base''" by (simp add: sample_tier_defs)
  ultimately show ?thesis
    using estimate_is_sum_of_charges[OF refl plain sample_environment _ _ len] by simp
qed

end
