(* ===== verification/EntityDialog.thy ===== *)
theory EntityDialog
  imports Prelude
begin

text \<open>
  The coordinator of entity dialogs, \<open>web/src/lib/entity-dialog-session.ts\<close>: a dialog opens a
  session for an entity, a session starts requests, and a response may only be used while its
  request is current.  Sessions, requests and abort controllers are objects compared by identity,
  so each carries the number of its allocation; \<open>aborted\<close> holds the controllers that were aborted.
  The theorems are about arbitrary sequences of calls, also with stale sessions as arguments.
\<close>

record 'e EntityDialogSession =
  ses_entity :: 'e
  ses_generation :: nat
  ses_object :: nat

record 'e EntityDialogRequest =
  req_session :: "'e EntityDialogSession"
  req_generation :: nat
  req_signal :: nat
  req_object :: nat

record 'e EntityDialogLiveOwner =
  owner_open :: bool
  owner_entity :: "'e option"

definition isEntityDialogOwnerCurrent :: "'e EntityDialogLiveOwner \<Rightarrow> 'e \<Rightarrow> bool" where
  "isEntityDialogOwnerCurrent liveOwner capturedEntity \<longleftrightarrow>
     owner_open liveOwner \<and> owner_entity liveOwner = Some capturedEntity"

record 'e coordinator =
  sessionGeneration :: nat
  requestGeneration :: nat
  currentSession :: "'e EntityDialogSession option"
  currentRequest :: "'e EntityDialogRequest option"
  currentController :: "nat option"
  aborted :: "nat set"
  next_object :: nat

definition createEntityDialogSessionCoordinator :: "'e coordinator" where
  "createEntityDialogSessionCoordinator =
     \<lparr>sessionGeneration = 0, requestGeneration = 0, currentSession = None, currentRequest = None,
      currentController = None, aborted = {}, next_object = 0\<rparr>"

definition isCurrentSession :: "'e coordinator \<Rightarrow> 'e EntityDialogSession \<Rightarrow> 'e option \<Rightarrow> bool" where
  "isCurrentSession st session entity \<longleftrightarrow>
     currentSession st = Some session \<and> ses_generation session = sessionGeneration st
     \<and> (entity = None \<or> entity = Some (ses_entity session))"

text \<open>\<open>currentController?.abort()\<close>\<close>

definition abort_current :: "'e coordinator \<Rightarrow> 'e coordinator" where
  "abort_current st = (case currentController st of None \<Rightarrow> st | Some c \<Rightarrow> st\<lparr>aborted := insert c (aborted st)\<rparr>)"

definition open_dialog :: "'e coordinator \<Rightarrow> 'e \<Rightarrow> 'e EntityDialogSession \<times> 'e coordinator" where
  "open_dialog st entity =
     (let st1 = (abort_current st)\<lparr>currentController := None, currentRequest := None\<rparr>;
          session = \<lparr>ses_entity = entity, ses_generation = Suc (sessionGeneration st1), ses_object = next_object st1\<rparr>
      in (session, st1\<lparr>sessionGeneration := Suc (sessionGeneration st1), currentSession := Some session,
                       next_object := Suc (next_object st1)\<rparr>))"

definition startRequest ::
  "'e coordinator \<Rightarrow> 'e EntityDialogSession \<Rightarrow> 'e EntityDialogRequest option \<times> 'e coordinator" where
  "startRequest st session =
     (if \<not> isCurrentSession st session None then (None, st)
      else
        let st1 = abort_current st;
            controller = next_object st1;
            request = \<lparr>req_session = session, req_generation = Suc (requestGeneration st1),
                       req_signal = controller, req_object = Suc controller\<rparr>
        in (Some request, st1\<lparr>requestGeneration := Suc (requestGeneration st1), currentController := Some controller,
                             currentRequest := Some request, next_object := Suc (Suc controller)\<rparr>))"

definition isCurrentRequest :: "'e coordinator \<Rightarrow> 'e EntityDialogRequest \<Rightarrow> bool" where
  "isCurrentRequest st request \<longleftrightarrow>
     currentRequest st = Some request \<and> req_generation request = requestGeneration st
     \<and> isCurrentSession st (req_session request) None \<and> req_signal request \<notin> aborted st"

definition close_dialog :: "'e coordinator \<Rightarrow> 'e EntityDialogSession \<Rightarrow> 'e coordinator" where
  "close_dialog st session =
     (if \<not> isCurrentSession st session None then st
      else (abort_current st)\<lparr>currentController := None, currentRequest := None, currentSession := None,
             sessionGeneration := Suc (sessionGeneration st)\<rparr>)"

section \<open>Runs of the coordinator\<close>

datatype 'e dialog_call =
  Open 'e | Start "'e EntityDialogSession" | Close "'e EntityDialogSession"

text \<open>The coordinator with the list of the requests it has handed out.\<close>

record 'e dialog_run =
  coord :: "'e coordinator"
  issued :: "'e EntityDialogRequest list"

fun dialog_step :: "'e dialog_run \<Rightarrow> 'e dialog_call \<Rightarrow> 'e dialog_run" where
  "dialog_step s (Open e) = s\<lparr>coord := snd (open_dialog (coord s) e)\<rparr>"
| "dialog_step s (Start session) =
     (case startRequest (coord s) session of
        (None, c) \<Rightarrow> s\<lparr>coord := c\<rparr>
      | (Some r, c) \<Rightarrow> s\<lparr>coord := c, issued := r # issued s\<rparr>)"
| "dialog_step s (Close session) = s\<lparr>coord := close_dialog (coord s) session\<rparr>"

definition dialog_init :: "'e dialog_run" where
  "dialog_init = \<lparr>coord = createEntityDialogSessionCoordinator, issued = []\<rparr>"

definition coordinator_inv :: "'e coordinator \<Rightarrow> bool" where
  "coordinator_inv st \<longleftrightarrow>
     (\<forall>s. currentSession st = Some s \<longrightarrow> ses_generation s = sessionGeneration st)
     \<and> (case currentRequest st of
          None \<Rightarrow> currentController st = None
        | Some r \<Rightarrow> isCurrentRequest st r \<and> currentController st = Some (req_signal r))
     \<and> (\<forall>c \<in> aborted st. c < next_object st)
     \<and> (\<forall>c. currentController st = Some c \<longrightarrow> c < next_object st)"

definition dialog_inv :: "'e dialog_run \<Rightarrow> bool" where
  "dialog_inv s \<longleftrightarrow> coordinator_inv (coord s)
     \<and> (\<forall>r \<in> set (issued s). isCurrentRequest (coord s) r \<or> req_signal r \<in> aborted (coord s))"

lemmas coordinator_defs = open_dialog_def startRequest_def close_dialog_def abort_current_def
  isCurrentRequest_def isCurrentSession_def Let_def

lemma open_dialog_inv: "coordinator_inv st \<Longrightarrow> coordinator_inv (snd (open_dialog st e))"
  by (auto simp: coordinator_inv_def coordinator_defs split: option.splits)

lemma close_dialog_inv: "coordinator_inv st \<Longrightarrow> coordinator_inv (close_dialog st s)"
  by (auto simp: coordinator_inv_def coordinator_defs split: option.splits)

lemma startRequest_inv: "coordinator_inv st \<Longrightarrow> coordinator_inv (snd (startRequest st s))"
  by (fastforce simp: coordinator_inv_def coordinator_defs split: option.splits)

lemma startRequest_current:
  "coordinator_inv st \<Longrightarrow> startRequest st s = (Some r, st') \<Longrightarrow> isCurrentRequest st' r"
  by (fastforce simp: coordinator_inv_def coordinator_defs split: option.splits if_splits)

text \<open>An operation leaves a current request current or aborts it, and never revives an aborted one.\<close>

lemma open_dialog_settles:
  "coordinator_inv st \<Longrightarrow> isCurrentRequest st r \<Longrightarrow> req_signal r \<in> aborted (snd (open_dialog st e))"
  by (auto simp: coordinator_inv_def coordinator_defs split: option.splits)

lemma close_dialog_settles:
  "coordinator_inv st \<Longrightarrow> isCurrentRequest st r \<Longrightarrow>
     isCurrentRequest (close_dialog st s) r \<or> req_signal r \<in> aborted (close_dialog st s)"
  by (auto simp: coordinator_inv_def coordinator_defs split: option.splits)

lemma startRequest_settles:
  "coordinator_inv st \<Longrightarrow> isCurrentRequest st r \<Longrightarrow>
     isCurrentRequest (snd (startRequest st s)) r \<or> req_signal r \<in> aborted (snd (startRequest st s))"
  by (auto simp: coordinator_inv_def coordinator_defs split: option.splits)

lemma aborted_mono:
  "aborted st \<subseteq> aborted (snd (open_dialog st e))" "aborted st \<subseteq> aborted (close_dialog st s)"
  "aborted st \<subseteq> aborted (snd (startRequest st s))"
  by (auto simp: coordinator_defs split: option.splits)

lemma dialog_step_inv: "dialog_inv s \<Longrightarrow> dialog_inv (dialog_step s c)"
proof (cases c)
  case (Open e)
  assume "dialog_inv s"
  with Open show ?thesis
    using open_dialog_inv [of "coord s" e] open_dialog_settles [of "coord s" _ e] aborted_mono(1) [of "coord s" e]
    by (auto simp: dialog_inv_def)
next
  case (Close t)
  assume "dialog_inv s"
  with Close show ?thesis
    using close_dialog_inv [of "coord s" t] close_dialog_settles [of "coord s" _ t] aborted_mono(2) [of "coord s" t]
    by (auto simp: dialog_inv_def)
next
  case (Start t)
  assume inv: "dialog_inv s"
  obtain ro c' where st: "startRequest (coord s) t = (ro, c')" by (cases "startRequest (coord s) t")
  with inv have "coordinator_inv c'" "\<forall>r \<in> set (issued s). isCurrentRequest c' r \<or> req_signal r \<in> aborted c'"
    using startRequest_inv [of "coord s" t] startRequest_settles [of "coord s" _ t] aborted_mono(3) [of "coord s" t]
    by (auto simp: dialog_inv_def)
  moreover have "ro = Some r \<Longrightarrow> isCurrentRequest c' r" for r
    using startRequest_current st inv by (auto simp: dialog_inv_def)
  ultimately show ?thesis using Start st by (auto simp: dialog_inv_def split: option.splits)
qed

interpretation dialog: guarded_machine dialog_step dialog_init dialog_inv
proof
  show "dialog_inv dialog_init"
    by (simp add: dialog_inv_def dialog_init_def coordinator_inv_def createEntityDialogSessionCoordinator_def)
qed (rule dialog_step_inv)

lemma dialog_step_aborted: "aborted (coord s) \<subseteq> aborted (coord (dialog_step s c))"
proof (cases c)
  case (Start t)
  then show ?thesis
    using aborted_mono(3) [of "coord s" t] by (cases "startRequest (coord s) t"; cases "fst (startRequest (coord s) t)") auto
qed (use aborted_mono [of "coord s"] in auto)

lemma dialog_run_aborted: "aborted (coord s) \<subseteq> aborted (coord (run_machine dialog_step s cs))"
proof (induction cs arbitrary: s)
  case (Cons c cs)
  then show ?case using dialog_step_aborted [of s c] by (metis run_machine.simps(2) subset_trans)
qed simp

section \<open>Properties\<close>

text \<open>
  C29. No request is leaked: after any sequence of \<open>open\<close>, \<open>startRequest\<close> and \<open>close\<close> calls, also
  with stale sessions, every request handed out is still current or its abort signal has fired, and
  at most one of them is current.
\<close>

theorem requests_current_or_aborted:
  "let s = run_machine dialog_step dialog_init cs in
     list_all (\<lambda>r. isCurrentRequest (coord s) r \<noteq> (req_signal r \<in> aborted (coord s))) (issued s)
     \<and> (\<forall>r r'. \<not> (isCurrentRequest (coord s) r \<and> isCurrentRequest (coord s) r' \<and> r \<noteq> r'))"
proof -
  have "dialog_inv (run_machine dialog_step dialog_init cs)" by (rule dialog.inv_run)
  then show ?thesis by (auto simp: Let_def dialog_inv_def list_all_iff isCurrentRequest_def)
qed

text \<open>
  A stale response is never used: a request that has been handed out and is no longer current
  stays so whatever is called afterwards.
\<close>

lemma stale_request_stays_stale:
  assumes "s = run_machine dialog_step dialog_init cs" "r \<in> set (issued s)" "\<not> isCurrentRequest (coord s) r"
  shows "\<not> isCurrentRequest (coord (run_machine dialog_step s ds)) r"
proof -
  have "dialog_inv s" unfolding assms(1) by (rule dialog.inv_run)
  with assms(2,3) have "req_signal r \<in> aborted (coord s)" by (auto simp: dialog_inv_def)
  with dialog_run_aborted [of s ds] show ?thesis by (auto simp: isCurrentRequest_def)
qed

definition sample_session :: "nat EntityDialogSession" where
  "sample_session = \<lparr>ses_entity = 7, ses_generation = 1, ses_object = 0\<rparr>"

definition sample_request :: "nat EntityDialogRequest" where
  "sample_request = \<lparr>req_session = sample_session, req_generation = 1, req_signal = 1, req_object = 2\<rparr>"

text \<open>A call that neither opens a dialog nor starts a request on the session nor closes it.\<close>

fun leaves_alone :: "'e EntityDialogSession \<Rightarrow> 'e dialog_call \<Rightarrow> bool" where
  "leaves_alone session (Open e) = False"
| "leaves_alone session (Start t) = (t \<noteq> session)"
| "leaves_alone session (Close t) = (t \<noteq> session)"

lemma other_calls_keep:
  assumes "isCurrentSession (coord s) session None" "leaves_alone session c"
  shows "coord (dialog_step s c) = coord s"
  using assms by (cases c) (auto simp: startRequest_def close_dialog_def isCurrentSession_def)

lemma other_call_ends:
  assumes "coordinator_inv (coord s)" "isCurrentRequest (coord s) r" "\<not> leaves_alone (req_session r) c"
  shows "req_signal r \<in> aborted (coord (dialog_step s c))"
proof (cases c)
  case (Open e)
  with assms open_dialog_settles show ?thesis by fastforce
qed (use assms in \<open>auto simp: coordinator_inv_def coordinator_defs split: option.splits\<close>)

text \<open>A current request is current after a sequence of calls exactly if they all leave its session alone.\<close>

lemma current_exactly_while_alone:
  assumes "coordinator_inv (coord s)" "isCurrentRequest (coord s) r"
  shows "isCurrentRequest (coord (run_machine dialog_step s ds)) r \<longleftrightarrow> list_all (leaves_alone (req_session r)) ds"
  using assms
proof (induction ds arbitrary: s)
  case (Cons d ds)
  show ?case
  proof (cases "leaves_alone (req_session r) d")
    case True
    have "coord (dialog_step s d) = coord s"
      by (rule other_calls_keep [OF _ True]) (use Cons.prems(2) in \<open>simp add: isCurrentRequest_def\<close>)
    with Cons.IH [of "dialog_step s d"] Cons.prems True show ?thesis by simp
  next
    case False
    from other_call_ends [OF Cons.prems False] dialog_run_aborted [of "dialog_step s d" ds]
    have "req_signal r \<in> aborted (coord (run_machine dialog_step s (d # ds)))" by auto
    with False show ?thesis by (simp add: isCurrentRequest_def)
  qed
qed simp

text \<open>
  C30. The life of a request: directly after \<open>open\<close>, in every reachable state, a request started on the returned
  session is handed out for the entity that was opened, and after any further calls it is current exactly if
  none of them opened a dialog, started another request on the session or closed it.  Calls with other
  sessions, stale or made up, do not end it, and nothing makes it current again.
\<close>

theorem open_then_request_is_current:
  assumes "st = coord (run_machine dialog_step dialog_init cs)" "open_dialog st e = (session, st1)"
  shows "\<exists>r st2. startRequest st1 session = (Some r, st2) \<and> req_session r = session \<and> ses_entity session = e
     \<and> (\<forall>issued ds. isCurrentRequest (coord (run_machine dialog_step \<lparr>coord = st2, issued = issued\<rparr> ds)) r
          \<longleftrightarrow> list_all (leaves_alone session) ds)"
proof -
  have inv: "coordinator_inv st1"
    using dialog.inv_run [of cs] open_dialog_inv [of st e] assms by (auto simp: dialog_inv_def)
  have cur: "isCurrentSession st1 session None" "ses_entity session = e"
    using assms(2) by (auto simp: open_dialog_def isCurrentSession_def Let_def)
  obtain r st2 where r: "startRequest st1 session = (Some r, st2)" "req_session r = session"
    using cur(1) by (auto simp: startRequest_def Let_def)
  have "isCurrentRequest st2 r" by (rule startRequest_current [OF inv r(1)])
  moreover have "coordinator_inv st2" using startRequest_inv [OF inv, of session] r(1) by simp
  ultimately have "isCurrentRequest (coord (run_machine dialog_step \<lparr>coord = st2, issued = issued\<rparr> ds)) r
      \<longleftrightarrow> list_all (leaves_alone session) ds" for issued ds
    using current_exactly_while_alone [of "\<lparr>coord = st2, issued = issued\<rparr>" r ds] r(2) by simp
  with r cur(2) show ?thesis by auto
qed

theorem open_then_request_is_current_witness:
  "\<exists>session st1 r st2. open_dialog (coord (run_machine dialog_step dialog_init [Open 7, Close sample_session])) 9
       = (session, st1)
     \<and> startRequest st1 session = (Some r, st2) \<and> ses_entity (req_session r) = 9
     \<and> isCurrentRequest (coord (run_machine dialog_step \<lparr>coord = st2, issued = [r]\<rparr> [])) r
     \<and> \<not> isCurrentRequest (coord (run_machine dialog_step \<lparr>coord = st2, issued = [r]\<rparr> [Start session])) r"
proof -
  obtain session st1 where
    o: "open_dialog (coord (run_machine dialog_step dialog_init [Open 7, Close sample_session])) 9 = (session, st1)"
    by (cases "open_dialog (coord (run_machine dialog_step dialog_init [Open 7, Close sample_session])) 9")
  from open_then_request_is_current [OF refl o] obtain r st2 where
    "startRequest st1 session = (Some r, st2)" "req_session r = session" "ses_entity session = 9"
    and live: "\<forall>issued ds. isCurrentRequest (coord (run_machine dialog_step \<lparr>coord = st2, issued = issued\<rparr> ds)) r
      \<longleftrightarrow> list_all (leaves_alone session) ds" by blast
  moreover have "isCurrentRequest (coord (run_machine dialog_step \<lparr>coord = st2, issued = [r]\<rparr> [])) r"
    "\<not> isCurrentRequest (coord (run_machine dialog_step \<lparr>coord = st2, issued = [r]\<rparr> [Start session])) r"
    using live [rule_format, of "[r]" "[]"] live [rule_format, of "[r]" "[Start session]"] by simp_all
  ultimately show ?thesis using o by blast
qed

end
