(* ===== verification/EntityDialogSpec.thy ===== *)
theory EntityDialogSpec
  imports EntityDialog
begin

text \<open>
  What the coordinator of entity dialogs promises, as a machine without generations and abort controllers: a slot
  that is closed, or holds a session, or holds a session with its latest request.  The coordinator refines the
  slot: along every sequence of calls the slot that follows the returned sessions and requests is the
  abstraction of the coordinator, and the queries of the coordinator are questions about the slot.
\<close>

section \<open>Refinement along observed calls\<close>

text \<open>The observations of the calls of a run, each made in the state the call meets.\<close>

fun observations :: "('s \<Rightarrow> 'e \<Rightarrow> 's) \<Rightarrow> ('s \<Rightarrow> 'e \<Rightarrow> 'o) \<Rightarrow> 's \<Rightarrow> 'e list \<Rightarrow> 'o list" where
  "observations step observe s [] = []"
| "observations step observe s (c # cs) = observe s c # observations step observe (step s c) cs"

locale observed_refinement = guarded_machine +
  fixes observe :: "'a \<Rightarrow> 'b \<Rightarrow> 'o" and abst :: "'a \<Rightarrow> 'x" and astep :: "'x \<Rightarrow> 'o \<Rightarrow> 'x"
  assumes abst_step: "inv s \<Longrightarrow> abst (step s c) = astep (abst s) (observe s c)"
begin

lemma abst_run_from: "inv s \<Longrightarrow> abst (run_machine step s cs) = foldl astep (abst s) (observations step observe s cs)"
  by (induction cs arbitrary: s) (simp_all add: abst_step inv_step)

lemma abst_run: "abst (run_machine step init cs) = foldl astep (abst init) (observations step observe init cs)"
  by (rule abst_run_from [OF inv_init])

end

section \<open>The slot\<close>

datatype 'e dialog_slot = Closed | Idle "'e EntityDialogSession" | Busy "'e EntityDialogSession" "'e EntityDialogRequest"

datatype 'e dialog_observation =
    Opened "'e EntityDialogSession"
  | Started "'e EntityDialogSession" "'e EntityDialogRequest option"
  | CloseCalled "'e EntityDialogSession"

fun slot_session :: "'e dialog_slot \<Rightarrow> 'e EntityDialogSession option" where
  "slot_session Closed = None"
| "slot_session (Idle s) = Some s"
| "slot_session (Busy s r) = Some s"

fun slot_request :: "'e dialog_slot \<Rightarrow> 'e EntityDialogRequest option" where
  "slot_request (Busy s r) = Some r"
| "slot_request _ = None"

fun slot_step :: "'e dialog_slot \<Rightarrow> 'e dialog_observation \<Rightarrow> 'e dialog_slot" where
  "slot_step slot (Opened s) = Idle s"
| "slot_step slot (Started s ro) = (case ro of Some r \<Rightarrow> if slot_session slot = Some s then Busy s r else slot | None \<Rightarrow> slot)"
| "slot_step slot (CloseCalled s) = (if slot_session slot = Some s then Closed else slot)"

section \<open>The abstraction\<close>

definition coordinator_slot :: "'e coordinator \<Rightarrow> 'e dialog_slot" where
  "coordinator_slot st = (case currentSession st of
       None \<Rightarrow> Closed
     | Some s \<Rightarrow> (case currentRequest st of None \<Rightarrow> Idle s | Some r \<Rightarrow> Busy s r))"

fun dialog_observe :: "'e dialog_run \<Rightarrow> 'e dialog_call \<Rightarrow> 'e dialog_observation" where
  "dialog_observe s (Open e) = Opened (fst (open_dialog (coord s) e))"
| "dialog_observe s (Start session) = Started session (fst (startRequest (coord s) session))"
| "dialog_observe s (Close session) = CloseCalled session"

lemma slot_queries:
  assumes "coordinator_inv st"
  shows "isCurrentSession st s e \<longleftrightarrow> slot_session (coordinator_slot st) = Some s \<and> (e = None \<or> e = Some (ses_entity s))"
    and "isCurrentRequest st r \<longleftrightarrow> slot_request (coordinator_slot st) = Some r"
  using assms
  by (auto simp: coordinator_inv_def coordinator_slot_def isCurrentSession_def isCurrentRequest_def split: option.splits)

lemma slot_open: "coordinator_slot (snd (open_dialog st e)) = Idle (fst (open_dialog st e))"
  by (simp add: coordinator_slot_def coordinator_defs split: option.splits)

lemma slot_start:
  assumes "coordinator_inv st" "startRequest st s = (ro, st')"
  shows "coordinator_slot st' = slot_step (coordinator_slot st) (Started s ro)" "ro \<noteq> None \<longleftrightarrow> slot_session (coordinator_slot st) = Some s"
  using assms slot_queries(1) [OF assms(1), of s None]
  by (auto simp: startRequest_def coordinator_slot_def isCurrentSession_def abort_current_def Let_def split: option.splits if_splits)

lemma slot_close: "coordinator_inv st \<Longrightarrow> coordinator_slot (close_dialog st s) = slot_step (coordinator_slot st) (CloseCalled s)"
  using slot_queries(1) [of st s None] by (auto simp: close_dialog_def coordinator_slot_def)

interpretation dialog_refinement: observed_refinement dialog_step dialog_init dialog_inv dialog_observe "\<lambda>s. coordinator_slot (coord s)" slot_step
proof
  fix s :: "'a dialog_run" and c
  assume "dialog_inv s"
  then have inv: "coordinator_inv (coord s)" by (simp add: dialog_inv_def)
  show "coordinator_slot (coord (dialog_step s c)) = slot_step (coordinator_slot (coord s)) (dialog_observe s c)"
  proof (cases c)
    case (Start t)
    obtain ro c' where st: "startRequest (coord s) t = (ro, c')" by (cases "startRequest (coord s) t")
    with slot_start(1) [OF inv st] Start show ?thesis by (cases ro) simp_all
  qed (simp_all add: slot_open slot_close inv)
qed

text \<open>
  C26. The coordinator refines the slot.  After any sequence of calls its abstraction is the slot that started
  closed and followed the observed calls: opening replaces whatever the slot holds by the new session, a
  request is handed out exactly for the session of the slot and replaces the previous one, and only the
  session of the slot can close it.  \<open>isCurrentSession\<close> and \<open>isCurrentRequest\<close> answer for the content of the slot, so
  the generation counters and the abort flags never decide differently.
\<close>

theorem coordinator_refines_slot:
  "let s = run_machine dialog_step dialog_init cs; slot = foldl slot_step Closed (observations dialog_step dialog_observe dialog_init cs) in
     coordinator_slot (coord s) = slot
     \<and> isCurrentSession (coord s) session entity = (slot_session slot = Some session \<and> (entity = None \<or> entity = Some (ses_entity session)))
     \<and> isCurrentRequest (coord s) request = (slot_request slot = Some request)
     \<and> (fst (startRequest (coord s) session) \<noteq> None) = (slot_session slot = Some session)"
proof -
  let ?s = "run_machine dialog_step dialog_init cs"
  have inv: "coordinator_inv (coord ?s)" using dialog.inv_run [of cs] by (simp add: dialog_inv_def)
  have "coordinator_slot (coord (dialog_init :: 'a dialog_run)) = Closed"
    by (simp add: dialog_init_def createEntityDialogSessionCoordinator_def coordinator_slot_def)
  then have "coordinator_slot (coord ?s) = foldl slot_step Closed (observations dialog_step dialog_observe dialog_init cs)"
    using dialog_refinement.abst_run [of cs] by simp
  with slot_queries [OF inv] slot_start(2) [OF inv prod.collapse [symmetric], of session] show ?thesis by (simp add: Let_def)
qed

end
