(* ===== verification/PlaygroundMessages.thy ===== *)
theory PlaygroundMessages
  imports JsNumText
begin

text \<open>
  Messages of the playground: features/playground/types.ts, constants.ts and the modules under lib/message.  A message
  is created, filled by streamed chunks or by one response, finalised, edited and regenerated.  Identifiers of
  \<open>nanoid\<close> and readings of the clock are arguments; \<open>clock i\<close> is a reading of \<open>Date.now\<close>, numbered in the order of the code.
  Optional members are options; \<open>errorCode\<close>, which may also be null, is an option of an option.
\<close>

section \<open>Data\<close>

datatype MessageRole = RoleUser | RoleAssistant | RoleSystem

datatype MessageStatus = StatusLoading | StatusStreaming | StatusComplete | StatusError

record MessageVersion =
  mv_id :: jsstr
  mv_content :: jsstr

record Reasoning =
  rz_content :: jsstr
  rz_duration :: number
  rz_startedAt :: "number option"
  rz_completedAt :: "number option"
  rz_durationMs :: "number option"

record Message =
  msg_key :: jsstr
  msg_from :: MessageRole
  msg_versions :: "MessageVersion list"
  msg_createdAt :: "number option"
  msg_startedAt :: "number option"
  msg_completedAt :: "number option"
  msg_durationMs :: "number option"
  msg_sources :: "(jsstr \<times> jsstr) list option"
  msg_reasoning :: "Reasoning option"
  msg_isReasoningStreaming :: "bool option"
  msg_isReasoningComplete :: "bool option"
  msg_isContentComplete :: "bool option"
  msg_status :: "MessageStatus option"
  msg_errorCode :: "jsstr option option"

text \<open>\<open>ERROR_MESSAGES\<close>\<close>

definition API_REQUEST_ERROR :: jsstr where "API_REQUEST_ERROR = js ''Request error occurred''"
definition PARSE_ERROR :: jsstr where "PARSE_ERROR = js ''Error parsing response data''"
definition STREAM_START_ERROR :: jsstr where "STREAM_START_ERROR = js ''Error establishing connection''"
definition CONNECTION_CLOSED :: jsstr where "CONNECTION_CLOSED = js ''Connection closed''"
definition INTERRUPTED :: jsstr where "INTERRUPTED = js ''Generation was interrupted''"

section \<open>Versions and creation\<close>

definition createMessageVersion :: "jsstr \<Rightarrow> jsstr \<Rightarrow> MessageVersion" where
  "createMessageVersion nanoid content = \<lparr>mv_id = nanoid, mv_content = content\<rparr>"

definition getCurrentVersion :: "Message \<Rightarrow> MessageVersion" where
  "getCurrentVersion message = (case msg_versions message of
       [] \<Rightarrow> \<lparr>mv_id = js ''default'', mv_content = []\<rparr> | v # _ \<Rightarrow> v)"

definition getMessageContent :: "Message \<Rightarrow> jsstr" where
  "getMessageContent message = mv_content (getCurrentVersion message)"

definition hasMessageContent :: "Message \<Rightarrow> bool" where
  "hasMessageContent message \<longleftrightarrow> js_trim (getMessageContent message) \<noteq> []"

definition updateCurrentVersionContent :: "Message \<Rightarrow> jsstr \<Rightarrow> Message" where
  "updateCurrentVersionContent message content = message\<lparr>msg_versions := [(getCurrentVersion message)\<lparr>mv_content := content\<rparr>]\<rparr>"

definition createUserMessage :: "jsstr \<times> jsstr \<Rightarrow> jsstr \<Rightarrow> number \<Rightarrow> Message" where
  "createUserMessage ids content createdAt =
     \<lparr>msg_key = fst ids, msg_from = RoleUser, msg_versions = [createMessageVersion (snd ids) content],
      msg_createdAt = Some createdAt, msg_startedAt = None, msg_completedAt = None, msg_durationMs = None, msg_sources = None,
      msg_reasoning = None, msg_isReasoningStreaming = None, msg_isReasoningComplete = None, msg_isContentComplete = None,
      msg_status = None, msg_errorCode = None\<rparr>"

definition createLoadingAssistantMessage :: "jsstr \<times> jsstr \<Rightarrow> number \<Rightarrow> Message" where
  "createLoadingAssistantMessage ids startedAt =
     \<lparr>msg_key = fst ids, msg_from = RoleAssistant, msg_versions = [createMessageVersion (snd ids) []],
      msg_createdAt = Some startedAt, msg_startedAt = Some startedAt, msg_completedAt = None, msg_durationMs = None, msg_sources = None,
      msg_reasoning = None, msg_isReasoningStreaming = Some False, msg_isReasoningComplete = Some False,
      msg_isContentComplete = Some False, msg_status = Some StatusLoading, msg_errorCode = None\<rparr>"

datatype ContentPart = TextPart jsstr | ImagePart jsstr

datatype MessageContent = PlainContent jsstr | PartsContent "ContentPart list"

definition buildMessageContent :: "jsstr \<Rightarrow> jsstr list \<Rightarrow> MessageContent" where
  "buildMessageContent body imageUrls = (let validImages = filter (\<lambda>url. js_trim url \<noteq> []) imageUrls in
     if validImages = [] then PlainContent body else PartsContent (TextPart body # map (\<lambda>url. ImagePart (js_trim url)) validImages))"

fun getTextContent :: "MessageContent \<Rightarrow> jsstr" where
  "getTextContent (PlainContent s) = s"
| "getTextContent (PartsContent parts) = (case find (\<lambda>p. case p of TextPart _ \<Rightarrow> True | ImagePart _ \<Rightarrow> False) parts of
     Some (TextPart s) \<Rightarrow> s | _ \<Rightarrow> [])"

definition formatMessageForAPI :: "Message \<Rightarrow> MessageRole \<times> jsstr" where
  "formatMessageForAPI message = (msg_from message, mv_content (getCurrentVersion message))"

definition isValidMessage :: "Message \<Rightarrow> bool" where
  "isValidMessage message \<longleftrightarrow> msg_versions message \<noteq> [] \<and> \<not> (msg_from message = RoleAssistant \<and> \<not> hasMessageContent message)"

section \<open>Timing\<close>

definition js_or :: "'a option \<Rightarrow> 'a option \<Rightarrow> 'a option" where
  "js_or a b = (case a of Some _ \<Rightarrow> a | None \<Rightarrow> b)"

definition completeAssistantTiming :: "number \<Rightarrow> Message \<Rightarrow> Message" where
  "completeAssistantTiming completedAt message =
     (if msg_from message \<noteq> RoleAssistant then message
      else let startedAt = (case js_or (msg_startedAt message) (msg_createdAt message) of Some t \<Rightarrow> t | None \<Rightarrow> completedAt)
        in message\<lparr>msg_startedAt := Some startedAt, msg_completedAt := Some completedAt,
             msg_durationMs := Some (math_max (Fin 0) (num_sub completedAt startedAt))\<rparr>)"

definition startReasoningTiming :: "number \<Rightarrow> Message \<Rightarrow> Reasoning" where
  "startReasoningTiming startedAt message = (case msg_reasoning message of
       None \<Rightarrow> \<lparr>rz_content = [], rz_duration = Fin 0, rz_startedAt = Some startedAt, rz_completedAt = None, rz_durationMs = None\<rparr>
     | Some r \<Rightarrow> r\<lparr>rz_startedAt := js_or (rz_startedAt r) (Some startedAt)\<rparr>)"

definition completeReasoningTiming :: "number \<Rightarrow> Message \<Rightarrow> Message" where
  "completeReasoningTiming completedAt message = (case msg_reasoning message of
       None \<Rightarrow> message
     | Some r \<Rightarrow> if rz_durationMs r \<noteq> None then message
         else let startedAt = (case js_or (rz_startedAt r) (msg_startedAt message) of Some t \<Rightarrow> t | None \<Rightarrow> completedAt);
                  durationMs = math_max (Fin 0) (num_sub completedAt startedAt)
           in message\<lparr>msg_reasoning := Some (r\<lparr>rz_startedAt := Some startedAt, rz_completedAt := Some completedAt,
                rz_durationMs := Some durationMs, rz_duration := math_ceil (num_div durationMs (Fin 1000))\<rparr>)\<rparr>)"

section \<open>Thinking tags\<close>

text \<open>The text before and after the first occurrence of \<open>n\<close>: \<open>indexOf\<close> with both slices.\<close>

fun cut :: "jsstr \<Rightarrow> jsstr \<Rightarrow> (jsstr \<times> jsstr) option" where
  "cut n [] = (if n = [] then Some ([], []) else None)"
| "cut n (c # cs) = (if starts_with (c # cs) n then Some ([], drop (length n) (c # cs))
     else map_option (\<lambda>(a, b). (c # a, b)) (cut n cs))"

lemma cut_Some: "cut n s = Some (a, b) \<Longrightarrow> s = a @ n @ b"
  by (induction s arbitrary: a) (auto simp: starts_with_iff split: if_splits)

definition open_tag :: jsstr where "open_tag = js ''<think>''"
definition close_tag :: jsstr where "close_tag = js ''</think>''"

definition has_think :: "jsstr \<Rightarrow> bool" where
  "has_think content \<longleftrightarrow> cut open_tag content \<noteq> None"

record ParsedThinkTags =
  visibleContent :: jsstr
  tag_reasoning :: jsstr
  hasUnclosedTag :: bool

text \<open>The loop of \<open>parseThinkTags\<close> from the current position on: visible parts, reasoning parts and the flag.\<close>

function think_loop :: "jsstr \<Rightarrow> jsstr list \<times> jsstr list \<times> bool" where
  "think_loop content = (case cut open_tag content of
       None \<Rightarrow> (if content = [] then [] else [content], [], False)
     | Some (before, inner) \<Rightarrow>
         let shown = (if before = [] then [] else [before]) in
         (case cut close_tag inner of
            None \<Rightarrow> (shown, [inner], True)
          | Some (r, rest) \<Rightarrow> (case think_loop rest of (vs, rs, u) \<Rightarrow> (shown @ vs, r # rs, u))))"
  by auto
termination
proof (relation "measure length")
  fix content before inner r rest x y z
  assume "cut open_tag content = Some y" "(before, inner) = y" "cut close_tag inner = Some z" "(r, rest) = z"
  then have "content = before @ open_tag @ inner" "inner = r @ close_tag @ rest" using cut_Some by auto
  then show "(rest, content) \<in> measure length" by (simp add: open_tag_def close_tag_def)
qed simp

declare think_loop.simps [simp del]

definition parseThinkTags :: "jsstr \<Rightarrow> ParsedThinkTags" where
  "parseThinkTags content =
     (if \<not> has_think content then \<lparr>visibleContent = content, tag_reasoning = [], hasUnclosedTag = False\<rparr>
      else case think_loop content of (vs, rs, u) \<Rightarrow>
        \<lparr>visibleContent = js_trim (concat vs), tag_reasoning = js_trim (js_join [10, 10] rs), hasUnclosedTag = u\<rparr>)"

section \<open>Streaming\<close>

datatype StreamChunkType = ReasoningChunk | ContentChunk

definition appendStreamDelta :: "jsstr \<Rightarrow> jsstr \<Rightarrow> jsstr" where
  "appendStreamDelta currentContent delta = currentContent @ delta"

definition processStreamingContent :: "number \<Rightarrow> Message \<Rightarrow> jsstr \<Rightarrow> Message" where
  "processStreamingContent now message contentChunk =
     (let fullContent = appendStreamDelta (mv_content (getCurrentVersion message)) contentChunk in
      if msg_reasoning message = None \<and> \<not> has_think fullContent
      then (updateCurrentVersionContent message fullContent)\<lparr>msg_isReasoningStreaming := Some False\<rparr>
      else let parsed = parseThinkTags fullContent;
               finalReasoning = (if tag_reasoning parsed \<noteq> []
                 then Some ((startReasoningTiming now message)\<lparr>rz_content := tag_reasoning parsed\<rparr>) else msg_reasoning message)
           in (updateCurrentVersionContent message fullContent)\<lparr>msg_reasoning := finalReasoning,
                msg_isReasoningStreaming := Some (hasUnclosedTag parsed)\<rparr>)"

definition applyStreamingChunk :: "(nat \<Rightarrow> number) \<Rightarrow> Message \<Rightarrow> StreamChunkType \<Rightarrow> jsstr \<Rightarrow> Message" where
  "applyStreamingChunk clock message type chunk =
     (if msg_status message = Some StatusError then message
      else if type = ReasoningChunk then
        let reasoning = startReasoningTiming (clock 0) message in
        message\<lparr>msg_reasoning := Some (reasoning\<lparr>rz_content := appendStreamDelta (rz_content reasoning) chunk\<rparr>),
          msg_isReasoningStreaming := Some True, msg_status := Some StatusStreaming\<rparr>
      else let contentMessage = processStreamingContent (clock 0) message chunk in
        (if msg_isReasoningStreaming contentMessage = Some True then contentMessage
         else completeReasoningTiming (clock 1) contentMessage)\<lparr>msg_status := Some StatusStreaming\<rparr>)"

text \<open>\<open>a || b || ...\<close> on texts.\<close>

definition text_or_else :: "jsstr \<Rightarrow> jsstr \<Rightarrow> jsstr" where
  "text_or_else a b = (if a \<noteq> [] then a else b)"

definition reasoning_text :: "Message \<Rightarrow> jsstr" where
  "reasoning_text message = (case msg_reasoning message of Some r \<Rightarrow> rz_content r | None \<Rightarrow> [])"

definition finalizeMessage :: "(nat \<Rightarrow> number) \<Rightarrow> Message \<Rightarrow> jsstr \<Rightarrow> Message" where
  "finalizeMessage clock message apiReasoningContent =
     (let content = mv_content (getCurrentVersion message);
          parsed = (if has_think content then Some (parseThinkTags content) else None);
          visible = (case parsed of Some p \<Rightarrow> visibleContent p | None \<Rightarrow> content);
          finalReasoning = text_or_else apiReasoningContent (text_or_else (reasoning_text message)
            (case parsed of Some p \<Rightarrow> tag_reasoning p | None \<Rightarrow> []))
      in completeReasoningTiming (clock 1) ((updateCurrentVersionContent message visible)\<lparr>
           msg_reasoning := (if finalReasoning \<noteq> [] then Some ((startReasoningTiming (clock 0) message)\<lparr>rz_content := finalReasoning\<rparr>) else None),
           msg_isReasoningStreaming := Some False\<rparr>))"

definition completeAssistantMessage :: "(nat \<Rightarrow> number) \<Rightarrow> Message \<Rightarrow> Message" where
  "completeAssistantMessage clock message =
     completeAssistantTiming (clock 2) ((finalizeMessage clock message [])\<lparr>msg_status := Some StatusComplete\<rparr>)"

definition isAssistantMessageFinal :: "Message \<Rightarrow> bool" where
  "isAssistantMessageFinal message \<longleftrightarrow> msg_status message = Some StatusComplete \<or> msg_status message = Some StatusError"

definition isAssistantMessagePending :: "Message \<Rightarrow> bool" where
  "isAssistantMessagePending message \<longleftrightarrow> msg_status message = Some StatusLoading \<or> msg_status message = Some StatusStreaming"

definition isPendingAssistantMessage :: "Message \<Rightarrow> bool" where
  "isPendingAssistantMessage message \<longleftrightarrow> msg_from message = RoleAssistant \<and> isAssistantMessagePending message"

text \<open>A choice of a response: content and reasoning, missing ones empty.\<close>

record ChatCompletionChoice =
  ch_content :: jsstr
  ch_reasoning_content :: jsstr

definition hasChatCompletionChoice :: "ChatCompletionChoice list \<Rightarrow> bool" where
  "hasChatCompletionChoice choices \<longleftrightarrow> choices \<noteq> []"

definition applyChatCompletionChoice :: "(nat \<Rightarrow> number) \<Rightarrow> Message \<Rightarrow> ChatCompletionChoice \<Rightarrow> Message" where
  "applyChatCompletionChoice clock message choice =
     completeAssistantTiming (clock 2) ((finalizeMessage clock (updateCurrentVersionContent message (ch_content choice))
       (ch_reasoning_content choice))\<lparr>msg_status := Some StatusComplete\<rparr>)"

definition applyChatCompletionResponse :: "(nat \<Rightarrow> number) \<Rightarrow> Message \<Rightarrow> ChatCompletionChoice list \<Rightarrow> Message option" where
  "applyChatCompletionResponse clock message choices = (case choices of [] \<Rightarrow> None | c # _ \<Rightarrow> Some (applyChatCompletionChoice clock message c))"

text \<open>The position of the last pending assistant message.\<close>

definition last_pending :: "Message list \<Rightarrow> nat option" where
  "last_pending messages = find (\<lambda>i. isPendingAssistantMessage (messages ! i)) (rev [0..<length messages])"

text \<open>The translation \<open>t\<close> is a parameter.\<close>

definition sanitizeMessagesOnLoad :: "(jsstr \<Rightarrow> jsstr) \<Rightarrow> (nat \<Rightarrow> number) \<Rightarrow> Message list \<Rightarrow> Message list" where
  "sanitizeMessagesOnLoad t clock messages = (case last_pending messages of
       None \<Rightarrow> messages
     | Some i \<Rightarrow>
         let finalized = finalizeMessage clock (messages ! i) [];
             sanitized = (if hasMessageContent finalized \<or> js_trim (reasoning_text finalized) \<noteq> []
               then completeAssistantTiming (clock 2) (finalized\<lparr>msg_status := Some StatusComplete, msg_isReasoningStreaming := Some False\<rparr>)
               else completeAssistantTiming (clock 2) ((updateCurrentVersionContent finalized (t API_REQUEST_ERROR @ js '': '' @ t INTERRUPTED))\<lparr>
                 msg_status := Some StatusError, msg_isReasoningStreaming := Some False\<rparr>))
         in messages[i := sanitized])"

section \<open>Updating a conversation\<close>

definition updateLastAssistantMessage :: "Message list \<Rightarrow> (Message \<Rightarrow> Message) \<Rightarrow> Message list" where
  "updateLastAssistantMessage messages updater =
     (if messages = [] then messages
      else if msg_from (last messages) \<noteq> RoleAssistant then messages
      else butlast messages @ [updater (last messages)])"

definition updateAssistantMessageWithError :: "number \<Rightarrow> Message list \<Rightarrow> jsstr \<Rightarrow> jsstr option \<Rightarrow> jsstr \<Rightarrow> Message list" where
  "updateAssistantMessageWithError now messages errorMessage errorCode title =
     updateLastAssistantMessage messages (\<lambda>message.
       completeAssistantTiming now ((updateCurrentVersionContent message (title @ js '': '' @ errorMessage))\<lparr>
         msg_status := Some StatusError, msg_isReasoningStreaming := Some False,
         msg_errorCode := Some (case errorCode of Some c \<Rightarrow> if c = [] then None else Some c | None \<Rightarrow> None)\<rparr>))"

definition appendUserMessagePair :: "jsstr \<times> jsstr \<Rightarrow> jsstr \<times> jsstr \<Rightarrow> number \<Rightarrow> Message list \<Rightarrow> jsstr \<Rightarrow> Message list" where
  "appendUserMessagePair ids ids' submittedAt messages content =
     messages @ [createUserMessage ids content submittedAt, createLoadingAssistantMessage ids' submittedAt]"

definition find_key :: "jsstr \<Rightarrow> Message list \<Rightarrow> nat option" where
  "find_key key messages = find (\<lambda>i. msg_key (messages ! i) = key) [0..<length messages]"

definition createRegeneratedMessages :: "jsstr \<times> jsstr \<Rightarrow> number \<Rightarrow> Message list \<Rightarrow> jsstr \<Rightarrow> Message list option" where
  "createRegeneratedMessages ids now messages messageKey = (case find_key messageKey messages of
       None \<Rightarrow> None
     | Some i \<Rightarrow> if msg_from (messages ! i) = RoleUser
         then Some (take (i + 1) messages @ [createLoadingAssistantMessage ids now])
         else Some (take i messages @ [createLoadingAssistantMessage ids now]))"

definition removeMessageByKey :: "Message list \<Rightarrow> jsstr \<Rightarrow> Message list" where
  "removeMessageByKey messages messageKey = filter (\<lambda>m. msg_key m \<noteq> messageKey) messages"

text \<open>A position behind the end of the list reads a member of \<open>undefined\<close>, which throws.\<close>

datatype playground_error = TypeError

definition getPreviousUserMessage :: "Message list \<Rightarrow> nat \<Rightarrow> (playground_error, Message option) result" where
  "getPreviousUserMessage messages beforeIndex =
     (if length messages < beforeIndex then Inl TypeError
      else Inr (map_option (\<lambda>i. messages ! i) (find (\<lambda>i. msg_from (messages ! i) = RoleUser) (rev [0..<beforeIndex]))))"

definition applyMessageEdit ::
  "jsstr \<times> jsstr \<Rightarrow> number \<Rightarrow> Message list \<Rightarrow> jsstr \<Rightarrow> jsstr \<Rightarrow> bool \<Rightarrow> (Message list \<times> bool) option" where
  "applyMessageEdit ids submittedAt messages messageKey content shouldSubmit = (case find_key messageKey messages of
       None \<Rightarrow> None
     | Some i \<Rightarrow>
         let updatedMessages = map (\<lambda>m. if msg_key m = messageKey
               then (updateCurrentVersionContent m content)\<lparr>msg_createdAt := (if shouldSubmit then Some submittedAt else msg_createdAt m)\<rparr>
               else m) messages
         in if \<not> shouldSubmit \<or> msg_from (updatedMessages ! i) \<noteq> RoleUser then Some (updatedMessages, False)
            else Some (take (i + 1) updatedMessages @ [createLoadingAssistantMessage ids submittedAt], True))"

definition getEditingMessageContent :: "Message list \<Rightarrow> jsstr option \<Rightarrow> jsstr" where
  "getEditingMessageContent messages editingKey = (case editingKey of
       None \<Rightarrow> []
     | Some k \<Rightarrow> if k = [] then [] else (case find (\<lambda>m. msg_key m = k) messages of Some m \<Rightarrow> getMessageContent m | None \<Rightarrow> []))"

definition getChatMessageRenderState :: "Message list \<Rightarrow> Message \<Rightarrow> nat \<Rightarrow> jsstr option \<Rightarrow> bool \<times> jsstr \<times> bool" where
  "getChatMessageRenderState messages message messageIndex editingKey =
     (Suc messageIndex = length messages \<and> msg_from message = RoleAssistant, getMessageContent message, editingKey = Some (msg_key message))"

end
