(* ===== verification/PlaygroundStream.thy ===== *)
theory PlaygroundStream
  imports PlaygroundMessages JsJsonParse
begin

text \<open>
  The streaming client of the playground: lib/streaming/stream-utils.ts and \<open>createStreamRequestController\<close> of
  hooks/use-stream-request.ts.  The controller is a machine whose events are its three methods, the outcome of the
  header request of a send, and the events of the event sources, in any order and also from sources that were
  replaced long ago.  A send is named by its generation, a source by the order of creation.  \<open>sc_log\<close> records the
  callbacks that were called, with the generation of their send.  The callbacks return normally and do not call the
  controller; events that closing a source fires meet a listener that is completed or not current, and change nothing.
\<close>

section \<open>Reading stream data\<close>

definition STREAM_DONE_MESSAGE :: jsstr where "STREAM_DONE_MESSAGE = js ''[DONE]''"
definition STREAM_CLOSED_READY_STATE :: nat where "STREAM_CLOSED_READY_STATE = 2"

definition truthy_text :: "json option \<Rightarrow> jsstr option" where
  "truthy_text v = (if json_truthy v then map_option json_toString v else None)"

text \<open>
  An error code and a message.  Both are declared as strings; another truthy value is represented by its text.
\<close>

definition parseStreamErrorDetails :: "jsstr option \<Rightarrow> jsstr option \<times> jsstr" where
  "parseStreamErrorDetails data =
     (let fallbackMessage = (case data of Some d \<Rightarrow> if d = [] then API_REQUEST_ERROR else d | None \<Rightarrow> API_REQUEST_ERROR) in
      case data of
        None \<Rightarrow> (None, fallbackMessage)
      | Some d \<Rightarrow> if d = [] then (None, fallbackMessage) else
          (case JSON_parse d of
             None \<Rightarrow> (None, fallbackMessage)
           | Some parsed \<Rightarrow>
               let err = json_get parsed (js ''error'') in
               if \<not> json_truthy err then (None, fallbackMessage)
               else (truthy_text (json_opt_get err (js ''code'')),
                     case truthy_text (json_opt_get err (js ''message'')) of Some m \<Rightarrow> m | None \<Rightarrow> fallbackMessage)))"

text \<open>\<open>v?.[0]\<close>\<close>

definition json_first :: "json option \<Rightarrow> json option" where
  "json_first v = (case v of
       Some (JArr (x # _)) \<Rightarrow> Some x
     | Some (JObj m) \<Rightarrow> map_of m (js ''0'')
     | Some (JStr (c # _)) \<Rightarrow> Some (JStr [c])
     | _ \<Rightarrow> None)"

text \<open>The updates of a chunk; None when reading it throws.\<close>

definition parseStreamMessageUpdates :: "jsstr \<Rightarrow> (StreamChunkType \<times> jsstr) list option" where
  "parseStreamMessageUpdates data = (case JSON_parse data of
       None \<Rightarrow> None
     | Some JNull \<Rightarrow> None
     | Some chunk \<Rightarrow>
         let delta = json_opt_get (json_first (json_get chunk (js ''choices''))) (js ''delta'') in
         if \<not> json_truthy delta then Some []
         else Some ((case truthy_text (json_opt_get delta (js ''reasoning_content'')) of Some s \<Rightarrow> [(ReasoningChunk, s)] | None \<Rightarrow> [])
                  @ (case truthy_text (json_opt_get delta (js ''content'')) of Some s \<Rightarrow> [(ContentChunk, s)] | None \<Rightarrow> [])))"

definition isStreamDoneMessage :: "jsstr \<Rightarrow> bool" where
  "isStreamDoneMessage data \<longleftrightarrow> data = STREAM_DONE_MESSAGE"

definition isStreamClosedReadyState :: "nat option \<Rightarrow> bool" where
  "isStreamClosedReadyState readyState \<longleftrightarrow> readyState = Some STREAM_CLOSED_READY_STATE"

definition getStreamReadyStateError :: "nat option \<Rightarrow> nat option \<Rightarrow> jsstr option" where
  "getStreamReadyStateError eventReadyState status =
     (if \<not> isStreamClosedReadyState eventReadyState then None
      else case status of
        Some n \<Rightarrow> if n \<noteq> 200 then Some (js ''HTTP '' @ nat_text n @ js '': '' @ CONNECTION_CLOSED) else Some CONNECTION_CLOSED
      | None \<Rightarrow> Some CONNECTION_CLOSED)"

section \<open>The controller\<close>

datatype stream_callback = OnUpdate StreamChunkType jsstr | OnComplete | OnError jsstr "jsstr option"

text \<open>What the listeners of a source close over: the generation of the send and \<open>completed\<close>.\<close>

record listener =
  li_generation :: nat
  li_completed :: bool

record stream_controller =
  sc_source :: "nat option"
  sc_generation :: nat
  sc_waiting :: "nat list"
  sc_listeners :: "listener list"
  sc_closed :: "nat set"
  sc_streaming :: bool
  sc_log :: "(nat \<times> stream_callback) list"

definition createStreamRequestController :: stream_controller where
  "createStreamRequestController = \<lparr>sc_source = None, sc_generation = 0, sc_waiting = [], sc_listeners = [], sc_closed = {},
     sc_streaming = False, sc_log = []\<rparr>"

text \<open>\<open>source?.close()\<close> with \<open>source = null\<close>.\<close>

definition drop_source :: "stream_controller \<Rightarrow> stream_controller" where
  "drop_source st = st\<lparr>sc_source := None, sc_closed := sc_closed st \<union> set_option (sc_source st)\<rparr>"

definition closeActiveSource :: "nat \<Rightarrow> stream_controller \<Rightarrow> stream_controller" where
  "closeActiveSource target st =
     (let st1 = st\<lparr>sc_closed := insert target (sc_closed st)\<rparr> in
      if sc_source st = Some target then st1\<lparr>sc_source := None, sc_streaming := False\<rparr> else st1)"

definition call_back :: "nat \<Rightarrow> stream_callback \<Rightarrow> stream_controller \<Rightarrow> stream_controller" where
  "call_back g c st = st\<lparr>sc_log := sc_log st @ [(g, c)]\<rparr>"

definition isCurrent :: "nat \<Rightarrow> stream_controller \<Rightarrow> bool" where
  "isCurrent i st \<longleftrightarrow> i < length (sc_listeners st) \<and> sc_generation st = li_generation (sc_listeners st ! i) \<and> sc_source st = Some i"

text \<open>A listener acts while its source is current and not completed.\<close>

definition listens :: "nat \<Rightarrow> stream_controller \<Rightarrow> bool" where
  "listens i st \<longleftrightarrow> isCurrent i st \<and> \<not> li_completed (sc_listeners st ! i)"

definition set_completed :: "nat \<Rightarrow> stream_controller \<Rightarrow> stream_controller" where
  "set_completed i st = st\<lparr>sc_listeners := (sc_listeners st)[i := (sc_listeners st ! i)\<lparr>li_completed := True\<rparr>]\<rparr>"

definition handleError :: "nat \<Rightarrow> jsstr \<Rightarrow> jsstr option \<Rightarrow> stream_controller \<Rightarrow> stream_controller" where
  "handleError i errorMessage errorCode st =
     (if \<not> listens i st then st
      else closeActiveSource i (call_back (li_generation (sc_listeners st ! i)) (OnError errorMessage errorCode) (set_completed i st)))"

definition send :: "stream_controller \<Rightarrow> stream_controller" where
  "send st = (drop_source st)\<lparr>sc_generation := sc_generation st + 1, sc_streaming := False,
     sc_waiting := (sc_generation st + 1) # sc_waiting st\<rparr>"

text \<open>The rest of \<open>send\<close> when the headers are there; \<open>throws\<close> tells whether \<open>stream()\<close> throws.\<close>

definition headers_ready :: "nat \<Rightarrow> bool \<Rightarrow> stream_controller \<Rightarrow> stream_controller" where
  "headers_ready g throws st =
     (if g \<notin> set (sc_waiting st) then st
      else let st1 = st\<lparr>sc_waiting := remove1 g (sc_waiting st)\<rparr> in
        if sc_generation st \<noteq> g then st1
        else let i = length (sc_listeners st);
                 st2 = st1\<lparr>sc_listeners := sc_listeners st @ [\<lparr>li_generation = g, li_completed = False\<rparr>], sc_source := Some i, sc_streaming := True\<rparr>
             in if throws then handleError i STREAM_START_ERROR None st2 else st2)"

definition headers_failed :: "nat \<Rightarrow> jsstr option \<Rightarrow> stream_controller \<Rightarrow> stream_controller" where
  "headers_failed g err st =
     (if g \<notin> set (sc_waiting st) then st
      else let st1 = st\<lparr>sc_waiting := remove1 g (sc_waiting st)\<rparr> in
        if sc_generation st \<noteq> g then st1
        else call_back g (OnError (case err of Some m \<Rightarrow> m | None \<Rightarrow> STREAM_START_ERROR) None) st1)"

definition on_message :: "nat \<Rightarrow> jsstr option \<Rightarrow> stream_controller \<Rightarrow> stream_controller" where
  "on_message i event_data st =
     (if \<not> listens i st then st
      else let data = (case event_data of Some d \<Rightarrow> d | None \<Rightarrow> []); g = li_generation (sc_listeners st ! i) in
        if isStreamDoneMessage data then call_back g OnComplete (closeActiveSource i (set_completed i st))
        else case parseStreamMessageUpdates data of
          None \<Rightarrow> handleError i PARSE_ERROR None st
        | Some updates \<Rightarrow> fold (\<lambda>(type, chunk). call_back g (OnUpdate type chunk)) updates st)"

definition on_source_error :: "nat \<Rightarrow> nat option \<Rightarrow> nat option \<Rightarrow> jsstr option \<Rightarrow> stream_controller \<Rightarrow> stream_controller" where
  "on_source_error i readyState status event_data st =
     (if \<not> listens i st then st
      else case getStreamReadyStateError readyState status of
        Some closedError \<Rightarrow> handleError i closedError None st
      | None \<Rightarrow> (case parseStreamErrorDetails event_data of (errorCode, errorMessage) \<Rightarrow> handleError i errorMessage errorCode st))"

definition on_readystatechange :: "nat \<Rightarrow> nat option \<Rightarrow> nat option \<Rightarrow> nat option \<Rightarrow> stream_controller \<Rightarrow> stream_controller" where
  "on_readystatechange i eventReadyState readyState status st =
     (if \<not> listens i st then st
      else case getStreamReadyStateError (js_or eventReadyState readyState) status of
        Some errorMessage \<Rightarrow> handleError i errorMessage None st
      | None \<Rightarrow> st)"

definition cancel :: "bool \<Rightarrow> stream_controller \<Rightarrow> stream_controller" where
  "cancel notify st = (let st1 = (drop_source st)\<lparr>sc_generation := sc_generation st + 1\<rparr> in
     if notify then st1\<lparr>sc_streaming := False\<rparr> else st1)"

section \<open>Runs of the controller\<close>

datatype stream_event =
    Send
  | HeadersReady nat bool
  | HeadersFailed nat "jsstr option"
  | SourceMessage nat "jsstr option"
  | SourceError nat "nat option" "nat option" "jsstr option"
  | SourceReadyState nat "nat option" "nat option" "nat option"
  | Stop
  | Dispose

fun stream_step :: "stream_controller \<Rightarrow> stream_event \<Rightarrow> stream_controller" where
  "stream_step st Send = send st"
| "stream_step st (HeadersReady g throws) = headers_ready g throws st"
| "stream_step st (HeadersFailed g err) = headers_failed g err st"
| "stream_step st (SourceMessage i data) = on_message i data st"
| "stream_step st (SourceError i readyState status data) = on_source_error i readyState status data st"
| "stream_step st (SourceReadyState i eventReadyState readyState status) = on_readystatechange i eventReadyState readyState status st"
| "stream_step st Stop = cancel True st"
| "stream_step st Dispose = cancel False st"

section \<open>What every run keeps\<close>

fun terminal :: "stream_callback \<Rightarrow> bool" where
  "terminal (OnUpdate t c) = False"
| "terminal _ = True"

text \<open>The send \<open>g\<close> has had its last callback; no send is called back after that.\<close>

definition ended :: "nat \<Rightarrow> (nat \<times> stream_callback) list \<Rightarrow> bool" where
  "ended g lg = list_ex (\<lambda>(h, c). h = g \<and> terminal c) lg"

fun well_ended :: "(nat \<times> stream_callback) list \<Rightarrow> bool" where
  "well_ended [] = True"
| "well_ended ((g, c) # lg) = ((\<not> terminal c \<or> list_all (\<lambda>(h, _). h \<noteq> g) lg) \<and> well_ended lg)"

definition orderly :: "nat \<Rightarrow> (nat \<times> stream_callback) list \<Rightarrow> bool" where
  "orderly n lg \<longleftrightarrow> well_ended lg \<and> sorted (map fst lg) \<and> list_all (\<lambda>(h, _). h \<le> n) lg"

definition stream_inv :: "stream_controller \<Rightarrow> bool" where
  "stream_inv st \<longleftrightarrow> orderly (sc_generation st) (sc_log st)
     \<and> distinct (sc_waiting st) \<and> (\<forall>g \<in> li_generation ` set (sc_listeners st). g \<le> sc_generation st)
     \<and> (\<forall>g \<in> set (sc_waiting st). g \<le> sc_generation st \<and> g \<notin> fst ` set (sc_log st) \<and> g \<notin> li_generation ` set (sc_listeners st))
     \<and> (\<forall>i < length (sc_listeners st). i \<in> sc_closed st \<or> sc_source st = Some i)
     \<and> (case sc_source st of None \<Rightarrow> True
        | Some i \<Rightarrow> i < length (sc_listeners st) \<and> sc_listeners st ! i = \<lparr>li_generation = sc_generation st, li_completed = False\<rparr>
            \<and> sc_streaming st \<and> \<not> ended (sc_generation st) (sc_log st))"

lemma well_ended_snoc: "well_ended (lg @ [(g, c)]) \<longleftrightarrow> well_ended lg \<and> \<not> ended g lg"
  by (induction lg rule: well_ended.induct) (auto simp: ended_def)

lemma orderly_snoc: "orderly n lg \<Longrightarrow> \<not> ended n lg \<Longrightarrow> orderly n (lg @ [(n, c)])"
  by (auto simp: orderly_def well_ended_snoc sorted_append list_all_iff)

lemma orderly_mono: "orderly n lg \<Longrightarrow> n \<le> m \<Longrightarrow> orderly m lg"
  by (auto simp: orderly_def list_all_iff)

lemma ended_snoc [simp]: "ended g (lg @ [(h, c)]) \<longleftrightarrow> ended g lg \<or> (h = g \<and> terminal c)"
  by (auto simp: ended_def)

lemma listens_source:
  assumes "stream_inv st"
  shows "listens i st \<longleftrightarrow> sc_source st = Some i"
  using assms by (auto simp: stream_inv_def listens_def isCurrent_def)

lemma generations_kept:
  assumes "i < length ls"
  shows "li_generation ` set (ls[i := (ls ! i)\<lparr>li_completed := b\<rparr>]) = li_generation ` set ls"
proof -
  have "map li_generation (ls[i := (ls ! i)\<lparr>li_completed := b\<rparr>]) = map li_generation ls"
    using assms by (simp add: map_update) (metis list_update_id nth_map)
  then show ?thesis by (metis set_map)
qed

text \<open>The last callback of the current source, with the source closed.\<close>

lemma finish_inv:
  assumes inv: "stream_inv st" and i: "sc_source st = Some i" and c: "terminal c"
  shows "stream_inv (closeActiveSource i (call_back (li_generation (sc_listeners st ! i)) c (set_completed i st)))"
    and "call_back (li_generation (sc_listeners st ! i)) c (closeActiveSource i (set_completed i st))
      = closeActiveSource i (call_back (li_generation (sc_listeners st ! i)) c (set_completed i st))"
proof -
  have cur: "i < length (sc_listeners st)" "li_generation (sc_listeners st ! i) = sc_generation st" "\<not> ended (sc_generation st) (sc_log st)"
    and lg: "orderly (sc_generation st) (sc_log st)"
    using inv i by (auto simp: stream_inv_def)
  have "g \<noteq> sc_generation st" if "g \<notin> li_generation ` set (sc_listeners st)" for g using that cur(1,2) by (metis image_eqI nth_mem)
  with inv i cur generations_kept[OF cur(1)] orderly_snoc[OF lg cur(3)]
  show "stream_inv (closeActiveSource i (call_back (li_generation (sc_listeners st ! i)) c (set_completed i st)))"
    by (auto simp: stream_inv_def closeActiveSource_def call_back_def set_completed_def Let_def)
  show "call_back (li_generation (sc_listeners st ! i)) c (closeActiveSource i (set_completed i st))
      = closeActiveSource i (call_back (li_generation (sc_listeners st ! i)) c (set_completed i st))"
    using i by (simp add: closeActiveSource_def call_back_def set_completed_def Let_def)
qed

lemma handleError_inv: "stream_inv st \<Longrightarrow> stream_inv (handleError i m c st)"
  by (simp add: handleError_def listens_source finish_inv(1))

lemma drop_source_inv:
  assumes "stream_inv st"
  shows "stream_inv ((drop_source st)\<lparr>sc_generation := sc_generation st + 1, sc_streaming := b\<rparr>)"
  using assms orderly_mono[of "sc_generation st" "sc_log st" "sc_generation st + 1"]
  by (fastforce simp: stream_inv_def drop_source_def)

lemma update_inv:
  assumes "stream_inv st" "sc_source st = Some i"
  shows "stream_inv (call_back (sc_generation st) (OnUpdate t c) st)"
proof -
  have "\<not> ended (sc_generation st) (sc_log st)" "orderly (sc_generation st) (sc_log st)"
    "sc_generation st \<in> li_generation ` set (sc_listeners st)"
    using assms by (auto simp: stream_inv_def image_iff) (metis listener.select_convs(1) nth_mem)
  with assms orderly_snoc show ?thesis by (auto simp: stream_inv_def call_back_def)
qed

lemma updates_inv:
  "stream_inv st \<Longrightarrow> sc_source st = Some i \<Longrightarrow> sc_generation st = g \<Longrightarrow>
    stream_inv (fold (\<lambda>(t, c). call_back g (OnUpdate t c)) us st)"
proof (induction us arbitrary: st)
  case (Cons u us)
  then show ?case using update_inv[of st i "fst u" "snd u"] by (simp add: split_beta call_back_def)
qed simp

lemma send_inv:
  assumes "stream_inv st"
  shows "stream_inv (send st)"
proof -
  let ?n = "sc_generation st + 1"
  have base: "stream_inv ((drop_source st)\<lparr>sc_generation := ?n, sc_streaming := False\<rparr>)" by (rule drop_source_inv[OF assms])
  have "?n \<notin> fst ` set (sc_log st)" using assms by (fastforce simp: stream_inv_def orderly_def list_all_iff)
  moreover have "?n \<notin> li_generation ` set (sc_listeners st)" "?n \<notin> set (sc_waiting st)" using assms by (force simp: stream_inv_def)+
  ultimately show ?thesis using base by (auto simp: stream_inv_def send_def drop_source_def)
qed

lemma waiting_removed: "stream_inv st \<Longrightarrow> stream_inv (st\<lparr>sc_waiting := remove1 g (sc_waiting st)\<rparr>)"
  by (auto simp: stream_inv_def split: option.splits)

lemma waiting_no_source:
  assumes "stream_inv st" "sc_generation st \<in> set (sc_waiting st)"
  shows "sc_source st = None" "\<not> ended (sc_generation st) (sc_log st)"
proof -
  have "sc_generation st \<notin> li_generation ` set (sc_listeners st)" "sc_generation st \<notin> fst ` set (sc_log st)"
    using assms by (auto simp: stream_inv_def)
  with assms(1) show "sc_source st = None" "\<not> ended (sc_generation st) (sc_log st)"
    by (auto simp: stream_inv_def ended_def list_ex_iff image_iff split: option.splits) (metis listener.select_convs(1) nth_mem)+
qed

lemma headers_ready_inv:
  assumes "stream_inv st"
  shows "stream_inv (headers_ready g throws st)"
proof (cases "g \<in> set (sc_waiting st) \<and> sc_generation st = g")
  case True
  let ?st = "st\<lparr>sc_waiting := remove1 g (sc_waiting st), sc_listeners := sc_listeners st @ [\<lparr>li_generation = g, li_completed = False\<rparr>],
    sc_source := Some (length (sc_listeners st)), sc_streaming := True\<rparr>"
  have "stream_inv ?st"
    using assms True waiting_no_source[OF assms] by (auto simp: stream_inv_def nth_append less_Suc_eq)
  with True handleError_inv[of ?st] show ?thesis by (simp add: headers_ready_def Let_def)
next
  case False
  with assms waiting_removed[of st g] show ?thesis by (auto simp: headers_ready_def Let_def)
qed

lemma headers_failed_inv:
  assumes "stream_inv st"
  shows "stream_inv (headers_failed g err st)"
proof (cases "g \<in> set (sc_waiting st) \<and> sc_generation st = g")
  case True
  note none = waiting_no_source[OF assms]
  have "orderly (sc_generation st) (sc_log st)" using assms by (simp add: stream_inv_def)
  from orderly_snoc[OF this] True none assms show ?thesis
    by (auto simp: headers_failed_def Let_def stream_inv_def call_back_def)
next
  case False
  with assms waiting_removed[of st g] show ?thesis by (auto simp: headers_failed_def Let_def)
qed

lemma on_message_inv:
  assumes "stream_inv st"
  shows "stream_inv (on_message i data st)"
proof (cases "sc_source st = Some i")
  case True
  then have "li_generation (sc_listeners st ! i) = sc_generation st" using assms by (simp add: stream_inv_def)
  with True assms handleError_inv[OF assms] finish_inv[OF assms True, of OnComplete] updates_inv[OF assms True refl] show ?thesis
    by (simp add: on_message_def listens_source Let_def split: option.splits)
qed (simp add: assms on_message_def listens_source)

lemma stream_step_inv: "stream_inv st \<Longrightarrow> stream_inv (stream_step st e)"
proof (cases e)
  case Stop
  assume "stream_inv st"
  from drop_source_inv[OF this, of False] Stop show ?thesis by (simp add: cancel_def Let_def)
next
  case Dispose
  assume "stream_inv st"
  from drop_source_inv[OF this, of "sc_streaming st"] Dispose show ?thesis by (simp add: cancel_def drop_source_def Let_def)
qed (auto simp: send_inv headers_ready_inv headers_failed_inv on_message_inv on_source_error_def on_readystatechange_def handleError_inv
    split: option.splits prod.splits)

interpretation stream: guarded_machine stream_step createStreamRequestController stream_inv
proof
  show "stream_inv createStreamRequestController"
    by (simp add: stream_inv_def createStreamRequestController_def orderly_def)
qed (rule stream_step_inv)

section \<open>What a run guarantees\<close>

text \<open>
  C12.  After any sequence of events no send is called back again once it was told of its completion or of an error, the
  callbacks of an older send never follow those of a newer one, every event source that is not the current one is
  closed, and while there is a current source the controller says it is streaming and its send is not yet ended.
\<close>

theorem stream_callbacks_orderly:
  "let st = run_machine stream_step createStreamRequestController es in
     well_ended (sc_log st) \<and> sorted (map fst (sc_log st))
     \<and> (\<forall>i. i < length (sc_listeners st) \<and> sc_source st \<noteq> Some i \<longrightarrow> i \<in> sc_closed st)
     \<and> (\<forall>i. sc_source st = Some i \<longrightarrow> sc_streaming st \<and> \<not> ended (sc_generation st) (sc_log st))"
  using stream.inv_run[of es] by (auto simp: Let_def stream_inv_def orderly_def)

text \<open>A run: two sends, of which the first is superseded while it waits, and a stream that completes.\<close>

theorem stream_callbacks_orderly_witness:
  "let st = run_machine stream_step createStreamRequestController
      [Send, Send, HeadersReady 2 False, HeadersReady 1 False, SourceMessage 0 (Some STREAM_DONE_MESSAGE)] in
   sc_log st = [(2, OnComplete)] \<and> sc_source st = None \<and> sc_closed st = {0} \<and> well_ended (sc_log st)"
  using stream_callbacks_orderly[of "[Send, Send, HeadersReady 2 False, HeadersReady 1 False, SourceMessage 0 (Some STREAM_DONE_MESSAGE)]"]
  by (simp add: Let_def createStreamRequestController_def send_def drop_source_def headers_ready_def on_message_def listens_def isCurrent_def
      isStreamDoneMessage_def closeActiveSource_def call_back_def set_completed_def)

text \<open>A step calls back the current send only.\<close>

definition grows :: "stream_controller \<Rightarrow> stream_controller \<Rightarrow> bool" where
  "grows st st' \<longleftrightarrow> sc_generation st \<le> sc_generation st' \<and>
     (\<exists>new. sc_log st' = sc_log st @ new \<and> list_all (\<lambda>(g, _). sc_generation st \<le> g) new)"

lemma grows_refl [simp]: "grows st st"
  by (simp add: grows_def)

lemma grows_trans: "grows st st' \<Longrightarrow> grows st' st'' \<Longrightarrow> grows st st''"
  by (fastforce simp: grows_def list_all_iff)

lemma grows_call_back: "sc_generation st \<le> g \<Longrightarrow> grows st (call_back g c st)"
  by (simp add: grows_def call_back_def)

lemma grows_same: "sc_log st' = sc_log st \<Longrightarrow> sc_generation st \<le> sc_generation st' \<Longrightarrow> grows st st'"
  by (simp add: grows_def)

lemma grows_updates: "sc_generation st \<le> g \<Longrightarrow> grows st (fold (\<lambda>(t, c). call_back g (OnUpdate t c)) us st)"
proof (induction us arbitrary: st)
  case (Cons u us)
  then have "grows st (call_back g (OnUpdate (fst u) (snd u)) st)" by (intro grows_call_back)
  moreover have "grows (call_back g (OnUpdate (fst u) (snd u)) st)
      (fold (\<lambda>(t, c). call_back g (OnUpdate t c)) us (call_back g (OnUpdate (fst u) (snd u)) st))"
    by (rule Cons.IH) (use Cons.prems in \<open>simp add: call_back_def\<close>)
  ultimately show ?case by (cases u) (auto intro: grows_trans)
qed simp

lemma listens_generation: "listens i st \<Longrightarrow> li_generation (sc_listeners st ! i) = sc_generation st"
  by (simp add: listens_def isCurrent_def)

lemma grows_handleError: "grows st (handleError i m c st)"
  by (auto simp: handleError_def listens_generation grows_def closeActiveSource_def call_back_def set_completed_def Let_def)

lemma grows_complete: "sc_generation st \<le> g \<Longrightarrow> grows st (call_back g c (closeActiveSource i (set_completed i st)))"
  by (auto simp: grows_def closeActiveSource_def call_back_def set_completed_def Let_def)

lemma grows_failed: "grows st (call_back (sc_generation st) c (st\<lparr>sc_waiting := w\<rparr>))"
  by (simp add: grows_def call_back_def)

lemma stream_step_grows: "grows st (stream_step st e)"
proof (cases e)
  case (HeadersReady g throws)
  let ?st = "st\<lparr>sc_waiting := remove1 g (sc_waiting st), sc_listeners := sc_listeners st @ [\<lparr>li_generation = g, li_completed = False\<rparr>],
    sc_source := Some (length (sc_listeners st)), sc_streaming := True\<rparr>"
  have "grows st ?st" by (simp add: grows_same)
  with grows_trans[OF this grows_handleError] HeadersReady show ?thesis by (simp add: headers_ready_def Let_def grows_same)
next
  case (SourceMessage i data)
  then show ?thesis using grows_updates[of st "sc_generation st"]
    by (auto simp: on_message_def listens_generation Let_def grows_handleError grows_complete split: option.splits)
qed (auto simp: send_def cancel_def drop_source_def headers_failed_def on_source_error_def on_readystatechange_def Let_def grows_handleError
    grows_same grows_failed split: option.splits prod.splits)

lemma stream_run_grows: "grows st (run_machine stream_step st es)"
  by (induction es arbitrary: st) (auto intro: grows_trans stream_step_grows)

text \<open>
  C22.  A new send, a stop and the disposal silence every earlier send: whatever happens afterwards, each later callback
  belongs to a send that was started later.
\<close>

theorem superseded_send_silent:
  assumes "e \<in> {Send, Stop, Dispose}"
  shows "let before = run_machine stream_step createStreamRequestController es;
             after = run_machine stream_step createStreamRequestController (es @ e # es')
    in \<exists>new. sc_log after = sc_log before @ new \<and> list_all (\<lambda>(g, _). sc_generation before < g) new"
proof -
  let ?b = "run_machine stream_step createStreamRequestController es"
  have "sc_log (stream_step ?b e) = sc_log ?b" "sc_generation (stream_step ?b e) = Suc (sc_generation ?b)"
    using assms by (auto simp: send_def cancel_def drop_source_def Let_def)
  with stream_run_grows[of "stream_step ?b e" es'] show ?thesis
    by (auto simp: grows_def Let_def Suc_le_eq run_machine_append)
qed

theorem superseded_send_silent_witness:
  "let before = run_machine stream_step createStreamRequestController [Send, HeadersReady 1 False];
       after = run_machine stream_step createStreamRequestController ([Send, HeadersReady 1 False] @ Stop # [SourceMessage 0 (Some STREAM_DONE_MESSAGE)])
    in \<exists>new. sc_log after = sc_log before @ new \<and> list_all (\<lambda>(g, _). sc_generation before < g) new"
  by (rule superseded_send_silent) simp

end
