(* ===== verification/PlaygroundChat.thy ===== *)
theory PlaygroundChat
  imports PlaygroundStream
begin

text \<open>
  The chat of the playground: hooks/use-chat-handler.ts and hooks/use-playground-conversation.ts with the payload builder
  and the error texts, and the loading and clearing of the messages in hooks/use-playground-state.ts.  The state holds the references of the handler, the evaluated list of messages, the updaters that
  React has queued, and the list of the last render, which the conversation closes over.  React evaluates a queued
  updater at the next render, and may evaluate it at once while its queue is empty; the flag \<open>eager\<close> of an event tells
  whether it does, one flag for each updater that the event can queue.  \<open>clock k\<close> gives the readings of \<open>Date.now\<close> in the \<open>k\<close>-th evaluation.  A request is named by its
  generation.  Toasts are left out.
\<close>

section \<open>Requests and error texts\<close>

record PlaygroundConfig =
  cfg_model :: jsstr
  cfg_group :: jsstr
  cfg_temperature :: number
  cfg_top_p :: number
  cfg_max_tokens :: number
  cfg_frequency_penalty :: number
  cfg_presence_penalty :: number
  cfg_seed :: "number option"
  cfg_stream :: bool

record ParameterEnabled =
  on_temperature :: bool
  on_top_p :: bool
  on_max_tokens :: bool
  on_frequency_penalty :: bool
  on_presence_penalty :: bool
  on_seed :: bool

record ChatCompletionRequest =
  req_model :: jsstr
  req_group :: jsstr
  req_messages :: "(MessageRole \<times> jsstr) list"
  req_stream :: bool
  req_temperature :: "number option"
  req_top_p :: "number option"
  req_max_tokens :: "number option"
  req_frequency_penalty :: "number option"
  req_presence_penalty :: "number option"
  req_seed :: "number option"

definition buildChatCompletionPayload :: "Message list \<Rightarrow> PlaygroundConfig \<Rightarrow> ParameterEnabled \<Rightarrow> ChatCompletionRequest" where
  "buildChatCompletionPayload messages config parameterEnabled =
     \<lparr>req_model = cfg_model config, req_group = cfg_group config,
      req_messages = map formatMessageForAPI (filter isValidMessage messages), req_stream = cfg_stream config,
      req_temperature = (if on_temperature parameterEnabled then Some (cfg_temperature config) else None),
      req_top_p = (if on_top_p parameterEnabled then Some (cfg_top_p config) else None),
      req_max_tokens = (if on_max_tokens parameterEnabled then Some (cfg_max_tokens config) else None),
      req_frequency_penalty = (if on_frequency_penalty parameterEnabled then Some (cfg_frequency_penalty config) else None),
      req_presence_penalty = (if on_presence_penalty parameterEnabled then Some (cfg_presence_penalty config) else None),
      req_seed = (if on_seed parameterEnabled then cfg_seed config else None)\<rparr>"

text \<open>The parts of a failed request: the body of the response and the message of the error.\<close>

definition parseRequestErrorDetails :: "json option \<Rightarrow> jsstr option \<Rightarrow> jsstr option \<times> jsstr" where
  "parseRequestErrorDetails response_data message =
     (truthy_text (json_opt_get (json_opt_get response_data (js ''error'')) (js ''code'')),
      case truthy_text (json_opt_get response_data (js ''message'')) of
        Some m \<Rightarrow> m
      | None \<Rightarrow> (case message of Some m \<Rightarrow> if m = [] then API_REQUEST_ERROR else m | None \<Rightarrow> API_REQUEST_ERROR))"

definition NETWORK_ERROR :: jsstr where "NETWORK_ERROR = js ''Network connection failed or server not responding''"

definition KNOWN_ERROR_MESSAGES :: "jsstr list" where
  "KNOWN_ERROR_MESSAGES = [API_REQUEST_ERROR, NETWORK_ERROR, PARSE_ERROR, STREAM_START_ERROR, CONNECTION_CLOSED, INTERRUPTED]"

definition ends_with :: "jsstr \<Rightarrow> jsstr \<Rightarrow> bool" where
  "ends_with s suffix \<longleftrightarrow> length suffix \<le> length s \<and> drop (length s - length suffix) s = suffix"

definition getDisplayError :: "(jsstr \<Rightarrow> jsstr) \<Rightarrow> jsstr \<Rightarrow> jsstr" where
  "getDisplayError t err =
     (if err \<in> set KNOWN_ERROR_MESSAGES then t err
      else if ends_with err (js '': '' @ CONNECTION_CLOSED) then take (length err - length CONNECTION_CLOSED) err @ t CONNECTION_CLOSED
      else err)"

section \<open>State\<close>

record PendingStreamChunks =
  pc_generation :: nat
  pc_content :: jsstr
  pc_reasoning :: jsstr

text \<open>The updaters handed to \<open>onMessageUpdate\<close> and \<open>updateMessages\<close>, with what they close over.\<close>

datatype message_update =
    FlushUpdate nat jsstr jsstr
  | CompleteUpdate nat
  | ErrorUpdate nat jsstr "jsstr option" jsstr
  | ResponseUpdate nat "ChatCompletionChoice list"
  | StopUpdate nat
  | SetMessages "Message list"
  | RemoveMessage jsstr

record chat =
  ct_generation :: nat
  ct_pending :: PendingStreamChunks
  ct_timer :: "nat option"
  ct_abort :: "nat option"
  ct_aborted :: "nat set"
  ct_inflight :: "nat set"
  ct_requesting :: bool
  ct_editing :: "jsstr option"
  ct_messages :: "Message list"
  ct_queue :: "message_update list"
  ct_evaluated :: nat
  ct_rendered :: "Message list"
  ct_sent :: "(nat \<times> ChatCompletionRequest) list"

text \<open>An updater at work, while \<open>generation\<close> is the value of \<open>requestGenerationRef\<close>.\<close>

fun apply_update :: "(nat \<Rightarrow> number) \<Rightarrow> nat \<Rightarrow> message_update \<Rightarrow> Message list \<Rightarrow> Message list" where
  "apply_update clock current (FlushUpdate generation reasoning content) prev =
     (if generation \<noteq> current then prev
      else updateLastAssistantMessage prev (\<lambda>message.
        let reasoned = (if reasoning \<noteq> [] then applyStreamingChunk clock message ReasoningChunk reasoning else message)
        in if content \<noteq> [] then applyStreamingChunk (\<lambda>i. clock (i + 1)) reasoned ContentChunk content else reasoned))"
| "apply_update clock current (CompleteUpdate generation) prev =
     (if generation \<noteq> current then prev
      else updateLastAssistantMessage prev (\<lambda>message.
        if isAssistantMessageFinal message then message else completeAssistantMessage clock message))"
| "apply_update clock current (ErrorUpdate generation displayError errorCode errorTitle) prev =
     (if generation \<noteq> current then prev else updateAssistantMessageWithError (clock 0) prev displayError errorCode errorTitle)"
| "apply_update clock current (ResponseUpdate generation choices) prev =
     (if generation \<noteq> current then prev
      else updateLastAssistantMessage prev (\<lambda>message.
        case applyChatCompletionResponse clock message choices of Some updated \<Rightarrow> updated | None \<Rightarrow> message))"
| "apply_update clock current (StopUpdate idleGeneration) prev =
     (if idleGeneration \<noteq> current then prev
      else updateLastAssistantMessage prev (\<lambda>message.
        if isAssistantMessagePending message then completeAssistantMessage clock message else message))"
| "apply_update clock current (SetMessages messages) prev = messages"
| "apply_update clock current (RemoveMessage key) prev = removeMessageByKey prev key"

definition run_update :: "(nat \<Rightarrow> nat \<Rightarrow> number) \<Rightarrow> message_update \<Rightarrow> chat \<Rightarrow> chat" where
  "run_update clock u st = st\<lparr>ct_messages := apply_update (clock (ct_evaluated st)) (ct_generation st) u (ct_messages st),
     ct_evaluated := ct_evaluated st + 1\<rparr>"

definition onMessageUpdate :: "(nat \<Rightarrow> nat \<Rightarrow> number) \<Rightarrow> bool \<Rightarrow> message_update \<Rightarrow> chat \<Rightarrow> chat" where
  "onMessageUpdate clock eager u st =
     (if eager \<and> ct_queue st = [] then run_update clock u st else st\<lparr>ct_queue := ct_queue st @ [u]\<rparr>)"

text \<open>The state once the queued updaters are evaluated, and a render.\<close>

definition drained :: "(nat \<Rightarrow> nat \<Rightarrow> number) \<Rightarrow> chat \<Rightarrow> chat" where
  "drained clock st = fold (run_update clock) (ct_queue st) (st\<lparr>ct_queue := []\<rparr>)"

definition render :: "(nat \<Rightarrow> nat \<Rightarrow> number) \<Rightarrow> chat \<Rightarrow> chat" where
  "render clock st = (let st1 = drained clock st in st1\<lparr>ct_rendered := ct_messages st1\<rparr>)"

section \<open>The handler\<close>

definition discardPendingStreamUpdates :: "nat \<Rightarrow> chat \<Rightarrow> chat" where
  "discardPendingStreamUpdates generation st =
     st\<lparr>ct_timer := None, ct_pending := \<lparr>pc_generation = generation, pc_content = [], pc_reasoning = []\<rparr>\<rparr>"

definition flushStreamUpdates :: "(nat \<Rightarrow> nat \<Rightarrow> number) \<Rightarrow> bool \<Rightarrow> nat \<Rightarrow> chat \<Rightarrow> chat" where
  "flushStreamUpdates clock eager generation st =
     (if generation \<noteq> ct_generation st then st
      else let st1 = st\<lparr>ct_timer := None\<rparr>; pendingChunks = ct_pending st in
        if pc_generation pendingChunks \<noteq> generation then st1
        else if pc_reasoning pendingChunks = [] \<and> pc_content pendingChunks = [] then st1
        else onMessageUpdate clock eager (FlushUpdate generation (pc_reasoning pendingChunks) (pc_content pendingChunks))
          (st1\<lparr>ct_pending := \<lparr>pc_generation = generation, pc_content = [], pc_reasoning = []\<rparr>\<rparr>))"

definition scheduleStreamFlush :: "nat \<Rightarrow> chat \<Rightarrow> chat" where
  "scheduleStreamFlush generation st =
     (if generation \<noteq> ct_generation st \<or> ct_timer st \<noteq> None then st else st\<lparr>ct_timer := Some generation\<rparr>)"

definition timer_fires :: "(nat \<Rightarrow> nat \<Rightarrow> number) \<Rightarrow> bool \<Rightarrow> chat \<Rightarrow> chat" where
  "timer_fires clock eager st = (case ct_timer st of None \<Rightarrow> st | Some generation \<Rightarrow> flushStreamUpdates clock eager generation st)"

definition handleStreamUpdate :: "nat \<Rightarrow> StreamChunkType \<Rightarrow> jsstr \<Rightarrow> chat \<Rightarrow> chat" where
  "handleStreamUpdate generation type chunk st =
     (if generation \<noteq> ct_generation st \<or> pc_generation (ct_pending st) \<noteq> generation then st
      else scheduleStreamFlush generation (st\<lparr>ct_pending :=
        (case type of
           ReasoningChunk \<Rightarrow> (ct_pending st)\<lparr>pc_reasoning := appendStreamDelta (pc_reasoning (ct_pending st)) chunk\<rparr>
         | ContentChunk \<Rightarrow> (ct_pending st)\<lparr>pc_content := appendStreamDelta (pc_content (ct_pending st)) chunk\<rparr>)\<rparr>))"

definition handleStreamComplete :: "(nat \<Rightarrow> nat \<Rightarrow> number) \<Rightarrow> bool \<times> bool \<Rightarrow> nat \<Rightarrow> chat \<Rightarrow> chat" where
  "handleStreamComplete clock eager generation st =
     (if generation \<noteq> ct_generation st then st
      else onMessageUpdate clock (snd eager) (CompleteUpdate generation)
        ((flushStreamUpdates clock (fst eager) generation st)\<lparr>ct_requesting := False\<rparr>))"

definition handleStreamError ::
  "(jsstr \<Rightarrow> jsstr) \<Rightarrow> (nat \<Rightarrow> nat \<Rightarrow> number) \<Rightarrow> bool \<times> bool \<Rightarrow> nat \<Rightarrow> jsstr \<Rightarrow> jsstr option \<Rightarrow> chat \<Rightarrow> chat" where
  "handleStreamError t clock eager generation err errorCode st =
     (if generation \<noteq> ct_generation st then st
      else onMessageUpdate clock (snd eager) (ErrorUpdate generation (getDisplayError t err) errorCode (t API_REQUEST_ERROR))
        ((flushStreamUpdates clock (fst eager) generation st)\<lparr>ct_requesting := False\<rparr>))"

text \<open>\<open>abortControllerRef.current?.abort()\<close> with the new value of the reference.\<close>

definition abort_request :: "nat option \<Rightarrow> chat \<Rightarrow> chat" where
  "abort_request new st = st\<lparr>ct_aborted := ct_aborted st \<union> set_option (ct_abort st), ct_abort := new\<rparr>"

definition sendStreamingChat :: "PlaygroundConfig \<Rightarrow> ParameterEnabled \<Rightarrow> Message list \<Rightarrow> chat \<Rightarrow> chat" where
  "sendStreamingChat config parameterEnabled messages st =
     (let generation = ct_generation st + 1;
          st1 = discardPendingStreamUpdates generation (abort_request None (st\<lparr>ct_generation := generation\<rparr>))
      in st1\<lparr>ct_requesting := True, ct_sent := ct_sent st @ [(generation, buildChatCompletionPayload messages config parameterEnabled)]\<rparr>)"

definition sendNonStreamingChat :: "PlaygroundConfig \<Rightarrow> ParameterEnabled \<Rightarrow> Message list \<Rightarrow> chat \<Rightarrow> chat" where
  "sendNonStreamingChat config parameterEnabled messages st =
     (let payload = buildChatCompletionPayload messages config parameterEnabled;
          generation = ct_generation st + 1;
          st1 = abort_request (Some generation) (discardPendingStreamUpdates generation (st\<lparr>ct_generation := generation\<rparr>))
      in st1\<lparr>ct_requesting := True, ct_inflight := insert generation (ct_inflight st), ct_sent := ct_sent st @ [(generation, payload)]\<rparr>)"

definition sendChat :: "PlaygroundConfig \<Rightarrow> ParameterEnabled \<Rightarrow> Message list \<Rightarrow> chat \<Rightarrow> chat" where
  "sendChat config parameterEnabled messages st =
     (if cfg_stream config then sendStreamingChat config parameterEnabled messages st
      else sendNonStreamingChat config parameterEnabled messages st)"

text \<open>The two ways in which \<open>await sendChatCompletion\<close> ends, each followed by the \<open>finally\<close> block.\<close>

definition request_finally :: "nat \<Rightarrow> chat \<Rightarrow> chat" where
  "request_finally generation st =
     (if ct_generation st = generation then st\<lparr>ct_abort := None, ct_requesting := False\<rparr> else st)"

definition request_responds ::
  "(jsstr \<Rightarrow> jsstr) \<Rightarrow> (nat \<Rightarrow> nat \<Rightarrow> number) \<Rightarrow> bool \<times> bool \<Rightarrow> nat \<Rightarrow> ChatCompletionChoice list \<Rightarrow> chat \<Rightarrow> chat" where
  "request_responds t clock eager generation choices st =
     (if generation \<notin> ct_inflight st then st
      else let st1 = st\<lparr>ct_inflight := ct_inflight st - {generation}\<rparr> in
        request_finally generation
          (if generation \<in> ct_aborted st \<or> ct_generation st \<noteq> generation then st1
           else if \<not> hasChatCompletionChoice choices then handleStreamError t clock eager generation API_REQUEST_ERROR None st1
           else onMessageUpdate clock (fst eager) (ResponseUpdate generation choices) st1))"

definition request_fails ::
  "(jsstr \<Rightarrow> jsstr) \<Rightarrow> (nat \<Rightarrow> nat \<Rightarrow> number) \<Rightarrow> bool \<times> bool \<Rightarrow> nat \<Rightarrow> json option \<Rightarrow> jsstr option \<Rightarrow> chat \<Rightarrow> chat" where
  "request_fails t clock eager generation response_data message st =
     (if generation \<notin> ct_inflight st then st
      else let st1 = st\<lparr>ct_inflight := ct_inflight st - {generation}\<rparr> in
        request_finally generation
          (if generation \<in> ct_aborted st \<or> ct_generation st \<noteq> generation then st1
           else case parseRequestErrorDetails response_data message of
             (errorCode, errorMessage) \<Rightarrow> handleStreamError t clock eager generation errorMessage errorCode st1))"

definition stopGeneration :: "(nat \<Rightarrow> nat \<Rightarrow> number) \<Rightarrow> bool \<times> bool \<Rightarrow> chat \<Rightarrow> chat" where
  "stopGeneration clock eager st =
     (let stoppedGeneration = ct_generation st;
          st1 = flushStreamUpdates clock (fst eager) stoppedGeneration st;
          idleGeneration = stoppedGeneration + 1;
          st2 = abort_request None (discardPendingStreamUpdates idleGeneration (st1\<lparr>ct_generation := idleGeneration\<rparr>))
      in onMessageUpdate clock (snd eager) (StopUpdate idleGeneration) (st2\<lparr>ct_requesting := False\<rparr>))"

text \<open>The clean-up of an unmounted handler; the timer reference is left as it is, and nothing reads it any more.\<close>

definition unmount :: "chat \<Rightarrow> chat" where
  "unmount st = (abort_request None (st\<lparr>ct_generation := ct_generation st + 1\<rparr>))\<lparr>ct_timer := None\<rparr>"

section \<open>The conversation\<close>

definition clearMessages :: "(nat \<Rightarrow> nat \<Rightarrow> number) \<Rightarrow> bool \<Rightarrow> chat \<Rightarrow> chat" where
  "clearMessages clock eager st = onMessageUpdate clock eager (SetMessages []) st"

definition send_messages ::
  "(nat \<Rightarrow> nat \<Rightarrow> number) \<Rightarrow> bool \<Rightarrow> PlaygroundConfig \<Rightarrow> ParameterEnabled \<Rightarrow> Message list \<Rightarrow> chat \<Rightarrow> chat" where
  "send_messages clock eager config parameterEnabled nextMessages st =
     sendChat config parameterEnabled nextMessages (onMessageUpdate clock eager (SetMessages nextMessages) st)"

definition handleSendMessage ::
  "(nat \<Rightarrow> nat \<Rightarrow> number) \<Rightarrow> bool \<Rightarrow> PlaygroundConfig \<Rightarrow> ParameterEnabled \<Rightarrow> jsstr \<times> jsstr \<Rightarrow> jsstr \<times> jsstr \<Rightarrow> number \<Rightarrow> jsstr \<Rightarrow> chat \<Rightarrow> chat" where
  "handleSendMessage clock eager config parameterEnabled ids ids' now body st =
     send_messages clock eager config parameterEnabled (appendUserMessagePair ids ids' now (ct_rendered st) body) st"

definition handleRegenerateMessage ::
  "(nat \<Rightarrow> nat \<Rightarrow> number) \<Rightarrow> bool \<Rightarrow> PlaygroundConfig \<Rightarrow> ParameterEnabled \<Rightarrow> jsstr \<times> jsstr \<Rightarrow> number \<Rightarrow> jsstr \<Rightarrow> chat \<Rightarrow> chat" where
  "handleRegenerateMessage clock eager config parameterEnabled ids now key st =
     (case createRegeneratedMessages ids now (ct_rendered st) key of
        None \<Rightarrow> st
      | Some nextMessages \<Rightarrow> send_messages clock eager config parameterEnabled nextMessages st)"

definition applyEdit ::
  "(nat \<Rightarrow> nat \<Rightarrow> number) \<Rightarrow> bool \<Rightarrow> PlaygroundConfig \<Rightarrow> ParameterEnabled \<Rightarrow> jsstr \<times> jsstr \<Rightarrow> number \<Rightarrow> jsstr \<Rightarrow> bool \<Rightarrow> chat \<Rightarrow> chat" where
  "applyEdit clock eager config parameterEnabled ids now newContent shouldSubmit st = (case ct_editing st of
       None \<Rightarrow> st
     | Some key \<Rightarrow> if key = [] then st
         else (case applyMessageEdit ids now (ct_rendered st) key newContent shouldSubmit of
           None \<Rightarrow> st
         | Some (messages, shouldSend) \<Rightarrow>
             let st1 = onMessageUpdate clock eager (SetMessages messages) (st\<lparr>ct_editing := None\<rparr>)
             in if shouldSend then sendChat config parameterEnabled messages st1 else st1))"

text \<open>
  One event of the chat.  An action of the user carries the configuration of the last render, the identifiers that
  \<open>nanoid\<close> gives and the reading of the clock.
\<close>

record action_env =
  en_config :: PlaygroundConfig
  en_parameters :: ParameterEnabled
  en_ids :: "(jsstr \<times> jsstr) \<times> (jsstr \<times> jsstr)"
  en_now :: number

datatype chat_event =
    SubmitMessage bool action_env jsstr
  | RegenerateMessage bool action_env jsstr
  | EditMessage jsstr
  | CloseEditor
  | ApplyEdit bool action_env jsstr bool
  | DeleteMessage bool jsstr
  | MessagesLoaded bool "Message list"
  | ClearMessages bool
  | StreamUpdate nat StreamChunkType jsstr
  | StreamComplete "bool \<times> bool" nat
  | StreamError "bool \<times> bool" nat jsstr "jsstr option"
  | TimerFires bool
  | RequestResponds "bool \<times> bool" nat "ChatCompletionChoice list"
  | RequestFails "bool \<times> bool" nat "json option" "jsstr option"
  | StopGeneration "bool \<times> bool"
  | Unmount
  | Render

fun chat_step :: "(jsstr \<Rightarrow> jsstr) \<Rightarrow> (nat \<Rightarrow> nat \<Rightarrow> number) \<Rightarrow> chat \<Rightarrow> chat_event \<Rightarrow> chat" where
  "chat_step t clock st (SubmitMessage eager env body) =
     handleSendMessage clock eager (en_config env) (en_parameters env) (fst (en_ids env)) (snd (en_ids env)) (en_now env) body st"
| "chat_step t clock st (RegenerateMessage eager env key) =
     handleRegenerateMessage clock eager (en_config env) (en_parameters env) (fst (en_ids env)) (en_now env) key st"
| "chat_step t clock st (EditMessage key) = st\<lparr>ct_editing := Some key\<rparr>"
| "chat_step t clock st CloseEditor = st\<lparr>ct_editing := None\<rparr>"
| "chat_step t clock st (ApplyEdit eager env content submit) =
     applyEdit clock eager (en_config env) (en_parameters env) (fst (en_ids env)) (en_now env) content submit st"
| "chat_step t clock st (DeleteMessage eager key) = onMessageUpdate clock eager (RemoveMessage key) st"
| "chat_step t clock st (MessagesLoaded eager loadedMessages) = onMessageUpdate clock eager (SetMessages loadedMessages) st"
| "chat_step t clock st (ClearMessages eager) = clearMessages clock eager st"
| "chat_step t clock st (StreamUpdate g type chunk) = handleStreamUpdate g type chunk st"
| "chat_step t clock st (StreamComplete eager g) = handleStreamComplete clock eager g st"
| "chat_step t clock st (StreamError eager g err code) = handleStreamError t clock eager g err code st"
| "chat_step t clock st (TimerFires eager) = timer_fires clock eager st"
| "chat_step t clock st (RequestResponds eager g choices) = request_responds t clock eager g choices st"
| "chat_step t clock st (RequestFails eager g data message) = request_fails t clock eager g data message st"
| "chat_step t clock st (StopGeneration eager) = stopGeneration clock eager st"
| "chat_step t clock st Unmount = unmount st"
| "chat_step t clock st Render = render clock st"

section \<open>Progress of a streamed message\<close>

text \<open>
  A message that has received the texts \<open>content\<close> and \<open>reasoning\<close>.  While the content has no tag its reasoning is what
  was streamed as reasoning; without streamed reasoning, it is what the tags enclose.
\<close>

definition streamed :: "jsstr \<Rightarrow> jsstr \<Rightarrow> jsstr \<Rightarrow> Message \<Rightarrow> bool" where
  "streamed key content reasoning m \<longleftrightarrow> msg_key m = key \<and> msg_from m = RoleAssistant \<and> isAssistantMessagePending m
     \<and> getMessageContent m = content
     \<and> (\<not> has_think content \<longrightarrow> reasoning_text m = reasoning)
     \<and> (reasoning = [] \<and> tag_reasoning (parseThinkTags content) \<noteq> [] \<longrightarrow> reasoning_text m = tag_reasoning (parseThinkTags content))"

lemma starts_with_prefix: "starts_with (s @ t) n \<Longrightarrow> length n \<le> length s \<Longrightarrow> starts_with s n"
  by (auto simp: starts_with_iff append_eq_append_conv2)

lemma cut_append: "cut n s = Some (a, b) \<Longrightarrow> cut n (s @ t) = Some (a, b @ t)"
proof (induction s arbitrary: a)
  case (Cons c s)
  show ?case
  proof (cases "starts_with (c # s) n")
    case True
    then obtain r where "c # s = n @ r" by (auto simp: starts_with_iff)
    then have "starts_with (c # s @ t) n" by (metis append_Cons append_assoc starts_with_iff)
    moreover have "length n \<le> length (c # s)" using \<open>c # s = n @ r\<close> by (metis length_append le_add1)
    then have "drop (length n) (c # s @ t) = drop (length n) (c # s) @ t" using drop_append[of "length n" "c # s" t] by simp
    ultimately show ?thesis using True Cons.prems by auto
  next
    case False
    with Cons.prems obtain a' where a': "cut n s = Some (a', b)" "a = c # a'" by auto
    then have "length n \<le> length (c # s)" using cut_Some by fastforce
    then have "\<not> starts_with (c # s @ t) n" using False starts_with_prefix[of "c # s" t n] by auto
    with Cons.IH[OF a'(1)] a'(2) False show ?thesis by simp
  qed
qed (cases t; auto simp: starts_with_iff split: if_splits)

lemma has_think_append: "has_think s \<Longrightarrow> has_think (s @ t)"
  using cut_append by (fastforce simp: has_think_def)

lemma version_content [simp]:
  "getMessageContent (updateCurrentVersionContent m c) = c" "reasoning_text (updateCurrentVersionContent m c) = reasoning_text m"
  "msg_key (updateCurrentVersionContent m c) = msg_key m" "msg_from (updateCurrentVersionContent m c) = msg_from m"
  "msg_status (updateCurrentVersionContent m c) = msg_status m" "msg_reasoning (updateCurrentVersionContent m c) = msg_reasoning m"
  by (simp_all add: getMessageContent_def getCurrentVersion_def updateCurrentVersionContent_def reasoning_text_def)

lemma members_keep [simp]:
  "getMessageContent (m\<lparr>msg_status := x\<rparr>) = getMessageContent m" "reasoning_text (m\<lparr>msg_status := x\<rparr>) = reasoning_text m"
  "getMessageContent (m\<lparr>msg_reasoning := y\<rparr>) = getMessageContent m"
  "getMessageContent (m\<lparr>msg_isReasoningStreaming := z\<rparr>) = getMessageContent m"
  "reasoning_text (m\<lparr>msg_isReasoningStreaming := z\<rparr>) = reasoning_text m"
  "reasoning_text (m\<lparr>msg_reasoning := y\<rparr>) = (case y of Some r \<Rightarrow> rz_content r | None \<Rightarrow> [])"
  by (simp_all add: getMessageContent_def getCurrentVersion_def reasoning_text_def)

lemma timing_keeps [simp]:
  "getMessageContent (completeReasoningTiming now m) = getMessageContent m"
  "reasoning_text (completeReasoningTiming now m) = reasoning_text m"
  "msg_key (completeReasoningTiming now m) = msg_key m" "msg_from (completeReasoningTiming now m) = msg_from m"
  "msg_status (completeReasoningTiming now m) = msg_status m"
  "getMessageContent (completeAssistantTiming now m) = getMessageContent m"
  "reasoning_text (completeAssistantTiming now m) = reasoning_text m"
  "msg_key (completeAssistantTiming now m) = msg_key m" "msg_from (completeAssistantTiming now m) = msg_from m"
  "msg_status (completeAssistantTiming now m) = msg_status m"
  by (auto simp: completeReasoningTiming_def completeAssistantTiming_def getMessageContent_def getCurrentVersion_def reasoning_text_def Let_def
      split: option.splits)

lemma streamed_reasoning:
  assumes "streamed key content reasoning m" "chunk \<noteq> []"
  shows "streamed key content (reasoning @ chunk) (applyStreamingChunk clock m ReasoningChunk chunk)"
  using assms by (auto simp: streamed_def applyStreamingChunk_def isAssistantMessagePending_def startReasoningTiming_def reasoning_text_def
      appendStreamDelta_def getMessageContent_def getCurrentVersion_def Let_def split: option.splits)

lemma streamed_content:
  assumes "streamed key content reasoning m"
  shows "streamed key (content @ chunk) reasoning (applyStreamingChunk clock m ContentChunk chunk)"
proof -
  let ?p = "processStreamingContent (clock 0) m chunk"
  have more: "\<not> has_think (content @ chunk) \<Longrightarrow> \<not> has_think content" using has_think_append by blast
  have kept: "msg_key ?p = key" "msg_from ?p = RoleAssistant" "getMessageContent ?p = content @ chunk"
    using assms by (simp_all add: streamed_def processStreamingContent_def appendStreamDelta_def Let_def getMessageContent_def[symmetric])
  have plain: "reasoning_text ?p = reasoning" if "\<not> has_think (content @ chunk)"
    using assms more[OF that] that
    by (auto simp: streamed_def processStreamingContent_def parseThinkTags_def appendStreamDelta_def Let_def getMessageContent_def reasoning_text_def)
  have tagged: "reasoning_text ?p = tag_reasoning (parseThinkTags (content @ chunk))"
    if "tag_reasoning (parseThinkTags (content @ chunk)) \<noteq> []"
    using that assms
    by (auto simp: streamed_def processStreamingContent_def parseThinkTags_def appendStreamDelta_def Let_def getMessageContent_def
        reasoning_text_def split: if_splits)
  have "\<not> msg_status m = Some StatusError" using assms by (auto simp: streamed_def isAssistantMessagePending_def)
  with kept plain tagged show ?thesis
    by (simp add: streamed_def applyStreamingChunk_def isAssistantMessagePending_def Let_def)
qed

section \<open>Queued updates\<close>

lemma run_update_simps [simp]:
  "ct_generation (run_update clock u st) = ct_generation st" "ct_pending (run_update clock u st) = ct_pending st"
  "ct_timer (run_update clock u st) = ct_timer st" "ct_queue (run_update clock u st) = ct_queue st"
  "ct_rendered (run_update clock u st) = ct_rendered st"
  by (simp_all add: run_update_def)

text \<open>The evaluated messages depend on the generation, the messages, the queue and the number of evaluations only.\<close>

definition evaluate_updates :: "(nat \<Rightarrow> nat \<Rightarrow> number) \<Rightarrow> nat \<Rightarrow> message_update list \<Rightarrow> nat \<times> Message list \<Rightarrow> nat \<times> Message list" where
  "evaluate_updates clock g us = fold (\<lambda>u (n, ms). (n + 1, apply_update (clock n) g u ms)) us"

lemma evaluate_simps [simp]:
  "evaluate_updates clock g [] s = s" "evaluate_updates clock g (u # us) (n, ms) = evaluate_updates clock g us (n + 1, apply_update (clock n) g u ms)"
  "evaluate_updates clock g (us @ vs) s = evaluate_updates clock g vs (evaluate_updates clock g us s)"
  by (simp_all add: evaluate_updates_def)

lemma fold_run_update:
  "fold (run_update clock) us st = st\<lparr>ct_messages := snd (evaluate_updates clock (ct_generation st) us (ct_evaluated st, ct_messages st)),
     ct_evaluated := fst (evaluate_updates clock (ct_generation st) us (ct_evaluated st, ct_messages st))\<rparr>"
  by (induction us arbitrary: st) (simp_all add: run_update_def)

definition settled :: "(nat \<Rightarrow> nat \<Rightarrow> number) \<Rightarrow> chat \<Rightarrow> nat \<times> Message list" where
  "settled clock st = evaluate_updates clock (ct_generation st) (ct_queue st) (ct_evaluated st, ct_messages st)"

lemma drained_settled:
  "drained clock st = st\<lparr>ct_queue := [], ct_messages := snd (settled clock st), ct_evaluated := fst (settled clock st)\<rparr>"
  by (simp add: drained_def fold_run_update settled_def)

lemma settled_onMessageUpdate:
  "settled clock (onMessageUpdate clock eager u st) = evaluate_updates clock (ct_generation st) [u] (settled clock st)"
  by (simp add: onMessageUpdate_def settled_def run_update_def)

lemma onMessageUpdate_simps [simp]:
  "ct_generation (onMessageUpdate clock eager u st) = ct_generation st" "ct_pending (onMessageUpdate clock eager u st) = ct_pending st"
  "ct_timer (onMessageUpdate clock eager u st) = ct_timer st" "ct_rendered (onMessageUpdate clock eager u st) = ct_rendered st"
  by (simp_all add: onMessageUpdate_def)

text \<open>
  The handler while the request of generation \<open>g\<close> streams into the message behind \<open>ms\<close>: \<open>content\<close> and \<open>reasoning\<close> were
  received, a part of them is evaluated or queued and the rest is pending.
\<close>

definition receiving :: "(nat \<Rightarrow> nat \<Rightarrow> number) \<Rightarrow> nat \<Rightarrow> Message list \<Rightarrow> jsstr \<Rightarrow> jsstr \<Rightarrow> jsstr \<Rightarrow> chat \<Rightarrow> bool" where
  "receiving clock g ms key content reasoning st \<longleftrightarrow> ct_generation st = g \<and> pc_generation (ct_pending st) = g
     \<and> (ct_timer st = None \<or> ct_timer st = Some g)
     \<and> (\<exists>m done_content done_reasoning. snd (settled clock st) = ms @ [m] \<and> streamed key done_content done_reasoning m
         \<and> content = done_content @ pc_content (ct_pending st) \<and> reasoning = done_reasoning @ pc_reasoning (ct_pending st))"

lemma flush_update:
  assumes "streamed key content reasoning m"
  shows "\<exists>m'. apply_update clock g (FlushUpdate g r c) (ms @ [m]) = ms @ [m'] \<and> streamed key (content @ c) (reasoning @ r) m'"
proof -
  let ?r = "if r \<noteq> [] then applyStreamingChunk clock m ReasoningChunk r else m"
  have "streamed key content (reasoning @ r) ?r" using assms streamed_reasoning by simp
  then have "streamed key (content @ c) (reasoning @ r) (if c \<noteq> [] then applyStreamingChunk (\<lambda>i. clock (i + 1)) ?r ContentChunk c else ?r)"
    using streamed_content by simp
  moreover have "msg_from m = RoleAssistant" using assms by (simp add: streamed_def)
  ultimately show ?thesis by (auto simp: updateLastAssistantMessage_def Let_def)
qed

lemma receiving_flush:
  assumes "receiving clock g ms key content reasoning st"
  shows "receiving clock g ms key content reasoning (flushStreamUpdates clock eager g st)"
    and "pc_content (ct_pending (flushStreamUpdates clock eager g st)) = []" "pc_reasoning (ct_pending (flushStreamUpdates clock eager g st)) = []"
proof -
  obtain m A R where m: "snd (settled clock st) = ms @ [m]" "streamed key A R m"
    "content = A @ pc_content (ct_pending st)" "reasoning = R @ pc_reasoning (ct_pending st)"
    and g: "ct_generation st = g" "pc_generation (ct_pending st) = g"
    using assms by (auto simp: receiving_def)
  obtain n where n: "settled clock st = (n, ms @ [m])" using m(1) by (metis prod.collapse)
  let ?p = "pc_reasoning (ct_pending st) = [] \<and> pc_content (ct_pending st) = []"
  let ?s = "st\<lparr>ct_timer := None, ct_pending := \<lparr>pc_generation = g, pc_content = [], pc_reasoning = []\<rparr>\<rparr>"
  have same: "settled clock ?s = settled clock st" by (simp add: settled_def)
  show "pc_content (ct_pending (flushStreamUpdates clock eager g st)) = []" "pc_reasoning (ct_pending (flushStreamUpdates clock eager g st)) = []"
    using g by (simp_all add: flushStreamUpdates_def Let_def)
  show "receiving clock g ms key content reasoning (flushStreamUpdates clock eager g st)"
  proof (cases ?p)
    case True
    moreover have "settled clock (st\<lparr>ct_timer := None\<rparr>) = settled clock st" by (simp add: settled_def)
    ultimately show ?thesis using g m by (auto simp: flushStreamUpdates_def receiving_def Let_def)
  next
    case False
    then have "flushStreamUpdates clock eager g st
        = onMessageUpdate clock eager (FlushUpdate g (pc_reasoning (ct_pending st)) (pc_content (ct_pending st))) ?s"
      using g by (auto simp: flushStreamUpdates_def Let_def)
    with flush_update[OF m(2), of "clock n" g "pc_reasoning (ct_pending st)" "pc_content (ct_pending st)" ms] m(3,4) g n same
    show ?thesis by (auto simp: receiving_def settled_onMessageUpdate)
  qed
qed

text \<open>The events that leave the request of generation \<open>g\<close> alone or belong to its stream.\<close>

fun undisturbed :: "nat \<Rightarrow> chat_event \<Rightarrow> bool" where
  "undisturbed g (StreamUpdate _ _ _) = True"
| "undisturbed g (StreamComplete _ h) = (h \<noteq> g)"
| "undisturbed g (StreamError _ h _ _) = (h \<noteq> g)"
| "undisturbed g (RequestResponds _ h _) = (h \<noteq> g)"
| "undisturbed g (RequestFails _ h _ _) = (h \<noteq> g)"
| "undisturbed g (TimerFires _) = True"
| "undisturbed g Render = True"
| "undisturbed g (EditMessage _) = True"
| "undisturbed g CloseEditor = True"
| "undisturbed g _ = False"

text \<open>The texts that the stream of generation \<open>g\<close> delivers.\<close>

fun delivered :: "nat \<Rightarrow> StreamChunkType \<Rightarrow> chat_event list \<Rightarrow> jsstr" where
  "delivered g type [] = []"
| "delivered g type (StreamUpdate h ty chunk # es) = (if h = g \<and> ty = type then chunk else []) @ delivered g type es"
| "delivered g type (_ # es) = delivered g type es"

lemma receiving_cong:
  assumes "receiving clock g ms key content reasoning st" "settled clock st' = settled clock st" "ct_generation st' = ct_generation st"
    "ct_pending st' = ct_pending st" "ct_timer st' = ct_timer st"
  shows "receiving clock g ms key content reasoning st'"
  using assms by (simp add: receiving_def)

lemma receiving_render: "receiving clock g ms key content reasoning st \<Longrightarrow> receiving clock g ms key content reasoning (render clock st)"
  by (erule receiving_cong) (simp_all add: render_def Let_def drained_settled settled_def)

lemma receiving_update:
  assumes "receiving clock g ms key content reasoning st"
  shows "receiving clock g ms key (content @ delivered g ContentChunk [StreamUpdate h type chunk])
    (reasoning @ delivered g ReasoningChunk [StreamUpdate h type chunk]) (handleStreamUpdate h type chunk st)"
proof (cases "h = g")
  case True
  have same: "settled clock (st\<lparr>ct_pending := p, ct_timer := x\<rparr>) = settled clock st" "settled clock (st\<lparr>ct_pending := p\<rparr>) = settled clock st" for p x
    by (simp_all add: settled_def)
  show ?thesis using assms True
    by (cases type) (fastforce simp: receiving_def handleStreamUpdate_def scheduleStreamFlush_def appendStreamDelta_def same)+
next
  case False
  with assms show ?thesis by (auto simp: receiving_def handleStreamUpdate_def)
qed

lemma receiving_step:
  assumes "receiving clock g ms key content reasoning st" "undisturbed g e"
  shows "receiving clock g ms key (content @ delivered g ContentChunk [e]) (reasoning @ delivered g ReasoningChunk [e]) (chat_step t clock st e)"
proof (cases e)
  case (StreamUpdate h type chunk)
  then show ?thesis using receiving_update[OF assms(1)] by simp
next
  case (TimerFires eager)
  moreover have "ct_timer st = None \<or> ct_timer st = Some g" using assms(1) by (simp add: receiving_def)
  ultimately show ?thesis using assms(1) receiving_flush(1)[OF assms(1)] by (auto simp: timer_fires_def)
next
  case (RequestResponds eager h choices)
  with assms have "receiving clock g ms key content reasoning (chat_step t clock st e)"
    by (intro receiving_cong[OF assms(1)]) (auto simp: receiving_def request_responds_def request_finally_def settled_def Let_def)
  with RequestResponds show ?thesis by simp
next
  case (RequestFails eager h data message)
  with assms have "receiving clock g ms key content reasoning (chat_step t clock st e)"
    by (intro receiving_cong[OF assms(1)]) (auto simp: receiving_def request_fails_def request_finally_def settled_def Let_def)
  with RequestFails show ?thesis by simp
next
  case Render
  with receiving_render[OF assms(1)] show ?thesis by simp
next
  case (EditMessage key')
  then show ?thesis using receiving_cong[OF assms(1), of "st\<lparr>ct_editing := Some key'\<rparr>"] by (simp add: settled_def)
next
  case CloseEditor
  then show ?thesis using receiving_cong[OF assms(1), of "st\<lparr>ct_editing := None\<rparr>"] by (simp add: settled_def)
next
  case (StreamComplete eager h)
  moreover have "ct_generation st = g" using assms(1) by (simp add: receiving_def)
  ultimately show ?thesis using assms by (simp add: handleStreamComplete_def)
next
  case (StreamError eager h err code)
  moreover have "ct_generation st = g" using assms(1) by (simp add: receiving_def)
  ultimately show ?thesis using assms by (simp add: handleStreamError_def)
qed (use assms in simp_all)

lemma delivered_Cons: "delivered g type (e # es) = delivered g type [e] @ delivered g type es"
  by (cases e) simp_all

lemma receiving_run:
  "receiving clock g ms key content reasoning st \<Longrightarrow> list_all (undisturbed g) es \<Longrightarrow>
    receiving clock g ms key (content @ delivered g ContentChunk es) (reasoning @ delivered g ReasoningChunk es)
      (run_machine (chat_step t clock) st es)"
proof (induction es arbitrary: content reasoning st)
  case (Cons e es)
  from Cons.IH[OF receiving_step[OF Cons.prems(1), of e t]] Cons.prems(2) show ?case
    by (simp add: delivered_Cons[of _ _ e es])
qed simp

lemma receiving_start:
  assumes "cfg_stream (en_config env)"
  shows "receiving clock (Suc (ct_generation st)) (ct_rendered st @ [createUserMessage (fst (en_ids env)) body (en_now env)])
    (fst (snd (en_ids env))) [] [] (chat_step t clock st (SubmitMessage eager env body))"
proof -
  let ?m = "createLoadingAssistantMessage (snd (en_ids env)) (en_now env)"
  let ?next = "ct_rendered st @ [createUserMessage (fst (en_ids env)) body (en_now env), ?m]"
  have "streamed (fst (snd (en_ids env))) [] [] ?m"
    by (simp add: streamed_def createLoadingAssistantMessage_def isAssistantMessagePending_def getMessageContent_def getCurrentVersion_def
        createMessageVersion_def reasoning_text_def parseThinkTags_def has_think_def open_tag_def)
  moreover have "snd (settled clock (chat_step t clock st (SubmitMessage eager env body))) = ?next"
    using assms by (simp add: handleSendMessage_def send_messages_def sendChat_def sendStreamingChat_def discardPendingStreamUpdates_def
        abort_request_def onMessageUpdate_def run_update_def settled_def appendUserMessagePair_def Let_def split_beta evaluate_updates_def)
  ultimately show ?thesis
    using assms by (simp add: receiving_def handleSendMessage_def send_messages_def sendChat_def sendStreamingChat_def
        discardPendingStreamUpdates_def abort_request_def Let_def)
qed

text \<open>What a user sees of a message.\<close>

definition shown :: "Message \<Rightarrow> jsstr \<times> MessageRole \<times> MessageStatus option \<times> jsstr \<times> jsstr" where
  "shown m = (msg_key m, msg_from m, msg_status m, getMessageContent m, reasoning_text m)"

lemma shown_finalized:
  "shown (completeAssistantTiming now ((finalizeMessage clock m r)\<lparr>msg_status := Some StatusComplete\<rparr>)) =
     (msg_key m, msg_from m, Some StatusComplete,
      if has_think (getMessageContent m) then visibleContent (parseThinkTags (getMessageContent m)) else getMessageContent m,
      text_or_else r (text_or_else (reasoning_text m) (if has_think (getMessageContent m) then tag_reasoning (parseThinkTags (getMessageContent m)) else [])))"
  by (simp add: shown_def finalizeMessage_def Let_def getMessageContent_def[symmetric])

lemma shown_streamed:
  assumes "streamed key content reasoning m"
    and "\<not> has_think content \<or> reasoning = [] \<and> tag_reasoning (parseThinkTags content) \<noteq> []"
  shows "shown (completeAssistantMessage clock m)
    = shown (applyChatCompletionChoice clock' (createLoadingAssistantMessage (key, version) now) \<lparr>ch_content = content, ch_reasoning_content = reasoning\<rparr>)"
proof -
  have "reasoning_text (createLoadingAssistantMessage (key, version) now) = []"
    by (simp add: createLoadingAssistantMessage_def reasoning_text_def)
  with assms show ?thesis
    by (auto simp: completeAssistantMessage_def applyChatCompletionChoice_def shown_finalized streamed_def text_or_else_def
        createLoadingAssistantMessage_def)
qed

lemma receiving_complete:
  assumes "receiving clock g ms key content reasoning st"
  shows "\<exists>m clock'. ct_rendered (run_machine (chat_step t clock) st [StreamComplete eager g, Render]) = ms @ [completeAssistantMessage clock' m]
    \<and> streamed key content reasoning m"
proof -
  let ?f = "flushStreamUpdates clock (fst eager) g st"
  note flushed = receiving_flush[OF assms, of "fst eager"]
  then obtain m where "snd (settled clock ?f) = ms @ [m]" and streamed: "streamed key content reasoning m"
    by (auto simp: receiving_def)
  moreover obtain n where "n = fst (settled clock ?f)" by simp
  ultimately have m: "settled clock ?f = (n, ms @ [m])" by (simp add: prod_eq_iff)
  have g: "ct_generation st = g" "ct_generation ?f = g" using assms flushed(1) by (simp_all add: receiving_def)
  have "settled clock (?f\<lparr>ct_requesting := False\<rparr>) = (n, ms @ [m])" using m by (simp add: settled_def)
  with g have "settled clock (handleStreamComplete clock eager g st) = evaluate_updates clock g [CompleteUpdate g] (n, ms @ [m])"
    by (simp add: handleStreamComplete_def settled_onMessageUpdate)
  moreover have "\<not> isAssistantMessageFinal m" "msg_from m = RoleAssistant"
    using streamed by (auto simp: streamed_def isAssistantMessagePending_def isAssistantMessageFinal_def)
  ultimately have "ct_rendered (render clock (handleStreamComplete clock eager g st)) = ms @ [completeAssistantMessage (clock n) m]"
    by (simp add: render_def drained_settled Let_def updateLastAssistantMessage_def)
  with streamed show ?thesis by auto
qed

text \<open>
  A streamed answer ends up as the answer of one response would: after a message is submitted, whatever order the
  chunks of its stream, the flush timer, renders, and late events of earlier requests come in, and whichever updaters
  React evaluates early, the completed stream leaves the conversation with the user's message and an assistant message
  that shows the same content, reasoning and status as the response with the joined texts.  The content either has no
  thinking tag, or it is all the stream delivers and encloses some reasoning.
\<close>

lemma streaming_matches:
  assumes "cfg_stream (en_config env)" "list_all (undisturbed (Suc (ct_generation st))) es"
    and "content = delivered (Suc (ct_generation st)) ContentChunk es" "reasoning = delivered (Suc (ct_generation st)) ReasoningChunk es"
    and "\<not> has_think content \<or> reasoning = [] \<and> tag_reasoning (parseThinkTags content) \<noteq> []"
  shows "\<exists>m. ct_rendered (run_machine (chat_step t clock) st
        (SubmitMessage eager env body # es @ [StreamComplete eager' (Suc (ct_generation st)), Render]))
      = ct_rendered st @ [createUserMessage (fst (en_ids env)) body (en_now env), m]
    \<and> shown m = shown (applyChatCompletionChoice clock' (createLoadingAssistantMessage (snd (en_ids env)) (en_now env))
        \<lparr>ch_content = content, ch_reasoning_content = reasoning\<rparr>)"
proof -
  let ?s = "run_machine (chat_step t clock) (chat_step t clock st (SubmitMessage eager env body)) es"
  have "receiving clock (Suc (ct_generation st)) (ct_rendered st @ [createUserMessage (fst (en_ids env)) body (en_now env)])
      (fst (snd (en_ids env))) content reasoning ?s"
    using receiving_run[OF receiving_start[OF assms(1)] assms(2)] assms(3,4) by simp
  from receiving_complete[OF this, of t eager'] obtain m clock'' where
    m: "ct_rendered (run_machine (chat_step t clock) ?s [StreamComplete eager' (Suc (ct_generation st)), Render])
      = (ct_rendered st @ [createUserMessage (fst (en_ids env)) body (en_now env)]) @ [completeAssistantMessage clock'' m]"
    and "streamed (fst (snd (en_ids env))) content reasoning m" by (elim exE conjE)
  from shown_streamed[OF this(2) assms(5), of clock'' clock' "snd (snd (en_ids env))" "en_now env"] m
  show ?thesis by (simp add: run_machine_append)
qed

text \<open>A conversation without messages, and an action of the user in it.\<close>

definition initial_chat :: chat where
  "initial_chat = \<lparr>ct_generation = 0, ct_pending = \<lparr>pc_generation = 0, pc_content = [], pc_reasoning = []\<rparr>, ct_timer = None,
     ct_abort = None, ct_aborted = {}, ct_inflight = {}, ct_requesting = False, ct_editing = None, ct_messages = [], ct_queue = [],
     ct_evaluated = 0, ct_rendered = [], ct_sent = []\<rparr>"

definition chat_sample_env :: action_env where
  "chat_sample_env = \<lparr>en_config = \<lparr>cfg_model = js ''gpt-4o'', cfg_group = js ''default'', cfg_temperature = Fin (7 / 10), cfg_top_p = Fin 1,
       cfg_max_tokens = Fin 4096, cfg_frequency_penalty = Fin 0, cfg_presence_penalty = Fin 0, cfg_seed = None, cfg_stream = True\<rparr>,
     en_parameters = \<lparr>on_temperature = True, on_top_p = True, on_max_tokens = False, on_frequency_penalty = True,
       on_presence_penalty = True, on_seed = False\<rparr>,
     en_ids = ((js ''u'', js ''u1''), (js ''a'', js ''a1'')), en_now = Fin 5\<rparr>"

section \<open>Failing and stopping\<close>

text \<open>The handler of generation \<open>g\<close> with a last message of a given kind, once the queue is evaluated.\<close>

definition holding :: "(nat \<Rightarrow> nat \<Rightarrow> number) \<Rightarrow> nat \<Rightarrow> Message list \<Rightarrow> (Message \<Rightarrow> bool) \<Rightarrow> chat \<Rightarrow> bool" where
  "holding clock g ms P st \<longleftrightarrow> ct_generation st = g \<and> (ct_timer st = None \<or> ct_timer st = Some g)
     \<and> (\<exists>m. snd (settled clock st) = ms @ [m] \<and> P m)"

definition failed_with :: "jsstr \<Rightarrow> jsstr option \<Rightarrow> jsstr \<Rightarrow> Message \<Rightarrow> bool" where
  "failed_with key code body m \<longleftrightarrow> msg_key m = key \<and> msg_from m = RoleAssistant \<and> msg_status m = Some StatusError
     \<and> getMessageContent m = body \<and> msg_errorCode m = Some code"

text \<open>The events after the failure of generation \<open>g\<close>: its stream may go on, and even complete.\<close>

fun after_failure :: "nat \<Rightarrow> chat_event \<Rightarrow> bool" where
  "after_failure g (StreamComplete _ _) = True"
| "after_failure g e = undisturbed g e"

lemma holding_cong:
  assumes "holding clock g ms P st" "settled clock st' = settled clock st" "ct_generation st' = ct_generation st"
    "ct_timer st' = None \<or> ct_timer st' = Some g"
  shows "holding clock g ms P st'"
  using assms by (simp add: holding_def)

lemma failed_update:
  assumes "failed_with key code body m" "u = FlushUpdate g r c \<or> u = CompleteUpdate g"
  shows "apply_update clock g u (ms @ [m]) = ms @ [m]"
  using assms by (auto simp: failed_with_def updateLastAssistantMessage_def applyStreamingChunk_def isAssistantMessageFinal_def Let_def)

lemma holding_onMessageUpdate:
  assumes "holding clock g ms (failed_with key code body) st" "u = FlushUpdate g r c \<or> u = CompleteUpdate g"
  shows "holding clock g ms (failed_with key code body) (onMessageUpdate clock eager u st)"
proof -
  from assms(1) obtain m where m: "snd (settled clock st) = ms @ [m]" "failed_with key code body m" "ct_generation st = g"
    by (auto simp: holding_def)
  then have "snd (evaluate_updates clock g [u] (settled clock st)) = ms @ [m]"
    using failed_update[OF m(2) assms(2)] by (cases "settled clock st") simp
  with m assms(1) show ?thesis by (simp add: holding_def settled_onMessageUpdate)
qed

lemma holding_flush:
  assumes "holding clock g ms (failed_with key code body) st"
  shows "holding clock g ms (failed_with key code body) (flushStreamUpdates clock eager h st)"
proof -
  have "holding clock g ms (failed_with key code body) (st\<lparr>ct_timer := None, ct_pending := p\<rparr>)" for p
    by (rule holding_cong[OF assms]) (simp_all add: settled_def)
  moreover have "holding clock g ms (failed_with key code body) (st\<lparr>ct_timer := None\<rparr>)"
    by (rule holding_cong[OF assms]) (simp_all add: settled_def)
  ultimately show ?thesis using assms holding_onMessageUpdate by (simp add: flushStreamUpdates_def Let_def holding_def[of _ _ _ _ st])
qed

lemma holding_step:
  assumes "holding clock g ms (failed_with key code body) st" "after_failure g e"
  shows "holding clock g ms (failed_with key code body) (chat_step t clock st e)"
proof -
  note cong = holding_cong[OF assms(1)]
  have g: "ct_generation st = g" and timer: "ct_timer st = None \<or> ct_timer st = Some g" using assms(1) by (simp_all add: holding_def)
  show ?thesis
  proof (cases e)
    case (StreamUpdate h type chunk)
    show ?thesis unfolding StreamUpdate using g timer
      by (intro cong) (auto simp: handleStreamUpdate_def scheduleStreamFlush_def settled_def)
  next
    case (StreamComplete eager h)
    have "holding clock g ms (failed_with key code body) ((flushStreamUpdates clock (fst eager) h st)\<lparr>ct_requesting := False\<rparr>)"
      using holding_flush[OF assms(1), of "fst eager" h] by (rule holding_cong) (use holding_flush[OF assms(1), of "fst eager" h] in \<open>simp_all add: settled_def holding_def\<close>)
    from holding_onMessageUpdate[OF this, of "CompleteUpdate g"] StreamComplete assms(1) g show ?thesis
      by (cases "h = g") (simp_all add: handleStreamComplete_def)
  next
    case (TimerFires eager)
    with assms(1) holding_flush[OF assms(1)] show ?thesis by (simp add: timer_fires_def split: option.split)
  next
    case (RequestResponds eager h choices)
    show ?thesis unfolding RequestResponds using g timer assms(2) RequestResponds
      by (intro cong) (auto simp: request_responds_def request_finally_def settled_def Let_def)
  next
    case (RequestFails eager h data message)
    show ?thesis unfolding RequestFails using g timer assms(2) RequestFails
      by (intro cong) (auto simp: request_fails_def request_finally_def settled_def Let_def)
  next
    case Render
    show ?thesis unfolding Render using g timer by (intro cong) (simp_all add: render_def Let_def drained_settled settled_def)
  next
    case (StreamError eager h err errorCode)
    with assms g show ?thesis by (simp add: handleStreamError_def)
  next
    case (EditMessage key')
    show ?thesis unfolding EditMessage using timer by (intro cong) (simp_all add: settled_def)
  next
    case CloseEditor
    show ?thesis unfolding CloseEditor using timer by (intro cong) (simp_all add: settled_def)
  qed (use assms in simp_all)
qed

lemma holding_run:
  "holding clock g ms (failed_with key code body) st \<Longrightarrow> list_all (after_failure g) es \<Longrightarrow>
    holding clock g ms (failed_with key code body) (run_machine (chat_step t clock) st es)"
  by (induction es arbitrary: st) (auto intro: holding_step)

lemma receiving_fails:
  assumes "receiving clock g ms key content reasoning st"
  shows "holding clock g ms (failed_with key (case code of Some c \<Rightarrow> if c = [] then None else Some c | None \<Rightarrow> None)
      (t API_REQUEST_ERROR @ js '': '' @ getDisplayError t err)) (handleStreamError t clock eager g err code st)"
proof -
  let ?f = "flushStreamUpdates clock (fst eager) g st" and ?u = "ErrorUpdate g (getDisplayError t err) code (t API_REQUEST_ERROR)"
  have flushed: "receiving clock g ms key content reasoning ?f" using receiving_flush[OF assms] by simp
  then obtain m c r where m: "snd (settled clock ?f) = ms @ [m]" "streamed key c r m" by (auto simp: receiving_def)
  moreover have g: "ct_generation st = g" "ct_generation ?f = g" using assms flushed by (simp_all add: receiving_def)
  moreover have "settled clock (?f\<lparr>ct_requesting := False\<rparr>) = settled clock ?f" by (simp add: settled_def)
  ultimately have "settled clock (handleStreamError t clock eager g err code st) = evaluate_updates clock g [?u] (settled clock ?f)"
    by (simp add: handleStreamError_def settled_onMessageUpdate)
  with m g flushed show ?thesis
    by (cases "settled clock ?f")
      (auto simp: holding_def handleStreamError_def receiving_def failed_with_def streamed_def updateAssistantMessageWithError_def
        updateLastAssistantMessage_def completeAssistantTiming_def getMessageContent_def getCurrentVersion_def updateCurrentVersionContent_def
        Let_def split: option.splits)
qed

text \<open>
  C21.  A stream that fails leaves its message with the error and nothing overwrites it: after a message is submitted and
  some of its stream has arrived, an error of the stream shows as the translated title and text with the error code,
  whatever chunks, completions, timers and renders still follow.
\<close>

theorem failed_stream_reported:
  assumes "cfg_stream (en_config env)" "g = Suc (ct_generation st)" "list_all (undisturbed g) es" "list_all (after_failure g) es'"
  shows "\<exists>m. ct_rendered (run_machine (chat_step t clock) st
        (SubmitMessage eager env body # es @ StreamError eager' g err code # es' @ [Render]))
      = ct_rendered st @ [createUserMessage (fst (en_ids env)) body (en_now env), m]
    \<and> failed_with (fst (snd (en_ids env))) (case code of Some c \<Rightarrow> if c = [] then None else Some c | None \<Rightarrow> None)
        (t API_REQUEST_ERROR @ js '': '' @ getDisplayError t err) m"
proof -
  let ?s = "run_machine (chat_step t clock) (chat_step t clock st (SubmitMessage eager env body)) es"
  let ?r = "run_machine (chat_step t clock) (chat_step t clock ?s (StreamError eager' g err code)) es'"
  let ?ms = "ct_rendered st @ [createUserMessage (fst (en_ids env)) body (en_now env)]"
  have "receiving clock g ?ms (fst (snd (en_ids env))) ([] @ delivered g ContentChunk es) ([] @ delivered g ReasoningChunk es) ?s"
    using receiving_run[OF receiving_start[OF assms(1)]] assms(2,3) by simp
  from holding_run[OF receiving_fails[OF this] assms(4)]
  have "holding clock g ?ms (failed_with (fst (snd (en_ids env))) (case code of Some c \<Rightarrow> if c = [] then None else Some c | None \<Rightarrow> None)
      (t API_REQUEST_ERROR @ js '': '' @ getDisplayError t err)) ?r" by simp
  then show ?thesis by (auto simp: holding_def run_machine_append render_def drained_settled Let_def)
qed

theorem failed_stream_reported_witness:
  "\<exists>m. ct_rendered (run_machine (chat_step (\<lambda>s. s) (\<lambda>k i. Fin (rat_of_nat (k + i)))) initial_chat
        (SubmitMessage True chat_sample_env (js ''hello'') # [StreamUpdate 1 ContentChunk (js ''hi'')]
          @ StreamError (False, True) 1 PARSE_ERROR None # [StreamUpdate 1 ContentChunk (js ''!''), StreamComplete (False, False) 1] @ [Render]))
      = ct_rendered initial_chat @ [createUserMessage (fst (en_ids chat_sample_env)) (js ''hello'') (en_now chat_sample_env), m]
    \<and> failed_with (js ''a'') None (API_REQUEST_ERROR @ js '': '' @ PARSE_ERROR) m"
proof -
  have "cfg_stream (en_config chat_sample_env)" "fst (snd (en_ids chat_sample_env)) = js ''a''" by (simp_all add: chat_sample_env_def)
  moreover have "getDisplayError (\<lambda>s. s) PARSE_ERROR = PARSE_ERROR" by (simp add: getDisplayError_def KNOWN_ERROR_MESSAGES_def)
  ultimately show ?thesis
    using failed_stream_reported[of chat_sample_env 1 initial_chat "[StreamUpdate 1 ContentChunk (js ''hi'')]"
      "[StreamUpdate 1 ContentChunk (js ''!''), StreamComplete (False, False) 1]" "\<lambda>s. s" "\<lambda>k i. Fin (rat_of_nat (k + i))" True "js ''hello''"
      "(False, True)" PARSE_ERROR None]
    by (simp add: initial_chat_def del: run_machine.simps)
qed

text \<open>The events of requests other than that of generation \<open>g\<close>, with timers and renders.\<close>

fun foreign :: "nat \<Rightarrow> chat_event \<Rightarrow> bool" where
  "foreign g (StreamUpdate h _ _) = (h \<noteq> g)"
| "foreign g e = undisturbed g e"

definition idle :: "(nat \<Rightarrow> nat \<Rightarrow> number) \<Rightarrow> nat \<Rightarrow> nat \<times> Message list \<Rightarrow> chat \<Rightarrow> bool" where
  "idle clock g s st \<longleftrightarrow> ct_generation st = g \<and> ct_timer st = None \<and> \<not> ct_requesting st \<and> settled clock st = s"

lemma idle_step:
  assumes "idle clock g s st" "foreign g e"
  shows "idle clock g s (chat_step t clock st e)"
  using assms
  by (cases e) (auto simp: idle_def handleStreamUpdate_def handleStreamComplete_def handleStreamError_def timer_fires_def request_responds_def
      request_fails_def request_finally_def render_def drained_settled settled_def Let_def)

lemma idle_run: "idle clock g s st \<Longrightarrow> list_all (foreign g) es \<Longrightarrow> idle clock g s (run_machine (chat_step t clock) st es)"
  by (induction es arbitrary: st) (auto intro: idle_step)

lemma stop_idle: "idle clock (Suc (ct_generation st)) (settled clock (stopGeneration clock eager st)) (stopGeneration clock eager st)"
  by (simp add: idle_def stopGeneration_def discardPendingStreamUpdates_def abort_request_def Let_def)
    (simp add: onMessageUpdate_def run_update_def)

lemma stopped_not_pending:
  "snd (settled clock (stopGeneration clock eager st)) = ms \<Longrightarrow> ms \<noteq> [] \<Longrightarrow> \<not> isPendingAssistantMessage (last ms)"
  by (auto simp: stopGeneration_def settled_onMessageUpdate Let_def discardPendingStreamUpdates_def abort_request_def evaluate_updates_def split_beta
      updateLastAssistantMessage_def isPendingAssistantMessage_def isAssistantMessagePending_def completeAssistantMessage_def
      split: if_splits)

text \<open>
  C23.  Stopping is final.  In any state, after the user stops the generation the chat is not requesting, the last
  assistant message is not pending, and no late event of an earlier request changes the conversation any more.
\<close>

theorem stopped_generation_final:
  assumes "list_all (foreign (Suc (ct_generation st))) es"
  shows "let st' = run_machine (chat_step t clock) st (StopGeneration eager # es @ [Render]) in
    ct_rendered st' = ct_rendered (run_machine (chat_step t clock) st [StopGeneration eager, Render])
    \<and> \<not> ct_requesting st' \<and> (ct_rendered st' \<noteq> [] \<longrightarrow> \<not> isPendingAssistantMessage (last (ct_rendered st')))"
proof -
  let ?s = "settled clock (stopGeneration clock eager st)"
  have "idle clock (Suc (ct_generation st)) ?s (run_machine (chat_step t clock) (stopGeneration clock eager st) es)"
    by (rule idle_run[OF stop_idle assms])
  then show ?thesis using stopped_not_pending[OF refl]
    by (simp add: Let_def run_machine_append render_def drained_settled idle_def)
qed

lemma sample_submitted: "ct_generation (chat_step t clock initial_chat (SubmitMessage True chat_sample_env body)) = 1"
  by (simp add: handleSendMessage_def send_messages_def sendChat_def sendStreamingChat_def discardPendingStreamUpdates_def abort_request_def
      chat_sample_env_def initial_chat_def Let_def)

theorem stopped_generation_final_witness:
  "let st = chat_step (\<lambda>s. s) (\<lambda>k i. Fin (rat_of_nat (k + i))) initial_chat (SubmitMessage True chat_sample_env (js ''hello''));
       st' = run_machine (chat_step (\<lambda>s. s) (\<lambda>k i. Fin (rat_of_nat (k + i)))) st
        (StopGeneration (False, False) # [StreamUpdate 1 ContentChunk (js ''late''), StreamComplete (True, False) 1] @ [Render]) in
    ct_rendered st' = ct_rendered (run_machine (chat_step (\<lambda>s. s) (\<lambda>k i. Fin (rat_of_nat (k + i)))) st [StopGeneration (False, False), Render])
    \<and> \<not> ct_requesting st' \<and> (ct_rendered st' \<noteq> [] \<longrightarrow> \<not> isPendingAssistantMessage (last (ct_rendered st')))"
  unfolding Let_def by (rule stopped_generation_final[unfolded Let_def]) (simp add: sample_submitted del: chat_step.simps)

text \<open>The chunks that a stop flushes are lost when React evaluates their updater later: it then meets the new generation.\<close>

lemma stop_loses_text:
  "map getMessageContent (ct_rendered (run_machine (chat_step (\<lambda>s. s) (\<lambda>k i. Fin (rat_of_nat (k + i)))) initial_chat
     [SubmitMessage True chat_sample_env (js ''hello''), Render, StreamUpdate 1 ContentChunk (js ''hi''), StopGeneration (False, False), Render]))
   = [js ''hello'', []]"
  "map getMessageContent (ct_rendered (run_machine (chat_step (\<lambda>s. s) (\<lambda>k i. Fin (rat_of_nat (k + i)))) initial_chat
     [SubmitMessage True chat_sample_env (js ''hello''), Render, StreamUpdate 1 ContentChunk (js ''hi''), StopGeneration (True, True), Render]))
   = [js ''hello'', js ''hi'']"
  by (simp_all add: initial_chat_def chat_sample_env_def handleSendMessage_def send_messages_def sendChat_def sendStreamingChat_def
      abort_request_def discardPendingStreamUpdates_def onMessageUpdate_def run_update_def appendUserMessagePair_def render_def drained_def
      handleStreamUpdate_def scheduleStreamFlush_def appendStreamDelta_def stopGeneration_def flushStreamUpdates_def
      updateLastAssistantMessage_def createLoadingAssistantMessage_def createUserMessage_def createMessageVersion_def
      applyStreamingChunk_def processStreamingContent_def has_think_def open_tag_def getCurrentVersion_def updateCurrentVersionContent_def
      isAssistantMessagePending_def completeAssistantMessage_def finalizeMessage_def completeReasoningTiming_def reasoning_text_def
      text_or_else_def completeAssistantTiming_def getMessageContent_def js_or_def starts_with_iff Let_def)

text \<open>
  Reasoning that was shown stays when the whole content encloses none.  It happens with an empty thinking block whose
  closing tag arrives in two pieces: the first piece of the tag is taken for reasoning.
\<close>

lemma shown_reasoning_stays:
  "tag_reasoning (parseThinkTags (getMessageContent m @ chunk)) = [] \<Longrightarrow> reasoning_text (processStreamingContent now m chunk) = reasoning_text m"
  by (simp add: processStreamingContent_def appendStreamDelta_def getMessageContent_def reasoning_text_def Let_def)

lemma split_tag_samples:
  "tag_reasoning (parseThinkTags (js ''<think></thin'')) = js ''</thin''"
  "tag_reasoning (parseThinkTags (js ''<think></thin'' @ js ''k>ok'')) = []"
  by (simp_all add: parseThinkTags_def think_loop.simps has_think_def open_tag_def close_tag_def starts_with_iff js_trim_def trim_start_def is_space_def)

end
