(* ===== verification/PlaygroundSession.thy ===== *)
theory PlaygroundSession
  imports PlaygroundChat
begin

text \<open>
  The chat handler together with its stream controller, as \<open>useChatHandler\<close> composes them: a streaming send and
  \<open>stopStream\<close> reach the controller, and the callbacks of a send carry the generation of the handler they close over.
\<close>

section \<open>Composition\<close>

record playground =
  pl_chat :: chat
  pl_stream :: stream_controller
  pl_bound :: "(nat \<times> nat) list"

datatype playground_event = HandlerEvent chat_event | SourceEvent "bool \<times> bool" stream_event

fun callback_event :: "bool \<times> bool \<Rightarrow> nat \<Rightarrow> stream_callback \<Rightarrow> chat_event" where
  "callback_event eager generation (OnUpdate type chunk) = StreamUpdate generation type chunk"
| "callback_event eager generation OnComplete = StreamComplete eager generation"
| "callback_event eager generation (OnError err errorCode) = StreamError eager generation err errorCode"

text \<open>The callbacks of the send \<open>g\<close> of the controller are bound to a generation of the handler.\<close>

definition deliver_callback :: "(jsstr \<Rightarrow> jsstr) \<Rightarrow> (nat \<Rightarrow> nat \<Rightarrow> number) \<Rightarrow> bool \<times> bool \<Rightarrow> nat \<times> stream_callback \<Rightarrow> playground \<Rightarrow> playground" where
  "deliver_callback t clock eager gc pl = (case map_of (pl_bound pl) (fst gc) of
       None \<Rightarrow> pl
     | Some generation \<Rightarrow> pl\<lparr>pl_chat := chat_step t clock (pl_chat pl) (callback_event eager generation (snd gc))\<rparr>)"

fun from_stream :: "chat_event \<Rightarrow> bool" where
  "from_stream (StreamUpdate _ _ _) = True"
| "from_stream (StreamComplete _ _) = True"
| "from_stream (StreamError _ _ _ _) = True"
| "from_stream _ = False"

text \<open>The call of the controller that a handler event makes: \<open>sendStreamRequest\<close>, \<open>stopStream\<close> or the clean-up.\<close>

definition controller_call :: "chat \<Rightarrow> chat_event \<Rightarrow> chat \<Rightarrow> stream_event option" where
  "controller_call before e after =
     (if length (ct_sent before) < length (ct_sent after)
      then Some (if req_stream (snd (last (ct_sent after))) then Send else Stop)
      else case e of StopGeneration _ \<Rightarrow> Some Stop | Unmount \<Rightarrow> Some Dispose | _ \<Rightarrow> None)"

fun playground_step :: "(jsstr \<Rightarrow> jsstr) \<Rightarrow> (nat \<Rightarrow> nat \<Rightarrow> number) \<Rightarrow> playground \<Rightarrow> playground_event \<Rightarrow> playground" where
  "playground_step t clock pl (HandlerEvent e) =
     (if from_stream e then pl
      else let after = chat_step t clock (pl_chat pl) e in
        (case controller_call (pl_chat pl) e after of
           None \<Rightarrow> pl\<lparr>pl_chat := after\<rparr>
         | Some call \<Rightarrow>
             let stream' = stream_step (pl_stream pl) call in
             pl\<lparr>pl_chat := after, pl_stream := stream',
               pl_bound := (if call = Send then (sc_generation stream', ct_generation after) # pl_bound pl else pl_bound pl)\<rparr>))"
| "playground_step t clock pl (SourceEvent eager e) =
     (if e \<in> {Send, Stop, Dispose} then pl
      else let stream' = stream_step (pl_stream pl) e in
        fold (deliver_callback t clock eager) (drop (length (sc_log (pl_stream pl))) (sc_log stream')) (pl\<lparr>pl_stream := stream'\<rparr>))"

definition isGenerating :: "playground \<Rightarrow> bool" where
  "isGenerating pl \<longleftrightarrow> sc_streaming (pl_stream pl) \<or> ct_requesting (pl_chat pl)"

definition initial_playground :: playground where
  "initial_playground = \<lparr>pl_chat = initial_chat, pl_stream = createStreamRequestController, pl_bound = []\<rparr>"

section \<open>The controller in every run\<close>

lemma deliver_simps [simp]:
  "pl_stream (deliver_callback t clock eager gc pl) = pl_stream pl" "pl_bound (deliver_callback t clock eager gc pl) = pl_bound pl"
  by (simp_all add: deliver_callback_def split: option.split)

lemma deliver_fold [simp]:
  "pl_stream (fold (deliver_callback t clock eager) gcs pl) = pl_stream pl" "pl_bound (fold (deliver_callback t clock eager) gcs pl) = pl_bound pl"
  by (induction gcs arbitrary: pl) simp_all

lemma deliver_chat:
  "list_all (\<lambda>gc. fst gc = g) gcs \<Longrightarrow> map_of (pl_bound pl) g = Some h \<Longrightarrow>
    pl_chat (fold (deliver_callback t clock eager) gcs pl) = run_machine (chat_step t clock) (pl_chat pl) (map (callback_event eager h \<circ> snd) gcs)"
  by (induction gcs arbitrary: pl) (auto simp: deliver_callback_def)

interpretation session: guarded_machine "playground_step t clock" initial_playground "\<lambda>pl. stream_inv (pl_stream pl)" for t clock
proof
  show "stream_inv (pl_stream initial_playground)" using stream.inv_init by (simp add: initial_playground_def)
  fix pl :: playground and e
  assume "stream_inv (pl_stream pl)"
  then show "stream_inv (pl_stream (playground_step t clock pl e))"
    by (cases e) (auto simp: Let_def stream_step_inv split: option.split)
qed

section \<open>A stream under way\<close>

text \<open>The events that neither touch the request nor come from its source, and those of a stream under way.\<close>

fun bystander :: "nat \<Rightarrow> nat \<Rightarrow> nat \<Rightarrow> playground_event \<Rightarrow> bool" where
  "bystander g h i (HandlerEvent e) = (undisturbed h e \<and> \<not> from_stream e)"
| "bystander g h i (SourceEvent _ (HeadersReady k _)) = (k \<noteq> g)"
| "bystander g h i (SourceEvent _ (HeadersFailed k _)) = (k \<noteq> g)"
| "bystander g h i (SourceEvent _ (SourceMessage j _)) = (j \<noteq> i)"
| "bystander g h i (SourceEvent _ (SourceError j _ _ _)) = (j \<noteq> i)"
| "bystander g h i (SourceEvent _ (SourceReadyState j _ _ _)) = (j \<noteq> i)"
| "bystander g h i (SourceEvent _ _) = False"

fun in_stream :: "nat \<Rightarrow> playground_event \<Rightarrow> bool" where
  "in_stream i (SourceEvent _ (SourceMessage j (Some data))) = (j = i \<and> \<not> isStreamDoneMessage data \<and> parseStreamMessageUpdates data \<noteq> None)"
| "in_stream i (SourceEvent _ (SourceReadyState j eventReadyState readyState status)) =
     (j = i \<and> getStreamReadyStateError (js_or eventReadyState readyState) status = None)"
| "in_stream i _ = False"

text \<open>What an event tells the handler, and the text of one type that the source \<open>i\<close> delivers.\<close>

fun handler_events :: "nat \<Rightarrow> nat \<Rightarrow> playground_event \<Rightarrow> chat_event list" where
  "handler_events h i (HandlerEvent e) = [e]"
| "handler_events h i (SourceEvent _ (SourceMessage j (Some data))) =
     (if j = i then (case parseStreamMessageUpdates data of
        Some updates \<Rightarrow> map (\<lambda>(type, chunk). StreamUpdate h type chunk) updates | None \<Rightarrow> []) else [])"
| "handler_events h i _ = []"

fun source_text :: "nat \<Rightarrow> StreamChunkType \<Rightarrow> playground_event list \<Rightarrow> jsstr" where
  "source_text i type [] = []"
| "source_text i type (SourceEvent _ (SourceMessage j (Some data)) # es) =
     (if j = i then (case parseStreamMessageUpdates data of
        Some updates \<Rightarrow> concat (map (\<lambda>(ty, chunk). if ty = type then chunk else []) updates) | None \<Rightarrow> []) else []) @ source_text i type es"
| "source_text i type (_ # es) = source_text i type es"

lemma delivered_append: "delivered h type (es @ fs) = delivered h type es @ delivered h type fs"
  by (induction h type es rule: delivered.induct) simp_all

lemma delivered_updates:
  "delivered h type (map (\<lambda>(ty, chunk). StreamUpdate h ty chunk) us) = concat (map (\<lambda>(ty, chunk). if ty = type then chunk else []) us)"
  by (induction us) auto

lemma delivered_other: "\<not> from_stream e \<Longrightarrow> delivered h type [e] = []"
  by (cases e) simp_all

lemma source_text_Cons: "source_text i type (e # es) = source_text i type [e] @ source_text i type es"
  by (cases "(i, type, e # es)" rule: source_text.cases) simp_all

lemma delivered_event:
  assumes "bystander g h i e \<or> in_stream i e"
  shows "delivered h type (handler_events h i e) = source_text i type [e]"
proof (cases e)
  case (HandlerEvent c)
  with assms show ?thesis by (simp add: delivered_other)
next
  case (SourceEvent eager c)
  show ?thesis
  proof (cases c)
    case (SourceMessage j data)
    with SourceEvent show ?thesis by (cases data) (simp_all add: delivered_updates split: option.split)
  qed (simp_all add: SourceEvent)
qed

lemma delivered_source:
  "list_all (\<lambda>e. bystander g h i e \<or> in_stream i e) es \<Longrightarrow>
    delivered h type (concat (map (handler_events h i) es)) = source_text i type es"
proof (induction es)
  case (Cons e es)
  then show ?case using delivered_event[of g h i e type] source_text_Cons[of i type e es] by (simp add: delivered_append)
qed simp

text \<open>
  The request that the controller knows as send \<open>g\<close> and the handler as generation \<open>h\<close>, before its source is opened and
  while its source is \<open>i\<close>.
\<close>

definition bound_request :: "nat \<Rightarrow> nat \<Rightarrow> playground \<Rightarrow> bool" where
  "bound_request g h pl \<longleftrightarrow> stream_inv (pl_stream pl) \<and> sc_generation (pl_stream pl) = g \<and> map_of (pl_bound pl) g = Some h"

definition awaiting_source :: "nat \<Rightarrow> nat \<Rightarrow> nat \<Rightarrow> playground \<Rightarrow> bool" where
  "awaiting_source g h i pl \<longleftrightarrow> bound_request g h pl \<and> sc_source (pl_stream pl) = None \<and> g \<in> set (sc_waiting (pl_stream pl))
     \<and> length (sc_listeners (pl_stream pl)) = i"

definition reading :: "nat \<Rightarrow> nat \<Rightarrow> nat \<Rightarrow> playground \<Rightarrow> bool" where
  "reading g h i pl \<longleftrightarrow> bound_request g h pl \<and> sc_source (pl_stream pl) = Some i"

lemma undisturbed_keeps:
  assumes "undisturbed h e" "\<not> from_stream e"
  shows "ct_sent (chat_step t clock st e) = ct_sent st" "controller_call st e (chat_step t clock st e) = None"
proof -
  show sent: "ct_sent (chat_step t clock st e) = ct_sent st"
    using assms by (cases e) (auto simp: timer_fires_def flushStreamUpdates_def onMessageUpdate_def run_update_def request_responds_def
        request_fails_def request_finally_def handleStreamError_def render_def drained_settled Let_def split: option.split prod.split)
  show "controller_call st e (chat_step t clock st e) = None"
    unfolding controller_call_def sent using assms by (cases e) simp_all
qed

text \<open>All a bystander can change of the controller is that another send no longer waits for its headers.\<close>

fun waiting_after :: "playground_event \<Rightarrow> nat list \<Rightarrow> nat list" where
  "waiting_after (SourceEvent _ (HeadersReady k _)) ws = remove1 k ws"
| "waiting_after (SourceEvent _ (HeadersFailed k _)) ws = remove1 k ws"
| "waiting_after _ ws = ws"

lemma bystander_stream:
  assumes "bystander g h i (SourceEvent eager e)" "stream_inv s" "sc_source s = None \<or> sc_source s = Some i" "sc_generation s = g"
  shows "stream_step s e = s\<lparr>sc_waiting := waiting_after (SourceEvent eager e) (sc_waiting s)\<rparr>"
proof (cases e)
  case (HeadersReady k throws)
  with assms show ?thesis by (simp add: headers_ready_def remove1_idem Let_def)
next
  case (HeadersFailed k err)
  with assms show ?thesis by (simp add: headers_failed_def remove1_idem Let_def)
qed (use assms in \<open>auto simp: on_message_def on_source_error_def on_readystatechange_def listens_source\<close>)

lemma bystander_step:
  assumes "bystander g h i e" "bound_request g h pl" "sc_source (pl_stream pl) = None \<or> sc_source (pl_stream pl) = Some i"
  shows "playground_step t clock pl e = pl\<lparr>pl_chat := run_machine (chat_step t clock) (pl_chat pl) (handler_events h i e),
    pl_stream := (pl_stream pl)\<lparr>sc_waiting := waiting_after e (sc_waiting (pl_stream pl))\<rparr>\<rparr>"
proof (cases e)
  case (HandlerEvent c)
  then show ?thesis using assms(1) undisturbed_keeps(2)[of h c] by (simp add: Let_def)
next
  case (SourceEvent eager c)
  have "stream_step (pl_stream pl) c = (pl_stream pl)\<lparr>sc_waiting := waiting_after e (sc_waiting (pl_stream pl))\<rparr>"
    unfolding SourceEvent by (rule bystander_stream) (use assms SourceEvent in \<open>simp_all add: bound_request_def\<close>)
  moreover have "c \<notin> {Send, Stop, Dispose}" using assms(1) SourceEvent by auto
  moreover have "handler_events h i e = []"
    using assms(1) SourceEvent by (cases "(h, i, e)" rule: handler_events.cases) simp_all
  ultimately show ?thesis using SourceEvent by (simp add: Let_def)
qed

lemma waiting_kept: "bystander g h i e \<Longrightarrow> g \<in> set ws \<Longrightarrow> g \<in> set (waiting_after e ws)"
  by (cases "(e, ws)" rule: waiting_after.cases) auto

lemma bound_request_step:
  assumes "bound_request g h pl" "sc_generation (pl_stream (playground_step t clock pl e)) = g" "pl_bound (playground_step t clock pl e) = pl_bound pl"
  shows "bound_request g h (playground_step t clock pl e)"
  using assms session.inv_step[of pl t clock e] by (simp add: bound_request_def)

lemma awaiting_step:
  assumes "awaiting_source g h i pl" "bystander g h i e"
  shows "awaiting_source g h i (playground_step t clock pl e)"
    "pl_chat (playground_step t clock pl e) = run_machine (chat_step t clock) (pl_chat pl) (handler_events h i e)"
proof -
  note step = bystander_step[OF assms(2), of pl t clock]
  show "awaiting_source g h i (playground_step t clock pl e)"
    "pl_chat (playground_step t clock pl e) = run_machine (chat_step t clock) (pl_chat pl) (handler_events h i e)"
    using assms(1) step waiting_kept[OF assms(2)] bound_request_step[of g h pl t clock e]
    by (simp_all add: awaiting_source_def) (simp add: bound_request_def)
qed

lemma fold_call_back:
  "fold (\<lambda>(type, chunk). call_back g (OnUpdate type chunk)) us s
    = s\<lparr>sc_log := sc_log s @ map (\<lambda>(type, chunk). (g, OnUpdate type chunk)) us\<rparr>"
  by (induction us arbitrary: s) (auto simp: call_back_def)

lemma source_delivers:
  assumes "bound_request g h pl" "c \<notin> {Send, Stop, Dispose}" "sc_log (stream_step (pl_stream pl) c) = sc_log (pl_stream pl) @ gcs"
    "list_all (\<lambda>gc. fst gc = g) gcs"
  shows "pl_chat (playground_step t clock pl (SourceEvent eager c))
      = run_machine (chat_step t clock) (pl_chat pl) (map (callback_event eager h \<circ> snd) gcs)"
    "pl_stream (playground_step t clock pl (SourceEvent eager c)) = stream_step (pl_stream pl) c"
    "pl_bound (playground_step t clock pl (SourceEvent eager c)) = pl_bound pl"
  using assms deliver_chat[OF assms(4), of "pl\<lparr>pl_stream := stream_step (pl_stream pl) c\<rparr>" h]
  by (simp_all add: bound_request_def Let_def)

lemma reading_step:
  assumes "reading g h i pl" "bystander g h i e \<or> in_stream i e"
  shows "reading g h i (playground_step t clock pl e)"
    "pl_chat (playground_step t clock pl e) = run_machine (chat_step t clock) (pl_chat pl) (handler_events h i e)"
proof -
  have inv: "stream_inv (pl_stream pl)" "sc_generation (pl_stream pl) = g" "sc_source (pl_stream pl) = Some i" and bound: "bound_request g h pl"
    using assms(1) by (simp_all add: reading_def bound_request_def)
  then have gen: "li_generation (sc_listeners (pl_stream pl) ! i) = g" by (simp add: stream_inv_def)
  have "reading g h i (playground_step t clock pl e)
    \<and> pl_chat (playground_step t clock pl e) = run_machine (chat_step t clock) (pl_chat pl) (handler_events h i e)"
  proof (cases "bystander g h i e")
    case True
    from bystander_step[OF this bound, of t clock] inv(3) bound_request_step[OF bound, of t clock e] inv(2) show ?thesis
      by (simp add: reading_def)
  next
    case False
    with assms(2) have "in_stream i e" by simp
    then show ?thesis
    proof (cases "(i, e)" rule: in_stream.cases)
      case (1 i' eager j data)
      then obtain us where us: "e = SourceEvent eager (SourceMessage i (Some data))" "parseStreamMessageUpdates data = Some us"
        "\<not> isStreamDoneMessage data" using \<open>in_stream i e\<close> by auto
      have "stream_step (pl_stream pl) (SourceMessage i (Some data))
          = (pl_stream pl)\<lparr>sc_log := sc_log (pl_stream pl) @ map (\<lambda>(type, chunk). (g, OnUpdate type chunk)) us\<rparr>"
        using us inv gen by (simp add: on_message_def listens_source fold_call_back)
      moreover have "list_all (\<lambda>gc. fst gc = g) (map (\<lambda>(type, chunk). (g, OnUpdate type chunk)) us)" by (auto simp: list_all_iff)
      moreover have "map (callback_event eager h \<circ> snd) (map (\<lambda>(type, chunk). (g, OnUpdate type chunk)) us) = handler_events h i e"
        using us by auto
      ultimately show ?thesis unfolding us(1)
        using source_delivers[OF bound, of "SourceMessage i (Some data)" "map (\<lambda>(type, chunk). (g, OnUpdate type chunk)) us" t clock eager]
          bound_request_step[OF bound, of t clock e] inv(2,3) us(1)
        by (simp add: reading_def del: playground_step.simps stream_step.simps map_map handler_events.simps)
    next
      case (2 i' eager j eventReadyState readyState status)
      then have "stream_step (pl_stream pl) (SourceReadyState j eventReadyState readyState status) = pl_stream pl"
        using \<open>in_stream i e\<close> by (simp add: on_readystatechange_def)
      with 2 assms(1) show ?thesis by (simp add: Let_def)
    qed (use \<open>in_stream i e\<close> in simp_all)
  qed
  then show "reading g h i (playground_step t clock pl e)"
    "pl_chat (playground_step t clock pl e) = run_machine (chat_step t clock) (pl_chat pl) (handler_events h i e)" by simp_all
qed

lemma awaiting_run:
  "awaiting_source g h i pl \<Longrightarrow> list_all (bystander g h i) es \<Longrightarrow>
    awaiting_source g h i (run_machine (playground_step t clock) pl es)
    \<and> pl_chat (run_machine (playground_step t clock) pl es)
      = run_machine (chat_step t clock) (pl_chat pl) (concat (map (handler_events h i) es))"
proof (induction es arbitrary: pl)
  case (Cons e es)
  from Cons.prems awaiting_step[of g h i pl e t clock] have
    "awaiting_source g h i (playground_step t clock pl e)"
    "pl_chat (playground_step t clock pl e) = run_machine (chat_step t clock) (pl_chat pl) (handler_events h i e)" by simp_all
  with Cons.IH[OF this(1)] Cons.prems(2) show ?case by (simp add: run_machine_append)
qed simp

lemma reading_run:
  "reading g h i pl \<Longrightarrow> list_all (\<lambda>e. bystander g h i e \<or> in_stream i e) es \<Longrightarrow>
    reading g h i (run_machine (playground_step t clock) pl es)
    \<and> pl_chat (run_machine (playground_step t clock) pl es)
      = run_machine (chat_step t clock) (pl_chat pl) (concat (map (handler_events h i) es))"
proof (induction es arbitrary: pl)
  case (Cons e es)
  from Cons.prems reading_step[of g h i pl e t clock] have
    "reading g h i (playground_step t clock pl e)"
    "pl_chat (playground_step t clock pl e) = run_machine (chat_step t clock) (pl_chat pl) (handler_events h i e)" by simp_all
  with Cons.IH[OF this(1)] Cons.prems(2) show ?case by (simp add: run_machine_append)
qed simp

lemma source_opens:
  assumes "awaiting_source g h i pl"
  shows "reading g h i (playground_step t clock pl (SourceEvent eager (HeadersReady g False)))"
    "pl_chat (playground_step t clock pl (SourceEvent eager (HeadersReady g False))) = pl_chat pl"
proof -
  have bound: "bound_request g h pl" and s: "sc_generation (pl_stream pl) = g" "g \<in> set (sc_waiting (pl_stream pl))"
    "length (sc_listeners (pl_stream pl)) = i"
    using assms by (simp_all add: awaiting_source_def bound_request_def)
  note deliver_callback = source_delivers[OF bound, of "HeadersReady g False" "[]" t clock eager]
  from s deliver_callback show "pl_chat (playground_step t clock pl (SourceEvent eager (HeadersReady g False))) = pl_chat pl"
    by (simp add: headers_ready_def Let_def)
  show "reading g h i (playground_step t clock pl (SourceEvent eager (HeadersReady g False)))"
    using s deliver_callback bound_request_step[OF bound, of t clock "SourceEvent eager (HeadersReady g False)"]
    by (simp add: reading_def headers_ready_def Let_def)
qed

lemma source_completes:
  assumes "reading g h i pl"
  shows "pl_chat (playground_step t clock pl (SourceEvent eager (SourceMessage i (Some STREAM_DONE_MESSAGE))))
    = chat_step t clock (pl_chat pl) (StreamComplete eager h)"
proof -
  have inv: "stream_inv (pl_stream pl)" "sc_generation (pl_stream pl) = g" "sc_source (pl_stream pl) = Some i" and bound: "bound_request g h pl"
    using assms by (simp_all add: reading_def bound_request_def)
  then have "li_generation (sc_listeners (pl_stream pl) ! i) = g" by (simp add: stream_inv_def)
  with inv have "sc_log (stream_step (pl_stream pl) (SourceMessage i (Some STREAM_DONE_MESSAGE))) = sc_log (pl_stream pl) @ [(g, OnComplete)]"
    by (simp add: on_message_def listens_source isStreamDoneMessage_def call_back_def closeActiveSource_def set_completed_def Let_def)
  from source_delivers(1)[OF bound _ this] show ?thesis by simp
qed

lemma request_starts:
  assumes "stream_inv (pl_stream pl)" "cfg_stream (en_config env)"
  shows "awaiting_source (Suc (sc_generation (pl_stream pl))) (Suc (ct_generation (pl_chat pl))) (length (sc_listeners (pl_stream pl)))
      (playground_step t clock pl (HandlerEvent (SubmitMessage eager env body)))"
    "pl_chat (playground_step t clock pl (HandlerEvent (SubmitMessage eager env body))) = chat_step t clock (pl_chat pl) (SubmitMessage eager env body)"
proof -
  let ?c = "chat_step t clock (pl_chat pl) (SubmitMessage eager env body)"
  have sent: "\<exists>q. ct_sent ?c = ct_sent (pl_chat pl) @ [(Suc (ct_generation (pl_chat pl)), q)] \<and> req_stream q"
    "ct_generation ?c = Suc (ct_generation (pl_chat pl))"
    using assms(2) by (simp_all add: handleSendMessage_def send_messages_def sendChat_def sendStreamingChat_def discardPendingStreamUpdates_def
        abort_request_def buildChatCompletionPayload_def onMessageUpdate_def run_update_def Let_def)
  then have call: "controller_call (pl_chat pl) (SubmitMessage eager env body) ?c = Some Send" by (auto simp: controller_call_def)
  then have step: "playground_step t clock pl (HandlerEvent (SubmitMessage eager env body)) = pl\<lparr>pl_chat := ?c, pl_stream := send (pl_stream pl),
      pl_bound := (sc_generation (send (pl_stream pl)), Suc (ct_generation (pl_chat pl))) # pl_bound pl\<rparr>"
    using sent(2) by (simp add: Let_def del: chat_step.simps)
  then show "pl_chat (playground_step t clock pl (HandlerEvent (SubmitMessage eager env body))) = ?c" by simp
  show "awaiting_source (Suc (sc_generation (pl_stream pl))) (Suc (ct_generation (pl_chat pl))) (length (sc_listeners (pl_stream pl)))
      (playground_step t clock pl (HandlerEvent (SubmitMessage eager env body)))"
    unfolding step using send_inv[OF assms(1)] by (simp add: awaiting_source_def bound_request_def send_def drop_source_def)
qed

lemma handler_events_undisturbed:
  assumes "list_all (\<lambda>e. bystander g h i e \<or> in_stream i e) es"
  shows "list_all (undisturbed h) (concat (map (handler_events h i) es))"
proof -
  have "list_all (undisturbed h) (handler_events h i e)" if "bystander g h i e \<or> in_stream i e" for e
  proof (cases e)
    case (HandlerEvent c)
    with that show ?thesis by simp
  next
    case (SourceEvent eager c)
    show ?thesis
    proof (cases c)
      case (SourceMessage j data)
      have "list_all (undisturbed h) (map (\<lambda>(type, chunk). StreamUpdate h type chunk) us)" for us by (induction us) auto
      with SourceEvent SourceMessage show ?thesis by (cases data; cases "parseStreamMessageUpdates (the data)") simp_all
    qed (simp_all add: SourceEvent)
  qed
  with assms show ?thesis by (fastforce simp: list_all_iff)
qed

lemma bystander_text: "list_all (bystander g h i) es \<Longrightarrow> source_text i type es = []"
  by (induction i type es rule: source_text.induct) simp_all

text \<open>
  C4.  A streamed answer from the wire to the screen.  From every reachable state of the playground with streaming turned
  on: the user submits a message, the headers of the request arrive, and its event source sends chunks that parse and
  then \<open>[DONE]\<close>.  In whatever way this interleaves with timers, renders, the editor and events of other requests and
  sources (but no stop, new submission or other change of the conversation), the conversation ends with the user's
  message and an assistant message that shows the content, the reasoning and the status that one response with the
  joined texts of the chunks would show.  This is for joined content without the tag \<open><think>\<close>, or for a stream without
  reasoning chunks whose joined content encloses a reasoning that is not empty.  Outside these cases the two messages
  can differ, see \<open>shown_reasoning_stays\<close> and \<open>split_tag_samples\<close>.
\<close>

theorem streamed_answer_shown:
  fixes t clock before
  defines "pl \<equiv> run_machine (playground_step t clock) initial_playground before"
  defines "g \<equiv> Suc (sc_generation (pl_stream pl))" and "h \<equiv> Suc (ct_generation (pl_chat pl))" and "i \<equiv> length (sc_listeners (pl_stream pl))"
  assumes "cfg_stream (en_config env)"
    and "list_all (bystander g h i) es" "list_all (\<lambda>e. bystander g h i e \<or> in_stream i e) es'"
    and "content = source_text i ContentChunk es'" "reasoning = source_text i ReasoningChunk es'"
    and "\<not> has_think content \<or> reasoning = [] \<and> tag_reasoning (parseThinkTags content) \<noteq> []"
  shows "\<exists>m. ct_rendered (pl_chat (run_machine (playground_step t clock) pl
        (HandlerEvent (SubmitMessage eager env body) # es @ SourceEvent eager1 (HeadersReady g False) #
          es' @ [SourceEvent eager2 (SourceMessage i (Some STREAM_DONE_MESSAGE)), HandlerEvent Render])))
      = ct_rendered (pl_chat pl) @ [createUserMessage (fst (en_ids env)) body (en_now env), m]
    \<and> shown m = shown (applyChatCompletionChoice clock' (createLoadingAssistantMessage (snd (en_ids env)) (en_now env))
        \<lparr>ch_content = content, ch_reasoning_content = reasoning\<rparr>)"
proof -
  let ?run = "run_machine (playground_step t clock)" and ?chat = "run_machine (chat_step t clock)"
  let ?evs = "concat (map (handler_events h i) es) @ concat (map (handler_events h i) es')"
  define pl1 where "pl1 = playground_step t clock pl (HandlerEvent (SubmitMessage eager env body))"
  define pl2 where "pl2 = playground_step t clock (?run pl1 es) (SourceEvent eager1 (HeadersReady g False))"
  define pl3 where "pl3 = playground_step t clock (?run pl2 es') (SourceEvent eager2 (SourceMessage i (Some STREAM_DONE_MESSAGE)))"
  have "stream_inv (pl_stream pl)" unfolding pl_def by (rule session.inv_run)
  from request_starts[OF this assms(5), of t clock eager body] have
    "awaiting_source g h i pl1" and c1: "pl_chat pl1 = chat_step t clock (pl_chat pl) (SubmitMessage eager env body)"
    by (simp_all add: g_def h_def i_def pl1_def del: playground_step.simps chat_step.simps)
  from awaiting_run[OF this(1) assms(6), of t clock] have
    await: "awaiting_source g h i (?run pl1 es)" and "pl_chat (?run pl1 es) = ?chat (pl_chat pl1) (concat (map (handler_events h i) es))" by auto
  with source_opens[OF await, of t clock eager1] have
    read: "reading g h i pl2" and c2: "pl_chat pl2 = ?chat (pl_chat pl1) (concat (map (handler_events h i) es))" by (simp_all add: pl2_def)
  from reading_run[OF read assms(7), of t clock] source_completes[of g h i "?run pl2 es'" t clock eager2] have
    c3: "pl_chat pl3 = ?chat (pl_chat pl1) (?evs @ [StreamComplete eager2 h])" by (simp add: pl3_def c2 run_machine_append)
  have "controller_call (pl_chat pl3) Render (chat_step t clock (pl_chat pl3) Render) = None" by (rule undisturbed_keeps(2)[of 0]) simp_all
  then have "pl_chat (playground_step t clock pl3 (HandlerEvent Render)) = chat_step t clock (pl_chat pl3) Render" by (simp add: Let_def)
  then have chat: "pl_chat (?run pl (HandlerEvent (SubmitMessage eager env body) # es @ SourceEvent eager1 (HeadersReady g False) #
      es' @ [SourceEvent eager2 (SourceMessage i (Some STREAM_DONE_MESSAGE)), HandlerEvent Render]))
    = ?chat (pl_chat pl) (SubmitMessage eager env body # ?evs @ [StreamComplete eager2 h, Render])"
    by (simp add: pl1_def[symmetric] pl2_def[symmetric] pl3_def[symmetric] run_machine_append c3 c1 del: playground_step.simps chat_step.simps)
  have all: "list_all (\<lambda>e. bystander g h i e \<or> in_stream i e) es" using assms(6) by (auto simp: list_all_iff)
  have "content = delivered h ContentChunk ?evs" "reasoning = delivered h ReasoningChunk ?evs"
    using assms(8,9) delivered_source[OF all] delivered_source[OF assms(7)] bystander_text[OF assms(6)] by (simp_all add: delivered_append)
  moreover have "list_all (undisturbed h) ?evs" using handler_events_undisturbed[OF all] handler_events_undisturbed[OF assms(7)] by simp
  ultimately show ?thesis unfolding chat
    using streaming_matches[OF assms(5), of "pl_chat pl" ?evs content reasoning] assms(10) by (simp add: h_def del: run_machine.simps)
qed

text \<open>A first answer: a chunk with reasoning, a flush and a render, a chunk with content.\<close>

definition sample_chunk :: "jsstr \<Rightarrow> jsstr \<Rightarrow> jsstr" where
  "sample_chunk member value =
     js ''{\"choices\":[{\"delta\":{\"'' @ member @ js ''\":\"'' @ value @ js ''\"}}]}''"

lemma sample_chunks:
  "parseStreamMessageUpdates (sample_chunk (js ''reasoning_content'') (js ''hm'')) = Some [(ReasoningChunk, js ''hm'')]"
  "parseStreamMessageUpdates (sample_chunk (js ''content'') (js ''hi'')) = Some [(ContentChunk, js ''hi'')]"
  "\<not> isStreamDoneMessage (sample_chunk (js ''reasoning_content'') (js ''hm''))"
  "\<not> isStreamDoneMessage (sample_chunk (js ''content'') (js ''hi''))"
  by code_simp+

theorem streamed_answer_shown_witness:
  "\<exists>m. ct_rendered (pl_chat (run_machine (playground_step (\<lambda>s. s) (\<lambda>k i. Fin (rat_of_nat (k + i))))
      (run_machine (playground_step (\<lambda>s. s) (\<lambda>k i. Fin (rat_of_nat (k + i)))) initial_playground [])
        (HandlerEvent (SubmitMessage True chat_sample_env (js ''hello'')) # [HandlerEvent Render] @ SourceEvent (False, False) (HeadersReady 1 False) #
          [SourceEvent (False, False) (SourceMessage 0 (Some (sample_chunk (js ''reasoning_content'') (js ''hm'')))),
           HandlerEvent (TimerFires False), HandlerEvent Render,
           SourceEvent (False, False) (SourceMessage 0 (Some (sample_chunk (js ''content'') (js ''hi''))))]
          @ [SourceEvent (False, False) (SourceMessage 0 (Some STREAM_DONE_MESSAGE)), HandlerEvent Render])))
      = [createUserMessage (js ''u'', js ''u1'') (js ''hello'') (Fin 5), m]
    \<and> shown m = (js ''a'', RoleAssistant, Some StatusComplete, js ''hi'', js ''hm'')"
proof -
  let ?es = "[SourceEvent (False, False) (SourceMessage 0 (Some (sample_chunk (js ''reasoning_content'') (js ''hm'')))),
    HandlerEvent (TimerFires False), HandlerEvent Render, SourceEvent (False, False) (SourceMessage 0 (Some (sample_chunk (js ''content'') (js ''hi''))))]"
  have start: "pl_stream initial_playground = createStreamRequestController" "sc_generation createStreamRequestController = 0"
    "sc_listeners createStreamRequestController = []" "ct_generation (pl_chat initial_playground) = 0"
    "ct_rendered (pl_chat initial_playground) = []"
    by (simp_all add: initial_playground_def initial_chat_def createStreamRequestController_def)
  have env: "cfg_stream (en_config chat_sample_env)" "en_ids chat_sample_env = ((js ''u'', js ''u1''), (js ''a'', js ''a1''))" "en_now chat_sample_env = Fin 5"
    by (simp_all add: chat_sample_env_def)
  have plain: "\<not> has_think (js ''hi'')" by (simp add: has_think_def open_tag_def starts_with_iff)
  have "shown (applyChatCompletionChoice (\<lambda>_. Fin 0) (createLoadingAssistantMessage (js ''a'', js ''a1'') (Fin 5))
      \<lparr>ch_content = js ''hi'', ch_reasoning_content = js ''hm''\<rparr>) = (js ''a'', RoleAssistant, Some StatusComplete, js ''hi'', js ''hm'')"
    using plain by (simp add: applyChatCompletionChoice_def shown_finalized text_or_else_def createLoadingAssistantMessage_def)
  with streamed_answer_shown[of chat_sample_env "\<lambda>s. s" "\<lambda>k i. Fin (rat_of_nat (k + i))" "[]" "[HandlerEvent Render]" ?es "js ''hi''" "js ''hm''"
      True "js ''hello''" "(False, False)" "(False, False)" "\<lambda>_. Fin 0"] plain
  show ?thesis by (simp add: start env sample_chunks del: playground_step.simps run_machine.simps(2) js_Cons js_Nil)
qed

end
