(* ===== verification/PlaygroundStorage.thy ===== *)
theory PlaygroundStorage
  imports PlaygroundChat JsRegex
begin

text \<open>
  The stored conversation of the playground: lib/storage/storage.ts with the limits of storage-schema.ts, and
  lib/state/playground-state-utils.ts.  The browser's storage is an association list, as in AuthStore.  The checks of the
  schema library (\<open>messagesSchema.parse\<close> and its siblings) are parameters that return None where they throw, as are the
  texts \<open>JSON.stringify\<close> writes and the limit of the storage, beyond which \<open>setItem\<close> throws.  Member identity is not
  modelled: \<open>trimMessagesByContentSize\<close> always returns a new array, so a load always saves what it returns.
\<close>

section \<open>Limits and texts\<close>

definition MAX_STORED_MESSAGES :: nat where "MAX_STORED_MESSAGES = 100"
definition MAX_STORED_MESSAGES_BYTES :: nat where "MAX_STORED_MESSAGES_BYTES = 1024 * 1024"
definition MAX_LOADED_MESSAGES_CHARS :: nat where "MAX_LOADED_MESSAGES_CHARS = 120000"
definition MAX_LOADED_MESSAGE_CHARS :: nat where "MAX_LOADED_MESSAGE_CHARS = 40000"

definition TRUNCATED_CONTENT_SUFFIX :: jsstr where "TRUNCATED_CONTENT_SUFFIX = [10, 10] @ js ''[...]''"
definition MIN_PREFIX_COLLAPSE_LENGTH :: nat where "MIN_PREFIX_COLLAPSE_LENGTH = 2000"
definition MIN_REPEATED_SECTION_COUNT :: nat where "MIN_REPEATED_SECTION_COUNT = 3"

definition trimMessages :: "Message list \<Rightarrow> Message list" where
  "trimMessages messages = (if length messages \<le> MAX_STORED_MESSAGES then messages
     else drop (length messages - MAX_STORED_MESSAGES) messages)"

definition getMessageSize :: "Message \<Rightarrow> nat" where
  "getMessageSize message = sum_list (map (\<lambda>v. length (mv_content v)) (msg_versions message)) + length (reasoning_text message)"

definition truncateText :: "jsstr \<Rightarrow> nat \<Rightarrow> jsstr" where
  "truncateText body maxLength =
     (if length body \<le> maxLength then body
      else if maxLength \<le> length TRUNCATED_CONTENT_SUFFIX then take maxLength body
      else take (maxLength - length TRUNCATED_CONTENT_SUFFIX) body @ TRUNCATED_CONTENT_SUFFIX)"

section \<open>Repeated sections\<close>

text \<open>\<open>r{0,n}\<close>, greedily.\<close>

fun RUpTo :: "nat \<Rightarrow> regex \<Rightarrow> regex" where
  "RUpTo 0 r = RLit []"
| "RUpTo (Suc n) r = ROpt (RSeq r (RUpTo n r))"

text \<open>\<open>/^#{2,6}\s+\d+\.\s+.+$/gm\<close>\<close>

definition SECTION_HEADING_LINE_PATTERN :: regex where
  "SECTION_HEADING_LINE_PATTERN = rseq [RBolM, RLit (js ''##''), RUpTo 4 (RLit (js ''#'')), RPlus (RCh is_space), RPlus (RCh is_digit),
     RLit (js ''.''), RPlus (RCh is_space), RPlus (RCh dot), REolM]"

text \<open>The matches of \<open>matchAll\<close> from the position \<open>pos\<close> on, with their indexes.\<close>

function section_scan :: "nat \<Rightarrow> code_unit option \<Rightarrow> jsstr \<Rightarrow> (jsstr \<times> nat) list" where
  "section_scan pos prev s = (case re_search (RCap 0 SECTION_HEADING_LINE_PATTERN) prev s of
       None \<Rightarrow> []
     | Some st \<Rightarrow>
         let heading = cap 0 (rs_caps st); consumed = length s - length (rs_rest st) in
         (heading, pos + consumed - length heading) #
         (if length (rs_rest st) < length s then section_scan (pos + consumed) (rs_prev st) (rs_rest st) else []))"
  by auto
termination by (relation "measure (\<lambda>(pos, prev, s). length s)") auto

declare section_scan.simps [simp del]

definition getSectionOccurrences :: "jsstr \<Rightarrow> (jsstr \<times> nat) list" where
  "getSectionOccurrences body = section_scan 0 None body"

definition getHeadingCount :: "(jsstr \<times> nat) list \<Rightarrow> jsstr \<Rightarrow> nat" where
  "getHeadingCount occurrences heading = length (filter (\<lambda>occurrence. fst occurrence = heading) occurrences)"

text \<open>The loop over the occurrences from the last to the first.\<close>

fun last_repeated :: "(jsstr \<Rightarrow> nat) \<Rightarrow> jsstr list \<Rightarrow> (jsstr \<times> nat) list \<Rightarrow> nat list" where
  "last_repeated counts seen [] = []"
| "last_repeated counts seen ((heading, index) # backwards) =
     (if counts heading < MIN_REPEATED_SECTION_COUNT \<or> heading \<in> set seen then last_repeated counts seen backwards
      else index # last_repeated counts (heading # seen) backwards)"

definition findLastRepeatedSectionRunStart :: "jsstr \<Rightarrow> nat option" where
  "findLastRepeatedSectionRunStart body =
     (let occurrences = getSectionOccurrences body;
          lastRepeatedIndexes = last_repeated (getHeadingCount occurrences) [] (rev occurrences)
      in if lastRepeatedIndexes = [] then None else Some (Min (set lastRepeatedIndexes)))"

definition collapseRepeatedSectionSnapshots :: "jsstr \<Rightarrow> jsstr" where
  "collapseRepeatedSectionSnapshots body =
     (if length body < MIN_PREFIX_COLLAPSE_LENGTH then body
      else case findLastRepeatedSectionRunStart body of None \<Rightarrow> body | Some start \<Rightarrow> drop start body)"

section \<open>Loaded messages\<close>

definition normalizeStoredMessageForLoad :: "(nat \<Rightarrow> number) \<Rightarrow> Message \<Rightarrow> Message" where
  "normalizeStoredMessageForLoad clock message =
     (let normalized = message\<lparr>
            msg_versions := map (\<lambda>version. version\<lparr>mv_content :=
              truncateText (collapseRepeatedSectionSnapshots (mv_content version)) MAX_LOADED_MESSAGE_CHARS\<rparr>) (msg_versions message),
            msg_reasoning := map_option (\<lambda>r. r\<lparr>rz_content := truncateText (rz_content r) MAX_LOADED_MESSAGE_CHARS\<rparr>) (msg_reasoning message)\<rparr>
      in if \<not> isAssistantMessagePending normalized then normalized
         else if \<not> hasMessageContent normalized \<and> js_trim (reasoning_text normalized) = [] then normalized
         else let completedAt = (case js_or (msg_completedAt normalized) (js_or (Option.bind (msg_reasoning normalized) rz_completedAt)
                    (js_or (msg_startedAt normalized) (msg_createdAt normalized))) of Some ms \<Rightarrow> ms | None \<Rightarrow> clock 2)
              in completeAssistantTiming completedAt
                   ((finalizeMessage clock normalized [])\<lparr>msg_status := Some StatusComplete, msg_isReasoningStreaming := Some False\<rparr>))"

text \<open>The loop of \<open>trimMessagesByContentSize\<close> over the messages from the last to the first, with the messages kept so far.\<close>

fun size_loop :: "nat \<Rightarrow> Message list \<Rightarrow> Message list \<Rightarrow> Message list" where
  "size_loop totalSize kept [] = kept"
| "size_loop totalSize kept (message # backwards) =
     (if kept \<noteq> [] \<and> MAX_LOADED_MESSAGES_CHARS < totalSize + getMessageSize message then kept
      else size_loop (totalSize + getMessageSize message) (message # kept) backwards)"

definition trimMessagesByContentSize :: "Message list \<Rightarrow> Message list" where
  "trimMessagesByContentSize messages = size_loop 0 [] (rev messages)"

section \<open>Reading and writing\<close>

type_synonym storage = "(jsstr \<times> jsstr) list"

definition set_item :: "jsstr \<Rightarrow> jsstr \<Rightarrow> storage \<Rightarrow> storage" where
  "set_item key value store = (if key \<in> fst ` set store then map (\<lambda>(k, v). (k, if k = key then value else v)) store else store @ [(key, value)])"

definition remove_item :: "jsstr \<Rightarrow> storage \<Rightarrow> storage" where
  "remove_item key store = filter (\<lambda>(k, _). k \<noteq> key) store"

definition STORAGE_MESSAGES :: jsstr where "STORAGE_MESSAGES = js ''playground_messages''"
definition STORAGE_CONFIG :: jsstr where "STORAGE_CONFIG = js ''playground_config''"
definition STORAGE_PARAMETER_ENABLED :: jsstr where "STORAGE_PARAMETER_ENABLED = js ''playground_parameter_enabled''"

text \<open>A stored value, None for a missing one and a failure where \<open>JSON.parse\<close> throws.\<close>

datatype storage_error = SyntaxError | SchemaError | QuotaError

definition parse_item :: "jsstr \<Rightarrow> (storage_error, json option) result" where
  "parse_item saved = (case JSON_parse saved of None \<Rightarrow> Inl SyntaxError | Some v \<Rightarrow> Inr (Some v))"

definition readStoredValue :: "jsstr \<Rightarrow> storage \<Rightarrow> (storage_error, json option) result" where
  "readStoredValue key store = (case map_of store key of
       None \<Rightarrow> Inr None
     | Some saved \<Rightarrow> if saved = [] then Inr None else parse_item saved)"

definition readStoredMessagesValue :: "storage \<Rightarrow> storage \<times> (storage_error, json option) result" where
  "readStoredMessagesValue store = (case map_of store STORAGE_MESSAGES of
       None \<Rightarrow> (store, Inr None)
     | Some saved \<Rightarrow>
         if saved = [] then (store, Inr None)
         else if MAX_STORED_MESSAGES_BYTES < length saved then (remove_item STORAGE_MESSAGES store, Inr None)
         else (store, parse_item saved))"

definition unwrapStoredValue :: "json \<Rightarrow> json" where
  "unwrapStoredValue v = (case v of
       JObj m \<Rightarrow> (case (map_of m (js ''version''), map_of m (js ''data'')) of (Some _, Some data) \<Rightarrow> data | _ \<Rightarrow> v)
     | _ \<Rightarrow> v)"

text \<open>\<open>stringify data\<close> is the text of the envelope with the version and the data; \<open>fits\<close> tells whether the storage takes it.\<close>

definition writeStoredValue :: "('a \<Rightarrow> jsstr) \<Rightarrow> (jsstr \<Rightarrow> bool) \<Rightarrow> jsstr \<Rightarrow> 'a \<Rightarrow> storage \<Rightarrow> (storage_error, storage) result" where
  "writeStoredValue stringify fits key data store =
     (let payload = stringify data in if fits payload then Inr (set_item key payload store) else Inl QuotaError)"

text \<open>Check and write; an error leaves the storage as it is.\<close>

definition save_checked :: "('a \<Rightarrow> 'a option) \<Rightarrow> ('a \<Rightarrow> jsstr) \<Rightarrow> (jsstr \<Rightarrow> bool) \<Rightarrow> jsstr \<Rightarrow> 'a \<Rightarrow> storage \<Rightarrow> storage" where
  "save_checked check stringify fits key v store =
     (case rbind (case check v of None \<Rightarrow> Inl SchemaError | Some parsed \<Rightarrow> Inr parsed)
        (\<lambda>parsed. writeStoredValue stringify fits key parsed store) of
        Inl _ \<Rightarrow> store | Inr store' \<Rightarrow> store')"

definition saveMessages ::
  "(Message list \<Rightarrow> Message list option) \<Rightarrow> (Message list \<Rightarrow> jsstr) \<Rightarrow> (jsstr \<Rightarrow> bool) \<Rightarrow> Message list \<Rightarrow> storage \<Rightarrow> storage" where
  "saveMessages check stringify fits messages store = save_checked check stringify fits STORAGE_MESSAGES (trimMessages messages) store"

text \<open>Read, unwrap and check; a missing value, a falsy one and an error give None, which stands for the empty configuration too.\<close>

definition load_checked :: "(json \<Rightarrow> 'a option) \<Rightarrow> (storage_error, json option) result \<Rightarrow> 'a option" where
  "load_checked schema saved = (case saved of
       Inr v \<Rightarrow> if json_truthy v then schema (unwrapStoredValue (the v)) else None
     | Inl _ \<Rightarrow> None)"

definition loadConfig :: "(json \<Rightarrow> 'c option) \<Rightarrow> storage \<Rightarrow> 'c option" where
  "loadConfig schema store = load_checked schema (readStoredValue STORAGE_CONFIG store)"

definition saveConfig :: "('c \<Rightarrow> 'c option) \<Rightarrow> ('c \<Rightarrow> jsstr) \<Rightarrow> (jsstr \<Rightarrow> bool) \<Rightarrow> 'c \<Rightarrow> storage \<Rightarrow> storage" where
  "saveConfig check stringify fits config store = save_checked check stringify fits STORAGE_CONFIG config store"

definition loadParameterEnabled :: "(json \<Rightarrow> 'p option) \<Rightarrow> storage \<Rightarrow> 'p option" where
  "loadParameterEnabled schema store = load_checked schema (readStoredValue STORAGE_PARAMETER_ENABLED store)"

definition saveParameterEnabled :: "('p \<Rightarrow> 'p option) \<Rightarrow> ('p \<Rightarrow> jsstr) \<Rightarrow> (jsstr \<Rightarrow> bool) \<Rightarrow> 'p \<Rightarrow> storage \<Rightarrow> storage" where
  "saveParameterEnabled check stringify fits parameterEnabled store =
     save_checked check stringify fits STORAGE_PARAMETER_ENABLED parameterEnabled store"

text \<open>The parts of a load that do not touch the storage: every message, then the list, then the message under way.\<close>

definition restored_messages :: "(jsstr \<Rightarrow> jsstr) \<Rightarrow> (nat \<Rightarrow> nat \<Rightarrow> number) \<Rightarrow> Message list \<Rightarrow> Message list" where
  "restored_messages t clock parsed =
     (let normalized = map (\<lambda>(k, m). normalizeStoredMessageForLoad (clock k) m) (zip [0..<length parsed] parsed)
      in sanitizeMessagesOnLoad t (clock (length parsed)) (trimMessagesByContentSize (trimMessages normalized)))"

definition loadMessages ::
  "(json \<Rightarrow> Message list option) \<Rightarrow> (Message list \<Rightarrow> Message list option) \<Rightarrow> (Message list \<Rightarrow> jsstr) \<Rightarrow> (jsstr \<Rightarrow> bool) \<Rightarrow>
   (jsstr \<Rightarrow> jsstr) \<Rightarrow> (nat \<Rightarrow> nat \<Rightarrow> number) \<Rightarrow> storage \<Rightarrow> storage \<times> Message list option" where
  "loadMessages schema check stringify fits t clock store =
     (case readStoredMessagesValue store of
        (store1, saved) \<Rightarrow> (case load_checked schema saved of
            None \<Rightarrow> (store1, None)
          | Some parsed \<Rightarrow>
              let sanitized = restored_messages t clock parsed
              in (saveMessages check stringify fits sanitized store1, Some sanitized)))"

definition getInitialMessages :: "Message list option \<Rightarrow> Message list" where
  "getInitialMessages loaded = (case loaded of Some ms \<Rightarrow> ms | None \<Rightarrow> [])"

section \<open>Bounds\<close>

lemma length_truncateText: "length (truncateText body n) \<le> n"
  by (auto simp: truncateText_def)

lemma length_js_join: "length (js_join [10, 10] rs) \<le> sum_list (map (\<lambda>r. length r + 2) rs)"
  by (induction "[10, 10] :: jsstr" rs rule: js_join.induct) auto

lemma think_loop_length:
  "think_loop content = (vs, rs, u) \<Longrightarrow> length (concat vs) + sum_list (map (\<lambda>r. length r + 2) rs) \<le> length content"
proof (induction content arbitrary: vs rs u rule: think_loop.induct)
  case (1 content)
  show ?case
  proof (cases "cut open_tag content")
    case None
    with "1.prems" show ?thesis by (subst (asm) think_loop.simps) (auto split: if_splits)
  next
    case (Some bi)
    obtain before inner where bi: "bi = (before, inner)" by fastforce
    have content: "content = before @ open_tag @ inner" using Some bi cut_Some by simp
    show ?thesis
    proof (cases "cut close_tag inner")
      case None
      with "1.prems" Some bi content show ?thesis
        by (subst (asm) think_loop.simps) (auto simp: open_tag_def Let_def split: if_splits)
    next
      case (Some rr)
      obtain r rest where rr: "rr = (r, rest)" by fastforce
      obtain vs' rs' u' where rest: "think_loop rest = (vs', rs', u')" by (metis prod_cases3)
      have inner: "inner = r @ close_tag @ rest" using Some rr cut_Some by simp
      have "length (concat vs') + sum_list (map (\<lambda>r. length r + 2) rs') \<le> length rest"
        using "1.IH"[OF \<open>cut open_tag content = Some bi\<close> bi[symmetric] refl Some rr[symmetric] rest] .
      with "1.prems" \<open>cut open_tag content = Some bi\<close> bi Some rr rest content inner show ?thesis
        by (subst (asm) think_loop.simps) (auto simp: open_tag_def close_tag_def Let_def split: if_splits)
    qed
  qed
qed

lemma parsed_length:
  "length (visibleContent (parseThinkTags content)) \<le> length content" "length (tag_reasoning (parseThinkTags content)) \<le> length content"
proof -
  obtain vs rs u where loop: "think_loop content = (vs, rs, u)" by (metis prod_cases3)
  from think_loop_length[OF this] length_js_join[of rs] length_js_trim[of "concat vs"] length_js_trim[of "js_join [10, 10] rs"]
  show "length (visibleContent (parseThinkTags content)) \<le> length content" "length (tag_reasoning (parseThinkTags content)) \<le> length content"
    by (auto simp: parseThinkTags_def loop)
qed

text \<open>Messages whose texts have at most \<open>n\<close> units.\<close>

definition texts_within :: "nat \<Rightarrow> Message \<Rightarrow> bool" where
  "texts_within n m \<longleftrightarrow> list_all (\<lambda>v. length (mv_content v) \<le> n) (msg_versions m) \<and> length (reasoning_text m) \<le> n"

lemma texts_within_mono: "texts_within n m \<Longrightarrow> n \<le> k \<Longrightarrow> texts_within k m"
  by (auto simp: texts_within_def list_all_iff)

lemma within_content: "texts_within n m \<Longrightarrow> length (getMessageContent m) \<le> n"
  by (auto simp: texts_within_def getMessageContent_def getCurrentVersion_def split: list.split)

lemma within_update [simp]: "texts_within n (updateCurrentVersionContent m c) \<longleftrightarrow> length c \<le> n \<and> length (reasoning_text m) \<le> n"
  by (simp add: texts_within_def) (simp add: updateCurrentVersionContent_def)

lemma within_members [simp]:
  "texts_within n (m\<lparr>msg_status := x\<rparr>) = texts_within n m" "texts_within n (m\<lparr>msg_isReasoningStreaming := z\<rparr>) = texts_within n m"
  "texts_within n (completeReasoningTiming now m) = texts_within n m" "texts_within n (completeAssistantTiming now m) = texts_within n m"
  by (simp_all add: texts_within_def)
    (auto simp: completeReasoningTiming_def completeAssistantTiming_def Let_def split: option.splits)

lemma within_reasoning:
  "texts_within n (m\<lparr>msg_reasoning := y\<rparr>) \<longleftrightarrow> list_all (\<lambda>v. length (mv_content v) \<le> n) (msg_versions m)
     \<and> length (case y of Some r \<Rightarrow> rz_content r | None \<Rightarrow> []) \<le> n"
  by (simp add: texts_within_def)

lemma finalize_within:
  assumes "texts_within n m"
  shows "texts_within n (finalizeMessage clock m [])"
proof -
  let ?c = "getMessageContent m"
  have c: "length ?c \<le> n" and r: "length (reasoning_text m) \<le> n" using assms within_content by (simp_all add: texts_within_def)
  have "length (visibleContent (parseThinkTags ?c)) \<le> n" "length (tag_reasoning (parseThinkTags ?c)) \<le> n"
    using parsed_length[of ?c] c by linarith+
  with c r show ?thesis
    by (simp add: finalizeMessage_def text_or_else_def Let_def getMessageContent_def[symmetric] within_reasoning)
      (simp add: updateCurrentVersionContent_def)
qed

lemma normalize_within: "texts_within MAX_LOADED_MESSAGE_CHARS (normalizeStoredMessageForLoad clock m)"
proof -
  let ?m = "m\<lparr>msg_versions := map (\<lambda>version. version\<lparr>mv_content :=
        truncateText (collapseRepeatedSectionSnapshots (mv_content version)) MAX_LOADED_MESSAGE_CHARS\<rparr>) (msg_versions m),
      msg_reasoning := map_option (\<lambda>r. r\<lparr>rz_content := truncateText (rz_content r) MAX_LOADED_MESSAGE_CHARS\<rparr>) (msg_reasoning m)\<rparr>"
  have "texts_within MAX_LOADED_MESSAGE_CHARS ?m" by (auto simp: texts_within_def list_all_iff length_truncateText split: option.split)
  with finalize_within[OF this] show ?thesis by (simp add: normalizeStoredMessageForLoad_def Let_def)
qed

lemma normalize_key [simp]: "msg_key (normalizeStoredMessageForLoad clock m) = msg_key m"
  by (simp add: normalizeStoredMessageForLoad_def finalizeMessage_def Let_def)

lemma normalize_pending:
  "isAssistantMessagePending (normalizeStoredMessageForLoad clock m) \<Longrightarrow>
    \<not> hasMessageContent (normalizeStoredMessageForLoad clock m) \<and> js_trim (reasoning_text (normalizeStoredMessageForLoad clock m)) = []"
  by (auto simp: normalizeStoredMessageForLoad_def isAssistantMessagePending_def Let_def split: if_splits)

text \<open>The messages kept: the newest ones, at least one of them, up to the limit.\<close>

lemma size_loop_kept:
  assumes "sum_list (map getMessageSize kept) = n" "length kept \<le> 1 \<or> n \<le> MAX_LOADED_MESSAGES_CHARS" "size_loop n kept older = res"
  shows "(length res \<le> 1 \<or> sum_list (map getMessageSize res) \<le> MAX_LOADED_MESSAGES_CHARS) \<and> (\<exists>k. res = drop k (rev older @ kept))
    \<and> (older \<noteq> [] \<or> kept \<noteq> [] \<longrightarrow> res \<noteq> [])"
  using assms
proof (induction n kept older arbitrary: res rule: size_loop.induct)
  case (1 n kept)
  then show ?case by (auto intro: exI[of _ 0])
next
  case (2 n kept m older)
  show ?case
  proof (cases "kept \<noteq> [] \<and> MAX_LOADED_MESSAGES_CHARS < n + getMessageSize m")
    case True
    moreover have "\<exists>k. kept = drop k (rev (m # older) @ kept)" by (rule exI[of _ "length (m # older)"]) simp
    ultimately show ?thesis using 2(2-) by auto
  next
    case False
    from 2(1)[OF False, of res] False 2(2-) show ?thesis by auto
  qed
qed

lemma trimMessages_drop: "\<exists>k. trimMessages ms = drop k ms" "length (trimMessages ms) \<le> MAX_STORED_MESSAGES" "ms \<noteq> [] \<Longrightarrow> trimMessages ms \<noteq> []"
  by (auto simp: trimMessages_def MAX_STORED_MESSAGES_def intro: exI[of _ 0])

lemma last_pending_Some:
  assumes "last_pending ms = Some i"
  shows "i < length ms" "isPendingAssistantMessage (ms ! i)" "\<And>j. i < j \<Longrightarrow> j < length ms \<Longrightarrow> \<not> isPendingAssistantMessage (ms ! j)"
proof -
  obtain k where k: "k < length ms" "isPendingAssistantMessage (ms ! (rev [0..<length ms] ! k))" "i = rev [0..<length ms] ! k"
    "\<And>j. j < k \<Longrightarrow> \<not> isPendingAssistantMessage (ms ! (rev [0..<length ms] ! j))"
    using assms by (auto simp: last_pending_def find_Some_iff)
  then have i: "i = length ms - Suc k" by (simp add: rev_nth)
  show "i < length ms" "isPendingAssistantMessage (ms ! i)" using k i by simp_all
  show "\<not> isPendingAssistantMessage (ms ! j)" if "i < j" "j < length ms" for j
    using k(4)[of "length ms - Suc j"] k(1) that i by (simp add: rev_nth)
qed

lemma last_pending_None: "last_pending ms = None \<Longrightarrow> m \<in> set ms \<Longrightarrow> \<not> isPendingAssistantMessage m"
  by (auto simp: last_pending_def find_None_iff in_set_conv_nth)

text \<open>What a load puts into a message that was under way without any text.\<close>

definition interrupted_text :: "(jsstr \<Rightarrow> jsstr) \<Rightarrow> jsstr" where
  "interrupted_text t = t API_REQUEST_ERROR @ js '': '' @ t INTERRUPTED"

definition blank_if_pending :: "Message \<Rightarrow> bool" where
  "blank_if_pending m \<longleftrightarrow> (isAssistantMessagePending m \<longrightarrow> \<not> hasMessageContent m \<and> js_trim (reasoning_text m) = [])"

definition interrupted :: "(jsstr \<Rightarrow> jsstr) \<Rightarrow> (nat \<Rightarrow> number) \<Rightarrow> Message \<Rightarrow> Message" where
  "interrupted t clock m = completeAssistantTiming (clock 2) ((updateCurrentVersionContent (finalizeMessage clock m []) (interrupted_text t))\<lparr>
     msg_status := Some StatusError, msg_isReasoningStreaming := Some False\<rparr>)"

lemma blank_content:
  assumes "js_trim c = []"
  shows "\<not> has_think c"
proof
  assume "has_think c"
  then obtain a b where "c = a @ open_tag @ b" using cut_Some by (fastforce simp: has_think_def)
  then have "\<not> list_all is_space c" by (simp add: open_tag_def is_space_def)
  moreover have "list_all is_space c" using assms
    by (simp add: js_trim_def trim_start_def dropWhile_eq_Nil_conv list_all_iff)
      (metis (mono_tags, lifting) dropWhile_eq_Nil_conv dropWhile_idem set_rev rev_is_Nil_conv dropWhile_eq_self_iff list.set_sel(1))
  ultimately show False by simp
qed

lemma finalize_blank:
  assumes "js_trim (getMessageContent m) = []"
  shows "getMessageContent (finalizeMessage clock m []) = getMessageContent m" "reasoning_text (finalizeMessage clock m []) = reasoning_text m"
  using blank_content[OF assms] by (simp_all add: finalizeMessage_def text_or_else_def Let_def getMessageContent_def[symmetric])

lemma sanitize_blank:
  assumes "last_pending ms = Some i" "blank_if_pending (ms ! i)"
  shows "sanitizeMessagesOnLoad t clock ms = ms[i := interrupted t clock (ms ! i)]"
proof -
  have blank: "js_trim (getMessageContent (ms ! i)) = []" "js_trim (reasoning_text (ms ! i)) = []"
    using assms last_pending_Some(2)[OF assms(1)] by (simp_all add: blank_if_pending_def isPendingAssistantMessage_def hasMessageContent_def)
  with assms(1) show ?thesis
    by (simp add: sanitizeMessagesOnLoad_def hasMessageContent_def finalize_blank interrupted_def interrupted_text_def Let_def)
qed

lemma interrupted_facts:
  assumes "js_trim (getMessageContent m) = []"
  shows "msg_key (interrupted t clock m) = msg_key m" "\<not> isPendingAssistantMessage (interrupted t clock m)"
    "texts_within n m \<Longrightarrow> texts_within (max n (length (interrupted_text t))) (interrupted t clock m)"
    "getMessageSize (interrupted t clock m) \<le> getMessageSize m + length (interrupted_text t)"
proof -
  show "msg_key (interrupted t clock m) = msg_key m" "\<not> isPendingAssistantMessage (interrupted t clock m)"
    by (simp_all add: interrupted_def finalizeMessage_def isPendingAssistantMessage_def isAssistantMessagePending_def Let_def)
  have "reasoning_text (interrupted t clock m) = reasoning_text m" using assms by (simp add: interrupted_def finalize_blank)
  moreover have "sum_list (map (\<lambda>v. length (mv_content v)) (msg_versions (interrupted t clock m))) = length (interrupted_text t)"
    by (simp add: interrupted_def completeAssistantTiming_def updateCurrentVersionContent_def Let_def)
  ultimately show "getMessageSize (interrupted t clock m) \<le> getMessageSize m + length (interrupted_text t)" by (simp add: getMessageSize_def)
  show "texts_within (max n (length (interrupted_text t))) (interrupted t clock m)" if "texts_within n m"
    using that assms by (simp add: interrupted_def finalize_blank) (simp add: texts_within_def le_max_iff_disj)
qed

lemma sum_update_le:
  "i < length xs \<Longrightarrow> f y \<le> f (xs ! i) + (k :: nat) \<Longrightarrow> sum_list (map f (xs[i := y])) \<le> sum_list (map f xs) + k"
  by (induction xs arbitrary: i) (auto split: nat.split)

text \<open>A list of normalised messages after the last step of a load.\<close>

lemma sanitize_bounds:
  assumes "list_all blank_if_pending ms" "list_all (texts_within n) ms"
  shows "length (sanitizeMessagesOnLoad t clock ms) = length ms"
    "map msg_key (sanitizeMessagesOnLoad t clock ms) = map msg_key ms"
    "list_all (texts_within (max n (length (interrupted_text t)))) (sanitizeMessagesOnLoad t clock ms)"
    "sum_list (map getMessageSize (sanitizeMessagesOnLoad t clock ms)) \<le> sum_list (map getMessageSize ms) + length (interrupted_text t)"
    "ms \<noteq> [] \<Longrightarrow> \<not> isPendingAssistantMessage (last (sanitizeMessagesOnLoad t clock ms))"
proof -
  have mono: "list_all (texts_within (max n (length (interrupted_text t)))) ms"
    using assms(2) texts_within_mono by (fastforce simp: list_all_iff)
  have "length (sanitizeMessagesOnLoad t clock ms) = length ms \<and> map msg_key (sanitizeMessagesOnLoad t clock ms) = map msg_key ms
    \<and> list_all (texts_within (max n (length (interrupted_text t)))) (sanitizeMessagesOnLoad t clock ms)
    \<and> sum_list (map getMessageSize (sanitizeMessagesOnLoad t clock ms)) \<le> sum_list (map getMessageSize ms) + length (interrupted_text t)
    \<and> (ms \<noteq> [] \<longrightarrow> \<not> isPendingAssistantMessage (last (sanitizeMessagesOnLoad t clock ms)))"
  proof (cases "last_pending ms")
    case None
    then show ?thesis using mono last_pending_None[OF None] by (simp add: sanitizeMessagesOnLoad_def)
  next
    case (Some i)
    note pending = last_pending_Some[OF Some]
    have b: "blank_if_pending (ms ! i)" "texts_within n (ms ! i)" using assms pending(1) by (simp_all add: list_all_length)
    then have blank: "js_trim (getMessageContent (ms ! i)) = []"
      using pending(2) by (simp add: blank_if_pending_def isPendingAssistantMessage_def hasMessageContent_def)
    note facts = interrupted_facts[OF blank, where t = t and clock = clock]
    have "\<not> isPendingAssistantMessage (last (ms[i := interrupted t clock (ms ! i)]))" if "ms \<noteq> []"
      using that pending(1) pending(3)[of "length ms - 1"] facts(2) by (cases "i = length ms - 1") (auto simp: last_conv_nth nth_list_update)
    moreover have "list_all (texts_within (max n (length (interrupted_text t)))) (ms[i := interrupted t clock (ms ! i)])"
      using mono pending(1) facts(3)[OF b(2)] by (auto simp: list_all_length nth_list_update)
    moreover have "map msg_key (ms[i := interrupted t clock (ms ! i)]) = map msg_key ms"
      using pending(1) facts(1) by (simp add: map_update) (metis list_update_id nth_map)
    ultimately show ?thesis unfolding sanitize_blank[OF Some b(1)]
      using sum_update_le[OF pending(1), of getMessageSize, OF facts(4)] by simp
  qed
  then show "length (sanitizeMessagesOnLoad t clock ms) = length ms" "map msg_key (sanitizeMessagesOnLoad t clock ms) = map msg_key ms"
    "list_all (texts_within (max n (length (interrupted_text t)))) (sanitizeMessagesOnLoad t clock ms)"
    "sum_list (map getMessageSize (sanitizeMessagesOnLoad t clock ms)) \<le> sum_list (map getMessageSize ms) + length (interrupted_text t)"
    "ms \<noteq> [] \<Longrightarrow> \<not> isPendingAssistantMessage (last (sanitizeMessagesOnLoad t clock ms))" by simp_all
qed

lemma restored_bounds:
  fixes t clock parsed
  defines "ms \<equiv> restored_messages t clock parsed"
  shows "length ms \<le> MAX_STORED_MESSAGES" "\<exists>k. map msg_key ms = drop k (map msg_key parsed)" "parsed \<noteq> [] \<Longrightarrow> ms \<noteq> []"
    "list_all (texts_within (max MAX_LOADED_MESSAGE_CHARS (length (interrupted_text t)))) ms"
    "length ms \<le> 1 \<or> sum_list (map getMessageSize ms) \<le> MAX_LOADED_MESSAGES_CHARS + length (interrupted_text t)"
    "ms \<noteq> [] \<Longrightarrow> \<not> isPendingAssistantMessage (last ms)"
proof -
  define normalized where "normalized = map (\<lambda>(k, m). normalizeStoredMessageForLoad (clock k) m) (zip [0..<length parsed] parsed)"
  define kept where "kept = trimMessagesByContentSize (trimMessages normalized)"
  have ms: "ms = sanitizeMessagesOnLoad t (clock (length parsed)) kept" by (simp add: ms_def restored_messages_def kept_def normalized_def Let_def)
  have keys: "map msg_key normalized = map msg_key parsed" by (rule nth_equalityI) (simp_all add: normalized_def)
  have "kept = size_loop 0 [] (rev (trimMessages normalized))" by (simp add: kept_def trimMessagesByContentSize_def)
  from size_loop_kept[OF _ _ this[symmetric]]
  have size: "length kept \<le> 1 \<or> sum_list (map getMessageSize kept) \<le> MAX_LOADED_MESSAGES_CHARS"
    and suffix: "\<exists>j. kept = drop j (trimMessages normalized)"
    and nonempty: "trimMessages normalized \<noteq> [] \<Longrightarrow> kept \<noteq> []" by simp_all
  from suffix obtain j where j: "kept = drop j (trimMessages normalized)" by (elim exE)
  from trimMessages_drop(1)[of normalized] obtain k where k: "trimMessages normalized = drop k normalized" by (elim exE)
  have "set kept \<subseteq> set normalized" using j k by (metis set_drop_subset subset_trans)
  moreover have "list_all blank_if_pending normalized" "list_all (texts_within MAX_LOADED_MESSAGE_CHARS) normalized"
    using normalize_within normalize_pending by (auto simp: normalized_def list_all_iff blank_if_pending_def)
  ultimately have all: "list_all blank_if_pending kept" "list_all (texts_within MAX_LOADED_MESSAGE_CHARS) kept" by (auto simp: list_all_iff)
  note bounds = sanitize_bounds[OF this, where t = t and clock = "clock (length parsed)"]
  show "length ms \<le> MAX_STORED_MESSAGES" using trimMessages_drop(2)[of normalized] j bounds(1) by (simp add: ms)
  have "map msg_key kept = drop (j + k) (map msg_key normalized)" by (simp add: j k drop_map)
  then show "\<exists>k. map msg_key ms = drop k (map msg_key parsed)" using bounds(2) keys ms by (intro exI[of _ "j + k"]) simp
  have len: "length ms = length kept" using bounds(1) ms by simp
  then have iff: "ms = [] \<longleftrightarrow> kept = []" by (metis length_0_conv)
  show "ms \<noteq> []" if "parsed \<noteq> []"
  proof -
    have "normalized \<noteq> []" using that by (simp add: normalized_def)
    then show ?thesis using nonempty[OF trimMessages_drop(3)] iff by simp
  qed
  show "list_all (texts_within (max MAX_LOADED_MESSAGE_CHARS (length (interrupted_text t)))) ms" using bounds(3) ms by simp
  show "length ms \<le> 1 \<or> sum_list (map getMessageSize ms) \<le> MAX_LOADED_MESSAGES_CHARS + length (interrupted_text t)"
    using size bounds(4) len unfolding ms by linarith
  show "\<not> isPendingAssistantMessage (last ms)" if "ms \<noteq> []" using that iff bounds(5) ms by simp
qed

text \<open>
  C24.  What a load of the stored conversation gives.  Whatever the storage holds, a conversation that is loaded consists
  of the newest stored messages, at least one if there were any and at most 100; each text of it has at most 40,000
  units, all of them together at most 120,000 unless a single message is left, up to the note put into an
  interrupted answer; and the last message is not under way.
\<close>

theorem loaded_messages_bounded:
  assumes "loadMessages schema check stringify fits t clock store = (store', Some ms)"
  shows "\<exists>parsed k. load_checked schema (snd (readStoredMessagesValue store)) = Some parsed
      \<and> map msg_key ms = drop k (map msg_key parsed) \<and> (parsed \<noteq> [] \<longrightarrow> ms \<noteq> []) \<and> length ms \<le> 100
      \<and> list_all (texts_within (max 40000 (length (interrupted_text t)))) ms
      \<and> (length ms \<le> 1 \<or> sum_list (map getMessageSize ms) \<le> 120000 + length (interrupted_text t))
      \<and> (ms \<noteq> [] \<longrightarrow> \<not> isPendingAssistantMessage (last ms))"
proof -
  from assms obtain parsed where parsed: "load_checked schema (snd (readStoredMessagesValue store)) = Some parsed"
    and ms: "ms = restored_messages t clock parsed"
    by (auto simp: loadMessages_def Let_def split: prod.splits option.splits)
  obtain k where k: "map msg_key ms = drop k (map msg_key parsed)" using restored_bounds(2)[where t = t and clock = clock and parsed = parsed] ms by auto
  note bounds = restored_bounds[where t = t and clock = clock and parsed = parsed, folded ms, unfolded MAX_STORED_MESSAGES_def MAX_LOADED_MESSAGE_CHARS_def MAX_LOADED_MESSAGES_CHARS_def]
  show ?thesis using parsed k bounds by (intro exI[of _ parsed] exI[of _ k]) simp
qed

text \<open>A stored conversation whose answer was under way, read by a schema check that returns it.\<close>

definition sample_stored :: "Message list" where
  "sample_stored = [createUserMessage (js ''u'', js ''u1'') (js ''hello'') (Fin 5), createLoadingAssistantMessage (js ''a'', js ''a1'') (Fin 5)]"

theorem loaded_messages_bounded_witness:
  "\<exists>ms. snd (loadMessages (\<lambda>_. Some sample_stored) Some (\<lambda>_. []) (\<lambda>_. True) (\<lambda>s. s) (\<lambda>_ _. Fin 9) [(STORAGE_MESSAGES, js ''{}'')]) = Some ms
    \<and> ms \<noteq> [] \<and> length ms \<le> 100 \<and> list_all (texts_within (max 40000 (length (interrupted_text (\<lambda>s. s))))) ms
    \<and> \<not> isPendingAssistantMessage (last ms)"
proof -
  have parsed: "JSON_parse [123, 125] = Some (JObj [])" by (simp add: JSON_parse_def skip_ws_def json_ws_def eval_nat_numeral)
  have stored: "load_checked (\<lambda>_. Some sample_stored) (snd (readStoredMessagesValue [(STORAGE_MESSAGES, js ''{}'')])) = Some sample_stored"
    by (simp add: readStoredMessagesValue_def parsed load_checked_def parse_item_def MAX_STORED_MESSAGES_BYTES_def json_truthy_def)
  then have "\<exists>store'. loadMessages (\<lambda>_. Some sample_stored) Some (\<lambda>_. []) (\<lambda>_. True) (\<lambda>s. s) (\<lambda>_ _. Fin 9) [(STORAGE_MESSAGES, js ''{}'')]
      = (store', Some (restored_messages (\<lambda>s. s) (\<lambda>_ _. Fin 9) sample_stored))"
    by (auto simp: loadMessages_def Let_def split: prod.split)
  then obtain store' where load: "loadMessages (\<lambda>_. Some sample_stored) Some (\<lambda>_. []) (\<lambda>_. True) (\<lambda>s. s) (\<lambda>_ _. Fin 9) [(STORAGE_MESSAGES, js ''{}'')]
      = (store', Some (restored_messages (\<lambda>s. s) (\<lambda>_ _. Fin 9) sample_stored))" by (elim exE)
  from loaded_messages_bounded[OF load] stored have "restored_messages (\<lambda>s. s) (\<lambda>_ _. Fin 9) sample_stored \<noteq> []"
    "length (restored_messages (\<lambda>s. s) (\<lambda>_ _. Fin 9) sample_stored) \<le> 100"
    "list_all (texts_within (max 40000 (length (interrupted_text (\<lambda>s. s))))) (restored_messages (\<lambda>s. s) (\<lambda>_ _. Fin 9) sample_stored)"
    "\<not> isPendingAssistantMessage (last (restored_messages (\<lambda>s. s) (\<lambda>_ _. Fin 9) sample_stored))"
    by (auto simp: sample_stored_def)
  with load show ?thesis by (intro exI[of _ "restored_messages (\<lambda>s. s) (\<lambda>_ _. Fin 9) sample_stored"]) simp
qed

end
