(* ===== verification/ChannelModels.thy ===== *)
theory ChannelModels
  imports JsJsonParse
begin

text \<open>
  The model list and the model mapping of a channel: features/channels/lib/model-mapping-validation.ts.  The form keeps
  both as texts, a list with commas and a JSON object from the model a client asks for to the model of the provider.
  \<open>submit_models\<close> is the part of the submit handler of channel-mutate-drawer.tsx that checks the mapping and completes the
  list.  The properties are stated on the object that \<open>JSON.parse\<close> reads, not through the functions of the module.
\<close>

section \<open>Model lists\<close>

definition parseModelsString :: "jsstr \<Rightarrow> jsstr list" where
  "parseModelsString modelsStr = (if modelsStr = [] then [] else filter (\<lambda>m. m \<noteq> []) (map js_trim (js_split 44 modelsStr)))"

definition formatModelsArray :: "jsstr list \<Rightarrow> jsstr" where
  "formatModelsArray models = js_join (js '','') (unique models)"

definition normalizeModelName :: "jsstr \<Rightarrow> jsstr" where
  "normalizeModelName model = js_trim model"

section \<open>Mappings\<close>

text \<open>The entries of an object in the order of \<open>Object.keys\<close>: array indexes by value, then the other keys.\<close>

definition array_index :: "jsstr \<Rightarrow> bool" where
  "array_index k \<longleftrightarrow> all_digits k \<and> nat_text (val_in_base 10 k) = k \<and> val_in_base 10 k < 2 ^ 32 - 1"

definition object_entries :: "(jsstr \<times> json) list \<Rightarrow> (jsstr \<times> json) list" where
  "object_entries m = sort_key (\<lambda>(k, _). val_in_base 10 k) (filter (\<lambda>(k, _). array_index k) m) @ filter (\<lambda>(k, _). \<not> array_index k) m"

text \<open>The object a text holds, None for any other JSON value and for a \<open>SyntaxError\<close>.\<close>

definition parse_object :: "jsstr \<Rightarrow> (jsstr \<times> json) list option" where
  "parse_object t = (case JSON_parse t of Some (JObj m) \<Rightarrow> Some (object_entries m) | _ \<Rightarrow> None)"

definition extractMappingSourceModels :: "jsstr \<Rightarrow> jsstr list" where
  "extractMappingSourceModels modelMapping = (let trimmed = js_trim modelMapping in
     if trimmed = [] then []
     else case parse_object trimmed of
       None \<Rightarrow> []
     | Some m \<Rightarrow> unique (filter (\<lambda>k. k \<noteq> []) (map (\<lambda>(k, _). js_trim k) m)))"

definition extractRedirectModels :: "jsstr \<Rightarrow> jsstr list" where
  "extractRedirectModels modelMapping = (let trimmed = js_trim modelMapping in
     if trimmed = [] then []
     else case parse_object trimmed of
       None \<Rightarrow> []
     | Some m \<Rightarrow> unique (filter (\<lambda>v. v \<noteq> []) (List.map_filter (\<lambda>(_, v). map_option js_trim (json_string (Some v))) m)))"

definition hasModelConfigChanged :: "jsstr list \<Rightarrow> jsstr \<Rightarrow> jsstr list \<Rightarrow> jsstr \<Rightarrow> bool" where
  "hasModelConfigChanged currentModels currentModelMapping initialModels initialModelMapping \<longleftrightarrow>
     (initialModels = [] \<and> initialModelMapping = []) \<or> currentModels \<noteq> initialModels
     \<or> js_trim currentModelMapping \<noteq> js_trim initialModelMapping"

definition findMissingModelsInMapping :: "jsstr \<Rightarrow> jsstr list \<Rightarrow> jsstr list" where
  "findMissingModelsInMapping modelMapping currentModels =
     (if js_trim modelMapping = [] then []
      else case parse_object modelMapping of
        None \<Rightarrow> []
      | Some m \<Rightarrow> unique (filter (\<lambda>k. k \<noteq> [] \<and> k \<notin> set (map normalizeModelName currentModels)) (map (\<lambda>(k, _). normalizeModelName k) m)))"

datatype mapping_error = NotAnObject | NotStrings | NotJson

definition validateModelMappingJson :: "jsstr \<Rightarrow> mapping_error option" where
  "validateModelMappingJson modelMapping =
     (if js_trim modelMapping = [] then None
      else case JSON_parse modelMapping of
        None \<Rightarrow> Some NotJson
      | Some (JObj m) \<Rightarrow> if list_ex (\<lambda>(_, v). json_string (Some v) = None) m then Some NotStrings else None
      | Some _ \<Rightarrow> Some NotAnObject)"

definition findExposedTargetModels :: "jsstr \<Rightarrow> jsstr list \<Rightarrow> jsstr list" where
  "findExposedTargetModels modelMapping currentModels = (let redirectModels = extractRedirectModels modelMapping in
     if redirectModels = [] then []
     else filter (\<lambda>model. normalizeModelName model \<in> set (map normalizeModelName currentModels)) redirectModels)"

record model_categories =
  normalizedCurrentModels :: "jsstr list"
  normalizedRedirectModels :: "jsstr list"
  classificationSet :: "jsstr list"
  redirectOnlySet :: "jsstr list"

definition categorizeModelsWithRedirect :: "jsstr list \<Rightarrow> jsstr list \<Rightarrow> model_categories" where
  "categorizeModelsWithRedirect currentModels redirectModels =
     (let current = unique (filter (\<lambda>m. m \<noteq> []) (map normalizeModelName currentModels));
          redirect = unique (filter (\<lambda>m. m \<noteq> []) (map normalizeModelName redirectModels))
      in \<lparr>normalizedCurrentModels = current, normalizedRedirectModels = redirect, classificationSet = unique (current @ redirect),
          redirectOnlySet = filter (\<lambda>m. m \<notin> set current) redirect\<rparr>)"

text \<open>
  The submit handler: \<open>action\<close> is the answer to the question that is asked when models are missing, and the result is
  an error, nothing, or the model list that is sent.
\<close>

datatype MissingModelsAction = ActionCancel | ActionSubmit | ActionAdd

datatype submit_result = MappingRejected mapping_error | Cancelled | Submitted jsstr

definition submit_models :: "jsstr \<Rightarrow> jsstr \<Rightarrow> jsstr list \<Rightarrow> jsstr \<Rightarrow> MissingModelsAction \<Rightarrow> submit_result" where
  "submit_models models modelMapping initialModels initialModelMapping action =
     (let hasModelMapping = (js_trim modelMapping \<noteq> []) in
      case (if hasModelMapping then validateModelMappingJson modelMapping else None) of
        Some e \<Rightarrow> MappingRejected e
      | None \<Rightarrow>
          let normalizedModels = parseModelsString models;
              missingModels = findMissingModelsInMapping modelMapping normalizedModels;
              shouldPromptMissing = (length missingModels > 0
                \<and> hasModelConfigChanged normalizedModels modelMapping initialModels initialModelMapping)
          in if \<not> hasModelMapping \<or> \<not> shouldPromptMissing then Submitted models
             else case action of
               ActionCancel \<Rightarrow> Cancelled
             | ActionAdd \<Rightarrow> Submitted (formatModelsArray (unique (normalizedModels @ missingModels)))
             | ActionSubmit \<Rightarrow> Submitted models)"

section \<open>Lists and mappings in the form\<close>

text \<open>A model list is read back from the text written for it.\<close>

lemma models_round_trip:
  assumes "list_all (\<lambda>m. m \<noteq> [] \<and> js_trim m = m \<and> 44 \<notin> set m) models"
  shows "parseModelsString (formatModelsArray models) = unique models"
proof (cases "models = []")
  case False
  let ?u = "unique models"
  have good: "list_all (\<lambda>m. m \<noteq> [] \<and> js_trim m = m \<and> 44 \<notin> set m) ?u" using assms by (simp add: list_all_iff)
  then have "js_split 44 (js_join [44] ?u) = ?u" using False by (intro js_split_join) (simp_all add: list_all_iff)
  moreover have "js_join [44] ?u \<noteq> []" using good False by (cases ?u; cases "tl ?u") auto
  moreover have "map js_trim ?u = ?u" "filter (\<lambda>m. m \<noteq> []) ?u = ?u"
    using good by (auto simp: list_all_iff intro: map_idI)
  ultimately show ?thesis by (simp add: parseModelsString_def formatModelsArray_def)
qed (simp add: parseModelsString_def formatModelsArray_def)

text \<open>The models a mapping redirects from and to: the trimmed keys, and the trimmed texts among the values.\<close>

definition mapping_sources :: "(jsstr \<times> json) list \<Rightarrow> jsstr set" where
  "mapping_sources m = {js_trim k |k v. (k, v) \<in> set m} - {[]}"

definition mapping_targets :: "(jsstr \<times> json) list \<Rightarrow> jsstr set" where
  "mapping_targets m = {js_trim t |k t. (k, JStr t) \<in> set m} - {[]}"

lemma set_object_entries [simp]: "set (object_entries m) = set m"
  by (auto simp: object_entries_def)

lemma blank_not_json: "JSON_parse s = Some v \<Longrightarrow> js_trim s \<noteq> []"
proof
  assume parse: "JSON_parse s = Some v" and "js_trim s = []"
  then have "dropWhile is_space s = [] \<or> dropWhile is_space (rev (dropWhile is_space s)) = []" by (simp add: js_trim_def trim_start_def)
  then have blank: "\<forall>c \<in> set s. is_space c"
    by (metis dropWhile_eq_Nil_conv hd_dropWhile last_in_set last_rev rev.simps(1) set_rev rev_rev_ident hd_in_set hd_rev)
  show False
  proof (cases "skip_ws s")
    case Nil
    with parse show False by (simp add: JSON_parse_def)
  next
    case (Cons c cs)
    then have "c \<in> set s" by (metis list.set_intros(1) set_dropWhileD skip_ws_def)
    with blank have "is_space c" by blast
    with parse Cons show False
      by (auto simp: JSON_parse_def scan_json_number_def scan_json_int_def scan_digits_def is_digit_def is_space_def)
  qed
qed

lemma missing_models_exact:
  assumes "JSON_parse mapping = Some (JObj m)"
  shows "set (findMissingModelsInMapping mapping models) = mapping_sources m - js_trim ` set models"
  using assms blank_not_json [OF assms]
  by (auto simp: findMissingModelsInMapping_def parse_object_def mapping_sources_def normalizeModelName_def)

lemma exposed_models_exact:
  assumes "JSON_parse (js_trim mapping) = Some (JObj m)"
  shows "set (findExposedTargetModels mapping models) = mapping_targets m \<inter> js_trim ` set models"
proof -
  have "set (extractRedirectModels mapping) = mapping_targets m"
    using assms blank_not_json [OF assms]
    by (force simp: extractRedirectModels_def parse_object_def mapping_targets_def Let_def map_filter_def json_string_def split: json.splits)
  moreover have "js_trim r = r" if "r \<in> mapping_targets m" for r using that by (auto simp: mapping_targets_def)
  ultimately show ?thesis by (auto simp: findExposedTargetModels_def normalizeModelName_def Let_def)
qed

lemma split_no_sep: "p \<in> set (js_split c s) \<Longrightarrow> c \<notin> set p"
  by (induction s arbitrary: p) (auto split: if_splits list.splits)

lemma set_trim: "set (js_trim s) \<subseteq> set s"
  by (auto simp: js_trim_def trim_start_def dest!: set_dropWhileD)

lemma parsed_models: "list_all (\<lambda>m. m \<noteq> [] \<and> js_trim m = m \<and> 44 \<notin> set m) (parseModelsString s)"
  using set_trim by (fastforce simp: parseModelsString_def list_all_iff dest: split_no_sep)

text \<open>A source with a comma can not be put on the list: the text written for it is read as several models.\<close>

lemma comma_source_never_listed: "44 \<in> set k \<Longrightarrow> k \<notin> set (parseModelsString s)"
  using parsed_models [of s] by (auto simp: list_all_iff)

text \<open>
  C27.  The models of a channel after the missing ones are added.  When the mapping is read as an object with texts as
  values and without commas in its keys, and the configuration has changed, then submitting with the answer \<open>add\<close>
  sends a list whose models are exactly those of the list in the form together with the trimmed, non-empty
  keys of that object.
\<close>

theorem added_models_cover_mapping:
  assumes "JSON_parse mapping = Some (JObj m)" "list_all (\<lambda>(k, v). 44 \<notin> set k \<and> (\<exists>t. v = JStr t)) m"
    and "hasModelConfigChanged (parseModelsString models) mapping initialModels initialModelMapping"
  shows "\<exists>sent. submit_models models mapping initialModels initialModelMapping ActionAdd = Submitted sent
    \<and> set (parseModelsString sent) = set (parseModelsString models) \<union> mapping_sources m"
proof -
  let ?n = "parseModelsString models" and ?f = "findMissingModelsInMapping mapping (parseModelsString models)"
  have trimmed: "js_trim ` set ?n = set ?n" using parsed_models [of models] by (force simp: list_all_iff)
  have missing: "set ?f = mapping_sources m - set ?n" using missing_models_exact [OF assms(1), of ?n] trimmed by simp
  have valid: "validateModelMappingJson mapping = None"
    using assms(1,2) by (auto simp: validateModelMappingJson_def json_string_def list_ex_iff list_all_iff)
  have "44 \<notin> set k" "js_trim k = k" "k \<noteq> []" if "k \<in> mapping_sources m" for k
    using that assms(2) set_trim by (fastforce simp: mapping_sources_def list_all_iff)+
  then have "list_all (\<lambda>m. m \<noteq> [] \<and> js_trim m = m \<and> 44 \<notin> set m) (unique (?n @ ?f))"
    using parsed_models [of models] missing by (auto simp: list_all_iff)
  from models_round_trip [OF this] have readback: "set (parseModelsString (formatModelsArray (unique (?n @ ?f)))) = set ?n \<union> mapping_sources m"
    using missing by auto
  show ?thesis
  proof (cases "?f = []")
    case True
    with missing have "mapping_sources m \<subseteq> set ?n" by auto
    with True valid show ?thesis by (auto simp: submit_models_def Let_def)
  next
    case False
    with valid readback assms(3) blank_not_json [OF assms(1)] show ?thesis by (simp add: submit_models_def Let_def)
  qed
qed

definition sample_mapping :: jsstr where
  "sample_mapping = js ''{\"gpt-4\":\"big\"}''"

theorem added_models_cover_mapping_witness:
  "\<exists>sent. submit_models (js ''big, small'') sample_mapping [] [] ActionAdd = Submitted sent
    \<and> set (parseModelsString sent) = {js ''big'', js ''small'', js ''gpt-4''}"
proof -
  have m: "JSON_parse sample_mapping = Some (JObj [(js ''gpt-4'', JStr (js ''big''))])"
    by (simp add: sample_mapping_def JSON_parse_def skip_ws_def json_ws_def json_str_body.simps put_member_def numeral_eq_Suc)
  have parse: "parseModelsString (js ''big, small'') = [js ''big'', js ''small'']"
    by (simp add: parseModelsString_def js_trim_def trim_start_def is_space_def)
  have changed: "hasModelConfigChanged (parseModelsString (js ''big, small'')) sample_mapping [] []"
    by (simp add: hasModelConfigChanged_def)
  have "mapping_sources [(js ''gpt-4'', JStr (js ''big''))] = {js ''gpt-4''}"
    by (auto simp: mapping_sources_def js_trim_def trim_start_def is_space_def)
  with added_models_cover_mapping [OF m _ changed] parse show ?thesis by auto
qed

end
