(* ===== verification/AdvancedCustom.thy ===== *)
theory AdvancedCustom
  imports JsJson
begin

text \<open>
  Routes of an advanced custom channel: features/channels/lib/advanced-custom.ts.  A configuration lists routes from an
  incoming path to an upstream path, each with a converter, rules for the models it serves and a way to send the key.
  The model starts from the typed configuration; reading it from JSON text and writing it back is not modelled.  The
  browser's URL parser is a parameter that gives the host and the protocol, or None where it throws.
\<close>

section \<open>Data\<close>

record AdvancedCustomRouteAuth =
  au_type :: "jsstr option"
  au_name :: "jsstr option"
  au_value :: "jsstr option"

record AdvancedCustomRoute =
  rt_incoming_path :: "jsstr option"
  rt_upstream_path :: "jsstr option"
  rt_converter :: "jsstr option"
  rt_models :: "jsstr list option"
  rt_auth :: "AdvancedCustomRouteAuth option"

record AdvancedCustomConfig =
  advanced_routes :: "AdvancedCustomRoute list option"

record AdvancedCustomValidationError =
  ve_message :: jsstr
  ve_routeIndex :: "nat option"

text \<open>\<open>value || ''\<close>\<close>

definition or_empty :: "jsstr option \<Rightarrow> jsstr" where
  "or_empty v = (case v of Some s \<Rightarrow> s | None \<Rightarrow> [])"

definition ADVANCED_CUSTOM_MODEL_LIST_PATH :: jsstr where "ADVANCED_CUSTOM_MODEL_LIST_PATH = js ''/v1/models''"
definition ADVANCED_CUSTOM_MODEL_LIST_LABEL :: jsstr where "ADVANCED_CUSTOM_MODEL_LIST_LABEL = js ''OpenAI Models''"
definition ADVANCED_CUSTOM_MODEL_REGEX_PREFIX :: jsstr where "ADVANCED_CUSTOM_MODEL_REGEX_PREFIX = js ''re:''"
definition openAIChatPath :: jsstr where "openAIChatPath = js ''/v1/chat/completions''"
definition openAIResponsesPath :: jsstr where "openAIResponsesPath = js ''/v1/responses''"
definition claudeMessagesPath :: jsstr where "claudeMessagesPath = js ''/v1/messages''"
definition geminiGenerateContentPath :: jsstr where "geminiGenerateContentPath = js ''/v1beta/models/{model}:generateContent''"

text \<open>An option is its value, its label and the label of the closed menu.\<close>

definition ADVANCED_CUSTOM_CONVERTER_OPTIONS :: "(jsstr \<times> jsstr \<times> jsstr) list" where
  "ADVANCED_CUSTOM_CONVERTER_OPTIONS = [
     (js ''none'', js ''Native forwarding'', js ''Native forwarding''),
     (js ''anthropic_messages_to_openai_chat_completions'', js ''Anthropic Messages to OpenAI Chat'', js ''To OpenAI Chat''),
     (js ''openai_chat_completions_to_anthropic_messages'', js ''OpenAI Chat to Anthropic Messages'', js ''To Anthropic Messages''),
     (js ''openai_chat_completions_to_openai_responses'', js ''OpenAI Chat to OpenAI Responses'', js ''To OpenAI Responses''),
     (js ''openai_responses_to_openai_chat_completions'', js ''OpenAI Responses to OpenAI Chat'', js ''To OpenAI Chat''),
     (js ''openai_responses_to_gemini_generate_content'', js ''OpenAI Responses to Gemini Generate Content'', js ''To Gemini Generate Content''),
     (js ''gemini_generate_content_to_openai_chat_completions'', js ''Gemini Generate Content to OpenAI Chat'', js ''To OpenAI Chat''),
     (js ''openai_chat_completions_to_gemini_generate_content'', js ''OpenAI Chat to Gemini Generate Content'', js ''To Gemini Generate Content'')]"

definition ADVANCED_CUSTOM_INCOMING_PATH_OPTIONS :: "(jsstr \<times> jsstr) list" where
  "ADVANCED_CUSTOM_INCOMING_PATH_OPTIONS = [
     (js ''/v1/chat/completions'', js ''OpenAI Chat''),
     (js ''/v1/responses'', js ''OpenAI Responses''),
     (js ''/v1/responses/compact'', js ''OpenAI Responses Compact''),
     (js ''/v1/alpha/search'', js ''OpenAI Alpha Search''),
     (ADVANCED_CUSTOM_MODEL_LIST_PATH, ADVANCED_CUSTOM_MODEL_LIST_LABEL),
     (js ''/v1/embeddings'', js ''OpenAI Embeddings''),
     (js ''/v1/images/generations'', js ''OpenAI Image Generations''),
     (js ''/v1/images/edits'', js ''OpenAI Image Edits''),
     (js ''/v1/completions'', js ''OpenAI Completions''),
     (js ''/v1/audio/speech'', js ''OpenAI Audio Speech''),
     (js ''/v1/audio/transcriptions'', js ''OpenAI Audio Transcriptions''),
     (js ''/v1/audio/translations'', js ''OpenAI Audio Translations''),
     (js ''/v1/rerank'', js ''OpenAI Rerank''),
     (js ''/v1/realtime'', js ''OpenAI Realtime''),
     (js ''/v1/messages'', js ''Claude Messages''),
     (js ''/v1beta/models/{model}:generateContent'', js ''Gemini Generate Content''),
     (js ''/v1beta/models/{model}:embedContent'', js ''Gemini Embed Content''),
     (js ''/v1beta/models/{model}:batchEmbedContents'', js ''Gemini Batch Embed Contents'')]"

definition bearerHeaderAuth :: AdvancedCustomRouteAuth where
  "bearerHeaderAuth = \<lparr>au_type = Some (js ''header''), au_name = Some (js ''Authorization''), au_value = Some (js ''Bearer {api_key}'')\<rparr>"

definition apiKeyHeaderAuth :: AdvancedCustomRouteAuth where
  "apiKeyHeaderAuth = \<lparr>au_type = Some (js ''header''), au_name = Some (js ''x-api-key''), au_value = Some (js ''{api_key}'')\<rparr>"

definition geminiQueryAuth :: AdvancedCustomRouteAuth where
  "geminiQueryAuth = \<lparr>au_type = Some (js ''query''), au_name = Some (js ''key''), au_value = Some (js ''{api_key}'')\<rparr>"

definition plain_route :: "jsstr \<Rightarrow> jsstr \<Rightarrow> jsstr \<Rightarrow> AdvancedCustomRouteAuth option \<Rightarrow> AdvancedCustomRoute" where
  "plain_route incoming upstream converter auth =
     \<lparr>rt_incoming_path = Some incoming, rt_upstream_path = Some upstream, rt_converter = Some converter, rt_models = None, rt_auth = auth\<rparr>"

definition ADVANCED_CUSTOM_TEMPLATE_OPTIONS :: "(jsstr \<times> jsstr \<times> AdvancedCustomConfig) list" where
  "ADVANCED_CUSTOM_TEMPLATE_OPTIONS = (let native = (\<lambda>path auth. plain_route path path (js ''none'') (Some auth)) in [
     (js ''official_openai_chat'', js ''Official OpenAI Chat'', \<lparr>advanced_routes = Some [native (js ''/v1/chat/completions'') bearerHeaderAuth]\<rparr>),
     (js ''official_openai_responses'', js ''Official OpenAI Responses'', \<lparr>advanced_routes = Some [native (js ''/v1/responses'') bearerHeaderAuth]\<rparr>),
     (js ''official_openai_embeddings'', js ''Official OpenAI Embeddings'', \<lparr>advanced_routes = Some [native (js ''/v1/embeddings'') bearerHeaderAuth]\<rparr>),
     (js ''official_openai_images'', js ''Official OpenAI Images'', \<lparr>advanced_routes = Some
        [native (js ''/v1/images/generations'') bearerHeaderAuth, native (js ''/v1/images/edits'') bearerHeaderAuth]\<rparr>),
     (js ''official_claude_messages'', js ''Official Claude Messages'', \<lparr>advanced_routes = Some [native (js ''/v1/messages'') apiKeyHeaderAuth]\<rparr>),
     (js ''official_gemini_native'', js ''Official Gemini Native'', \<lparr>advanced_routes = Some
        [native (js ''/v1beta/models/{model}:generateContent'') geminiQueryAuth,
         native (js ''/v1beta/models/{model}:embedContent'') geminiQueryAuth,
         native (js ''/v1beta/models/{model}:batchEmbedContents'') geminiQueryAuth]\<rparr>),
     (js ''official_gemini_from_openai_chat'', js ''Official Gemini from OpenAI Chat'', \<lparr>advanced_routes = Some
        [plain_route (js ''/v1/chat/completions'') (js ''/v1beta/models/{model}:generateContent'')
           (js ''openai_chat_completions_to_gemini_generate_content'') (Some geminiQueryAuth)]\<rparr>)])"

section \<open>Paths, converters and keys\<close>

definition isAdvancedCustomConverter :: "jsstr \<Rightarrow> bool" where
  "isAdvancedCustomConverter value \<longleftrightarrow> value \<in> fst ` set ADVANCED_CUSTOM_CONVERTER_OPTIONS"

definition isConverterPathAllowed :: "jsstr \<Rightarrow> jsstr \<Rightarrow> bool" where
  "isConverterPathAllowed incomingPath converter =
     (if converter = js ''none'' then True
      else if incomingPath = js ''/v1/alpha/search'' then False
      else if converter = js ''anthropic_messages_to_openai_chat_completions'' then incomingPath = js ''/v1/messages''
      else if converter = js ''openai_chat_completions_to_anthropic_messages'' \<or> converter = js ''openai_chat_completions_to_openai_responses''
        \<or> converter = js ''openai_chat_completions_to_gemini_generate_content'' then incomingPath = js ''/v1/chat/completions''
      else if converter = js ''openai_responses_to_openai_chat_completions'' then incomingPath = js ''/v1/responses''
      else if converter = js ''openai_responses_to_gemini_generate_content'' then incomingPath = js ''/v1/responses''
      else js_includes incomingPath (js '':generateContent'') \<or> js_includes incomingPath (js '':streamGenerateContent''))"

definition getAdvancedCustomIncomingPathOptions :: "jsstr \<Rightarrow> (jsstr \<times> jsstr) list" where
  "getAdvancedCustomIncomingPathOptions converter =
     filter (\<lambda>(value, _). isConverterPathAllowed value converter) ADVANCED_CUSTOM_INCOMING_PATH_OPTIONS"

definition getDefaultAdvancedCustomIncomingPath :: "jsstr \<Rightarrow> jsstr" where
  "getDefaultAdvancedCustomIncomingPath converter = (case getAdvancedCustomIncomingPathOptions converter of
       (value, _) # _ \<Rightarrow> if value \<noteq> [] then value else js ''/v1/chat/completions''
     | [] \<Rightarrow> js ''/v1/chat/completions'')"

definition isAdvancedCustomIncomingPathAllowed :: "jsstr \<Rightarrow> jsstr \<Rightarrow> bool" where
  "isAdvancedCustomIncomingPathAllowed incomingPath converter = isConverterPathAllowed incomingPath converter"

definition getAdvancedCustomConverterOptions :: "jsstr \<Rightarrow> (jsstr \<times> jsstr \<times> jsstr) list" where
  "getAdvancedCustomConverterOptions incomingPath = (let normalizedIncomingPath = js_trim incomingPath in
     filter (\<lambda>(value, _). value = js ''none'' \<or> isConverterPathAllowed normalizedIncomingPath value) ADVANCED_CUSTOM_CONVERTER_OPTIONS)"

definition getAdvancedCustomIncomingPathLabel :: "jsstr \<Rightarrow> jsstr" where
  "getAdvancedCustomIncomingPathLabel value = (case map_of ADVANCED_CUSTOM_INCOMING_PATH_OPTIONS value of
       Some label \<Rightarrow> if label \<noteq> [] then label else value | None \<Rightarrow> value)"

definition getAdvancedCustomNativeAuth :: "jsstr \<Rightarrow> AdvancedCustomRouteAuth" where
  "getAdvancedCustomNativeAuth incomingPath =
     (if incomingPath = claudeMessagesPath then apiKeyHeaderAuth
      else if js_includes incomingPath (js '':generateContent'') \<or> js_includes incomingPath (js '':streamGenerateContent'')
        \<or> js_includes incomingPath (js '':embedContent'') \<or> js_includes incomingPath (js '':batchEmbedContents'') then geminiQueryAuth
      else bearerHeaderAuth)"

definition getAdvancedCustomConverterDefaults :: "jsstr \<Rightarrow> jsstr \<Rightarrow> jsstr \<times> AdvancedCustomRouteAuth" where
  "getAdvancedCustomConverterDefaults converter incomingPath =
     (let normalizedIncomingPath = (if js_trim incomingPath \<noteq> [] then js_trim incomingPath else getDefaultAdvancedCustomIncomingPath converter) in
      if converter = js ''none'' then (normalizedIncomingPath, getAdvancedCustomNativeAuth normalizedIncomingPath)
      else if converter = js ''anthropic_messages_to_openai_chat_completions'' \<or> converter = js ''gemini_generate_content_to_openai_chat_completions''
        \<or> converter = js ''openai_responses_to_openai_chat_completions'' then (openAIChatPath, bearerHeaderAuth)
      else if converter = js ''openai_chat_completions_to_openai_responses'' then (openAIResponsesPath, bearerHeaderAuth)
      else if converter = js ''openai_chat_completions_to_anthropic_messages'' then (claudeMessagesPath, apiKeyHeaderAuth)
      else if converter = js ''openai_chat_completions_to_gemini_generate_content'' \<or> converter = js ''openai_responses_to_gemini_generate_content''
      then (geminiGenerateContentPath, geminiQueryAuth)
      else (if normalizedIncomingPath \<noteq> [] then normalizedIncomingPath else openAIChatPath, getAdvancedCustomNativeAuth normalizedIncomingPath))"

definition getAdvancedCustomUpstreamPathPlaceholder :: "jsstr \<Rightarrow> jsstr option \<Rightarrow> jsstr" where
  "getAdvancedCustomUpstreamPathPlaceholder converter incomingPath = fst (getAdvancedCustomConverterDefaults converter
     (case incomingPath of Some path \<Rightarrow> path | None \<Rightarrow> getDefaultAdvancedCustomIncomingPath converter))"

definition createAdvancedCustomRoute :: AdvancedCustomRoute where
  "createAdvancedCustomRoute = plain_route openAIChatPath openAIChatPath (js ''none'') None"

definition createAdvancedCustomConfig :: AdvancedCustomConfig where
  "createAdvancedCustomConfig = \<lparr>advanced_routes = Some [createAdvancedCustomRoute]\<rparr>"

text \<open>A template is copied through JSON, which keeps its members.\<close>

definition getAdvancedCustomTemplateConfig :: "jsstr \<Rightarrow> AdvancedCustomConfig" where
  "getAdvancedCustomTemplateConfig templateKey =
     snd (snd (case find (\<lambda>option. fst option = templateKey) ADVANCED_CUSTOM_TEMPLATE_OPTIONS of
       Some template \<Rightarrow> template | None \<Rightarrow> hd ADVANCED_CUSTOM_TEMPLATE_OPTIONS))"

definition getAdvancedCustomAuthMode :: "AdvancedCustomRoute \<Rightarrow> jsstr" where
  "getAdvancedCustomAuthMode route = (let type = or_empty (Option.bind (rt_auth route) au_type) in if type \<noteq> [] then type else js ''default'')"

definition or_default :: "jsstr option \<Rightarrow> jsstr \<Rightarrow> jsstr" where
  "or_default v d = (if or_empty v \<noteq> [] then or_empty v else d)"

definition buildAdvancedCustomAuth :: "jsstr \<Rightarrow> AdvancedCustomRouteAuth option \<Rightarrow> AdvancedCustomRouteAuth option" where
  "buildAdvancedCustomAuth mode previousAuth =
     (let name = Option.bind previousAuth au_name; value = Option.bind previousAuth au_value in
      if mode = js ''default'' then None
      else if mode = js ''none'' then Some \<lparr>au_type = Some (js ''none''), au_name = None, au_value = None\<rparr>
      else if mode = js ''header'' then Some \<lparr>au_type = Some (js ''header''), au_name = Some (or_default name (js ''Authorization'')),
        au_value = Some (or_default value (js ''Bearer {api_key}''))\<rparr>
      else Some \<lparr>au_type = Some (js ''query''), au_name = Some (or_default name (js ''api_key'')), au_value = Some (or_default value (js ''{api_key}''))\<rparr>)"

section \<open>Normal form\<close>

definition getAdvancedCustomRouteUpstreamPath :: "AdvancedCustomRoute \<Rightarrow> jsstr" where
  "getAdvancedCustomRouteUpstreamPath route = js_trim (or_empty (rt_upstream_path route))"

definition normalizeAdvancedCustomRouteModels :: "jsstr list option \<Rightarrow> jsstr list" where
  "normalizeAdvancedCustomRouteModels models = (case models of
       None \<Rightarrow> [] | Some ms \<Rightarrow> filter (\<lambda>m. m \<noteq> []) (map js_trim ms))"

definition normalizeAdvancedCustomRoute :: "AdvancedCustomRoute \<Rightarrow> AdvancedCustomRoute" where
  "normalizeAdvancedCustomRoute route = (let models = normalizeAdvancedCustomRouteModels (rt_models route) in
     \<lparr>rt_incoming_path = Some (or_empty (rt_incoming_path route)),
      rt_upstream_path = Some (getAdvancedCustomRouteUpstreamPath route),
      rt_converter = Some (or_default (rt_converter route) (js ''none'')),
      rt_models = (if length models > 0 then Some models else None),
      rt_auth = map_option (\<lambda>auth. \<lparr>au_type = au_type auth, au_name = Some (or_empty (au_name auth)),
        au_value = Some (or_empty (au_value auth))\<rparr>) (rt_auth route)\<rparr>)"

definition normalizeAdvancedCustomConfig :: "AdvancedCustomConfig \<Rightarrow> AdvancedCustomConfig" where
  "normalizeAdvancedCustomConfig config = \<lparr>advanced_routes = Some (case advanced_routes config of
       Some routes \<Rightarrow> map normalizeAdvancedCustomRoute routes | None \<Rightarrow> [])\<rparr>"

definition config_routes :: "AdvancedCustomConfig \<Rightarrow> AdvancedCustomRoute list" where
  "config_routes config = (case advanced_routes config of Some routes \<Rightarrow> routes | None \<Rightarrow> [])"

definition parseAdvancedCustomRouteModels :: "jsstr \<Rightarrow> jsstr list" where
  "parseAdvancedCustomRouteModels value = unique (filter (\<lambda>m. m \<noteq> []) (map js_trim (js_split 44 value)))"

datatype AdvancedCustomModelRuleKind = Exact | Regex

definition getAdvancedCustomModelRuleKind :: "jsstr \<Rightarrow> AdvancedCustomModelRuleKind" where
  "getAdvancedCustomModelRuleKind modelRule = (if starts_with modelRule ADVANCED_CUSTOM_MODEL_REGEX_PREFIX then Regex else Exact)"

definition getAdvancedCustomRegexModelPattern :: "jsstr \<Rightarrow> jsstr" where
  "getAdvancedCustomRegexModelPattern modelRule = drop (length ADVANCED_CUSTOM_MODEL_REGEX_PREFIX) modelRule"

section \<open>Validation\<close>

text \<open>\<open>new URL(value)\<close>: the host and the protocol, None where it throws.\<close>

type_synonym url_parser = "jsstr \<Rightarrow> (jsstr \<times> jsstr) option"

definition isFullHttpURLOrAbsolutePath :: "url_parser \<Rightarrow> jsstr \<Rightarrow> bool" where
  "isFullHttpURLOrAbsolutePath new_URL value =
     (if starts_with value (js ''/'') then \<not> starts_with value (js ''//'')
      else case new_URL value of
        Some (host, protocol) \<Rightarrow> host \<noteq> [] \<and> (protocol = js ''http:'' \<or> protocol = js ''https:'')
      | None \<Rightarrow> False)"

definition validateRouteAuth :: "AdvancedCustomRouteAuth option \<Rightarrow> jsstr option" where
  "validateRouteAuth auth = (case auth of None \<Rightarrow> None
   | Some a \<Rightarrow>
       if au_type a = Some (js ''none'') then None
       else if au_type a \<noteq> Some (js ''header'') \<and> au_type a \<noteq> Some (js ''query'') then Some (js ''Auth type is invalid'')
       else if js_trim (or_empty (au_name a)) = [] then Some (js ''Auth name is required'')
       else if js_trim (or_empty (au_value a)) = [] then Some (js ''Auth value is required'')
       else None)"

record path_state =
  catchAllIndex :: "nat option"
  path_models :: "jsstr \<rightharpoonup> nat"

type_synonym path_states = "jsstr \<rightharpoonup> path_state"

definition route_error :: "nat \<Rightarrow> string \<Rightarrow> AdvancedCustomValidationError" where
  "route_error index message = \<lparr>ve_message = js message, ve_routeIndex = Some index\<rparr>"

text \<open>The loop over the rules of one route: \<open>seenInRoute\<close>, then the rules of the path so far.\<close>

fun route_models_loop :: "nat \<Rightarrow> jsstr set \<Rightarrow> (jsstr \<rightharpoonup> nat) \<Rightarrow> jsstr list \<Rightarrow> (AdvancedCustomValidationError, jsstr \<rightharpoonup> nat) result" where
  "route_models_loop routeIndex seenInRoute models [] = Inr models"
| "route_models_loop routeIndex seenInRoute models (model # rest) =
     (if getAdvancedCustomModelRuleKind model = Regex \<and> getAdvancedCustomRegexModelPattern model = []
      then Inl (route_error routeIndex ''Model regex cannot be empty'')
      else if model \<in> seenInRoute then Inl (route_error routeIndex ''Duplicate model in route models'')
      else if models model \<noteq> None then Inl (route_error routeIndex ''Route models must be unique for the same incoming path'')
      else route_models_loop routeIndex (insert model seenInRoute) (models(model \<mapsto> routeIndex)) rest)"

definition path_state_of :: "path_states \<Rightarrow> jsstr \<Rightarrow> path_state" where
  "path_state_of routeModelsByPath path = (case routeModelsByPath path of
       Some state \<Rightarrow> state | None \<Rightarrow> \<lparr>catchAllIndex = None, path_models = Map.empty\<rparr>)"

definition validateAdvancedCustomRouteModels ::
  "nat \<Rightarrow> jsstr \<Rightarrow> jsstr list \<Rightarrow> path_states \<Rightarrow> (AdvancedCustomValidationError, path_states) result" where
  "validateAdvancedCustomRouteModels routeIndex incomingPath models routeModelsByPath =
     (let state = path_state_of routeModelsByPath incomingPath in
      if length models = 0 then
        (if catchAllIndex state \<noteq> None then Inl (route_error routeIndex ''Only one catch-all route is allowed for the same incoming path'')
         else Inr (routeModelsByPath(incomingPath \<mapsto> state\<lparr>catchAllIndex := Some routeIndex\<rparr>)))
      else if catchAllIndex state \<noteq> None then Inl (route_error routeIndex ''Catch-all route must be last for the same incoming path'')
      else rbind (route_models_loop routeIndex {} (path_models state) models)
             (\<lambda>ms. Inr (routeModelsByPath(incomingPath \<mapsto> state\<lparr>path_models := ms\<rparr>))))"

fun validate_routes :: "url_parser \<Rightarrow> nat \<Rightarrow> path_states \<Rightarrow> nat option \<Rightarrow> AdvancedCustomRoute list \<Rightarrow> AdvancedCustomValidationError option" where
  "validate_routes new_URL index routeModelsByPath modelListRouteIndex [] = None"
| "validate_routes new_URL index routeModelsByPath modelListRouteIndex (route # rest) =
     (let incomingPath = js_trim (or_empty (rt_incoming_path route));
          upstreamPath = getAdvancedCustomRouteUpstreamPath route;
          converter = or_default (rt_converter route) (js ''none'');
          routeModels = normalizeAdvancedCustomRouteModels (rt_models route);
          modelList = (incomingPath = ADVANCED_CUSTOM_MODEL_LIST_PATH);
          fail = (\<lambda>message. Some (route_error index message)) in
      if incomingPath = [] then fail ''Incoming path is required''
      else if \<not> starts_with incomingPath (js ''/'') then fail ''Incoming path must start with /''
      else if js_includes incomingPath (js ''?'') then fail ''Incoming path must not include query''
      else if modelList \<and> modelListRouteIndex \<noteq> None then fail ''Only one OpenAI Models route is allowed''
      else if modelList \<and> length routeModels > 0 then fail ''OpenAI Models route does not support client model rules''
      else if modelList \<and> converter \<noteq> js ''none'' then fail ''OpenAI Models route must use native forwarding''
      else if modelList \<and> js_includes upstreamPath (js ''{model}'') then fail ''OpenAI Models upstream path must not contain {model}''
      else case validateAdvancedCustomRouteModels index incomingPath routeModels routeModelsByPath of
        Inl e \<Rightarrow> Some e
      | Inr routeModelsByPath' \<Rightarrow>
          if upstreamPath = [] then fail ''Upstream path is required''
          else if \<not> isFullHttpURLOrAbsolutePath new_URL upstreamPath then fail ''Upstream path must be a full URL or a path starting with /''
          else if \<not> isAdvancedCustomConverter converter then fail ''Converter is not registered''
          else if \<not> isConverterPathAllowed incomingPath converter then fail ''Converter does not match incoming path''
          else case validateRouteAuth (rt_auth route) of
            Some message \<Rightarrow> Some \<lparr>ve_message = message, ve_routeIndex = Some index\<rparr>
          | None \<Rightarrow> validate_routes new_URL (index + 1) routeModelsByPath'
                (if modelList then Some index else modelListRouteIndex) rest)"

definition validateAdvancedCustomConfig :: "url_parser \<Rightarrow> AdvancedCustomConfig option \<Rightarrow> AdvancedCustomValidationError option" where
  "validateAdvancedCustomConfig new_URL config = (case config of
       None \<Rightarrow> Some \<lparr>ve_message = js ''Advanced custom configuration is required'', ve_routeIndex = None\<rparr>
     | Some c \<Rightarrow> let routes = config_routes (normalizeAdvancedCustomConfig c) in
         if length routes = 0 then Some \<lparr>ve_message = js ''Advanced custom configuration requires at least one route'', ve_routeIndex = None\<rparr>
         else validate_routes new_URL 0 Map.empty None routes)"

definition hasValidAdvancedCustomModelListRoute :: "url_parser \<Rightarrow> AdvancedCustomConfig option \<Rightarrow> bool" where
  "hasValidAdvancedCustomModelListRoute new_URL config = (case config of None \<Rightarrow> False
   | Some c \<Rightarrow> validateAdvancedCustomConfig new_URL config = None
       \<and> list_ex (\<lambda>route. map_option js_trim (rt_incoming_path route) = Some ADVANCED_CUSTOM_MODEL_LIST_PATH)
           (config_routes (normalizeAdvancedCustomConfig c)))"

definition advancedCustomConfigUsesRelativeUpstreamPath :: "AdvancedCustomConfig option \<Rightarrow> bool" where
  "advancedCustomConfigUsesRelativeUpstreamPath config = (case config of None \<Rightarrow> False
   | Some c \<Rightarrow> list_ex (\<lambda>route. starts_with (getAdvancedCustomRouteUpstreamPath route) (js ''/''))
       (config_routes (normalizeAdvancedCustomConfig c)))"

section \<open>Summary of a channel\<close>

text \<open>
  The table of labels is an object literal, so a path that names a member of \<open>Object.prototype\<close> finds that member:
  \<open>Inherited\<close> stands for it.
\<close>

datatype summary_label = Label jsstr | Inherited jsstr

definition ADVANCED_CUSTOM_ROUTE_SUMMARY_LABELS :: "(jsstr \<times> jsstr) list" where
  "ADVANCED_CUSTOM_ROUTE_SUMMARY_LABELS =
     [(js ''/v1/chat/completions'', js ''OpenAI Chat''), (ADVANCED_CUSTOM_MODEL_LIST_PATH, ADVANCED_CUSTOM_MODEL_LIST_LABEL)]"

definition getAdvancedCustomRouteSummaryLabel :: "AdvancedCustomRoute \<Rightarrow> summary_label option" where
  "getAdvancedCustomRouteSummaryLabel route = (let incomingPath = js_trim (or_empty (rt_incoming_path route)) in
     if incomingPath = [] then None
     else case map_of ADVANCED_CUSTOM_ROUTE_SUMMARY_LABELS incomingPath of
       Some label \<Rightarrow> Some (Label label)
     | None \<Rightarrow> if incomingPath \<in> set object_prototype_members then Some (Inherited incomingPath)
         else Some (Label (getAdvancedCustomIncomingPathLabel incomingPath)))"

record AdvancedCustomStats =
  routeCount :: nat
  stats_valid :: bool
  routeTypeLabels :: "summary_label list"

fun route_type_labels :: "summary_label list \<Rightarrow> AdvancedCustomRoute list \<Rightarrow> summary_label list" where
  "route_type_labels labels [] = labels"
| "route_type_labels labels (route # rest) =
     (case getAdvancedCustomRouteSummaryLabel route of
        None \<Rightarrow> route_type_labels labels rest
      | Some label \<Rightarrow> if label \<in> set labels then route_type_labels labels rest
          else route_type_labels (labels @ [label]) rest)"

text \<open>\<open>getAdvancedCustomStats\<close> from the configuration its text was read as, None where it could not be read.\<close>

definition getAdvancedCustomStats :: "url_parser \<Rightarrow> AdvancedCustomConfig option \<Rightarrow> AdvancedCustomStats" where
  "getAdvancedCustomStats new_URL config = (case config of
       None \<Rightarrow> \<lparr>routeCount = 0, stats_valid = False, routeTypeLabels = []\<rparr>
     | Some c \<Rightarrow> let normalized = normalizeAdvancedCustomConfig c; routes = config_routes normalized in
         \<lparr>routeCount = length routes, stats_valid = (validateAdvancedCustomConfig new_URL (Some normalized) = None),
          routeTypeLabels = route_type_labels [] routes\<rparr>)"

section \<open>What a valid configuration is\<close>

definition route_path :: "AdvancedCustomRoute \<Rightarrow> jsstr" where
  "route_path r = js_trim (or_empty (rt_incoming_path r))"

definition route_rules :: "AdvancedCustomRoute \<Rightarrow> jsstr list" where
  "route_rules r = normalizeAdvancedCustomRouteModels (rt_models r)"

definition auth_ok :: "AdvancedCustomRouteAuth option \<Rightarrow> bool" where
  "auth_ok auth \<longleftrightarrow> (case auth of None \<Rightarrow> True | Some a \<Rightarrow> au_type a = Some (js ''none'')
     \<or> au_type a \<in> {Some (js ''header''), Some (js ''query'')} \<and> js_trim (or_empty (au_name a)) \<noteq> [] \<and> js_trim (or_empty (au_value a)) \<noteq> [])"

definition valid_route :: "url_parser \<Rightarrow> AdvancedCustomRoute \<Rightarrow> bool" where
  "valid_route new_URL r \<longleftrightarrow> (let path = route_path r; upstream = getAdvancedCustomRouteUpstreamPath r; c = or_default (rt_converter r) (js ''none'') in
     path \<noteq> [] \<and> hd path = 47 \<and> 63 \<notin> set path
     \<and> (path = ADVANCED_CUSTOM_MODEL_LIST_PATH \<longrightarrow> route_rules r = [] \<and> c = js ''none'' \<and> \<not> js_includes upstream (js ''{model}''))
     \<and> js ''re:'' \<notin> set (route_rules r) \<and> distinct (route_rules r)
     \<and> upstream \<noteq> [] \<and> isFullHttpURLOrAbsolutePath new_URL upstream
     \<and> isAdvancedCustomConverter c \<and> isConverterPathAllowed path c \<and> auth_ok (rt_auth r))"

text \<open>Of two routes for one path the earlier has rules, and no rule is in both.\<close>

definition routes_apart :: "AdvancedCustomRoute \<Rightarrow> AdvancedCustomRoute \<Rightarrow> bool" where
  "routes_apart r r' \<longleftrightarrow> (route_path r = route_path r' \<longrightarrow> route_rules r \<noteq> [] \<and> set (route_rules r) \<inter> set (route_rules r') = {})"

definition valid_config :: "url_parser \<Rightarrow> AdvancedCustomConfig \<Rightarrow> bool" where
  "valid_config new_URL config \<longleftrightarrow> config_routes config \<noteq> [] \<and> list_all (valid_route new_URL) (config_routes config)
     \<and> sorted_wrt routes_apart (config_routes config)"

section \<open>The validator accepts exactly the valid configurations\<close>

lemma starts_with_one: "starts_with s [c] \<longleftrightarrow> s \<noteq> [] \<and> hd s = c"
  by (cases s) auto

lemma js_includes_one: "js_includes s [c] \<longleftrightarrow> c \<in> set s"
  by (induction s) auto

lemma empty_regex_rule:
  "getAdvancedCustomModelRuleKind m = Regex \<and> getAdvancedCustomRegexModelPattern m = [] \<longleftrightarrow> m = js ''re:''"
  by (auto simp: getAdvancedCustomModelRuleKind_def getAdvancedCustomRegexModelPattern_def ADVANCED_CUSTOM_MODEL_REGEX_PREFIX_def
      starts_with_iff simp del: js_Cons js_Nil)

lemma validateRouteAuth_None: "validateRouteAuth auth = None \<longleftrightarrow> auth_ok auth"
  by (cases auth) (auto simp: validateRouteAuth_def auth_ok_def simp del: js_Cons js_Nil)

definition catch_all :: "path_states \<Rightarrow> jsstr \<Rightarrow> bool" where
  "catch_all st p \<longleftrightarrow> catchAllIndex (path_state_of st p) \<noteq> None"

definition used_rules :: "path_states \<Rightarrow> jsstr \<Rightarrow> jsstr set" where
  "used_rules st p = dom (path_models (path_state_of st p))"

lemma route_models_loop_ok:
  "(\<exists>ms'. route_models_loop i seen ms rules = Inr ms') \<longleftrightarrow>
     js ''re:'' \<notin> set rules \<and> distinct rules \<and> set rules \<inter> (seen \<union> dom ms) = {}"
proof (induction rules arbitrary: seen ms)
  case (Cons m rules)
  have "m \<in> dom ms \<longleftrightarrow> ms m \<noteq> None" by (simp add: domIff)
  then show ?case by (simp add: Cons.IH empty_regex_rule del: js_Cons js_Nil fun_upd_apply not_None_eq) blast
qed simp

lemma route_models_loop_dom: "route_models_loop i seen ms rules = Inr ms' \<Longrightarrow> dom ms' = dom ms \<union> set rules"
  by (induction i seen ms rules rule: route_models_loop.induct) (auto split: if_splits)

lemma route_models_ok:
  "(\<exists>st'. validateAdvancedCustomRouteModels i p rules st = Inr st') \<longleftrightarrow>
     js ''re:'' \<notin> set rules \<and> distinct rules \<and> \<not> catch_all st p \<and> set rules \<inter> used_rules st p = {}"
  using route_models_loop_ok [of i "{}" "path_models (path_state_of st p)" rules]
  by (auto simp: validateAdvancedCustomRouteModels_def catch_all_def used_rules_def Let_def rbind_eq_Inr simp del: js_Cons js_Nil)

lemma route_models_state:
  assumes "validateAdvancedCustomRouteModels i p rules st = Inr st'"
  shows "catch_all st' q \<longleftrightarrow> catch_all st q \<or> q = p \<and> rules = []"
    and "used_rules st' q = used_rules st q \<union> (if q = p then set rules else {})"
proof -
  obtain s where st': "st' = st(p \<mapsto> s)"
    and c: "catchAllIndex s \<noteq> None \<longleftrightarrow> catchAllIndex (path_state_of st p) \<noteq> None \<or> rules = []"
    and m: "dom (path_models s) = dom (path_models (path_state_of st p)) \<union> set rules"
    using assms by (fastforce simp: validateAdvancedCustomRouteModels_def Let_def rbind_eq_Inr dest: route_models_loop_dom split: if_splits)
  have s: "path_state_of st' q = (if q = p then s else path_state_of st q)" by (simp add: st' path_state_of_def)
  show "catch_all st' q \<longleftrightarrow> catch_all st q \<or> q = p \<and> rules = []" using c by (simp add: catch_all_def s)
  show "used_rules st' q = used_rules st q \<union> (if q = p then set rules else {})" using m by (simp add: used_rules_def s)
qed

lemma slash_start: "starts_with s (js ''/'') \<longleftrightarrow> s \<noteq> [] \<and> hd s = 47"
  using starts_with_one [of s 47] by simp

lemma query_mark: "js_includes s (js ''?'') \<longleftrightarrow> 63 \<in> set s"
  using js_includes_one [of s 63] by simp

text \<open>One round of the loop: the tests of a route hold, and the loop goes on with its rules recorded.\<close>

lemma validate_routes_Cons:
  "validate_routes url i st l (r # rs) = None \<longleftrightarrow>
     valid_route url r \<and> (route_path r = ADVANCED_CUSTOM_MODEL_LIST_PATH \<longrightarrow> l = None)
     \<and> (\<exists>st'. validateAdvancedCustomRouteModels i (route_path r) (route_rules r) st = Inr st'
         \<and> validate_routes url (i + 1) st' (if route_path r = ADVANCED_CUSTOM_MODEL_LIST_PATH then Some i else l) rs = None)"
proof (cases "validateAdvancedCustomRouteModels i (route_path r) (route_rules r) st")
  case (Inl e)
  then show ?thesis by (simp add: Let_def route_path_def route_rules_def del: js_Cons js_Nil)
next
  case (Inr st')
  then have "js ''re:'' \<notin> set (route_rules r) \<and> distinct (route_rules r)" using route_models_ok by blast
  with Inr show ?thesis
    by (simp add: valid_route_def Let_def validateRouteAuth_None [symmetric] slash_start query_mark
        route_path_def [symmetric] route_rules_def [symmetric] del: js_Cons js_Nil split: option.split)
qed

lemma validate_routes_None:
  "validate_routes url i st l rs = None \<longleftrightarrow> list_all (valid_route url) rs \<and> sorted_wrt routes_apart rs
     \<and> (\<forall>r \<in> set rs. \<not> catch_all st (route_path r) \<and> set (route_rules r) \<inter> used_rules st (route_path r) = {}
          \<and> (route_path r = ADVANCED_CUSTOM_MODEL_LIST_PATH \<longrightarrow> l = None))"
proof (induction rs arbitrary: i st l)
  case (Cons r rs)
  let ?free = "\<lambda>st l r. \<not> catch_all st (route_path r) \<and> set (route_rules r) \<inter> used_rules st (route_path r) = {}
      \<and> (route_path r = ADVANCED_CUSTOM_MODEL_LIST_PATH \<longrightarrow> l = None)"
  let ?l = "if route_path r = ADVANCED_CUSTOM_MODEL_LIST_PATH then Some i else l"
  note ok = route_models_ok [of i "route_path r" "route_rules r" st]
  show ?case
  proof (cases "valid_route url r \<and> ?free st l r")
    case True
    then have v: "valid_route url r" and f: "?free st l r" by simp_all
    have rules: "js ''re:'' \<notin> set (route_rules r)" "distinct (route_rules r)"
      and ml: "route_path r = ADVANCED_CUSTOM_MODEL_LIST_PATH \<longrightarrow> route_rules r = []"
      using v by (simp_all add: valid_route_def Let_def del: js_Cons js_Nil)
    obtain st' where st': "validateAdvancedCustomRouteModels i (route_path r) (route_rules r) st = Inr st'"
      using iffD2 [OF ok] rules f by metis
    have "?free st' ?l r' \<longleftrightarrow> routes_apart r r' \<and> ?free st l r'" for r'
      using ml f unfolding route_models_state [OF st'] routes_apart_def by (cases "route_path r' = route_path r") auto
    then have "list_all (valid_route url) rs \<and> sorted_wrt routes_apart rs \<and> (\<forall>r' \<in> set rs. ?free st' ?l r')
        \<longleftrightarrow> list_all (valid_route url) rs \<and> sorted_wrt routes_apart (r # rs) \<and> (\<forall>r' \<in> set rs. ?free st l r')"
      by (simp only: ball_conj_distrib sorted_wrt.simps) blast
    then show ?thesis using v f unfolding validate_routes_Cons st' by (simp only: sum.inject simp_thms Cons.IH list.pred_inject list.set ball_simps) blast
  next
    case False
    then have "\<not> (valid_route url r \<and> (route_path r = ADVANCED_CUSTOM_MODEL_LIST_PATH \<longrightarrow> l = None)
        \<and> (\<exists>st'. validateAdvancedCustomRouteModels i (route_path r) (route_rules r) st = Inr st'))" unfolding ok by blast
    with False show ?thesis unfolding validate_routes_Cons by (simp only: list.pred_inject list.set ball_simps) blast
  qed
qed simp

lemma or_simps [simp]: "or_empty (Some s) = s" "or_default (Some (or_default v (js ''none''))) (js ''none'') = or_default v (js ''none'')"
  by (simp_all add: or_empty_def or_default_def)

lemma normal_rules [simp]:
  "normalizeAdvancedCustomRouteModels (Some (normalizeAdvancedCustomRouteModels ms)) = normalizeAdvancedCustomRouteModels ms"
  "normalizeAdvancedCustomRouteModels None = []"
  by (auto simp: normalizeAdvancedCustomRouteModels_def filter_map o_def split: option.split)

lemma normal_route [simp]:
  "route_path (normalizeAdvancedCustomRoute r) = route_path r"
  "route_rules (normalizeAdvancedCustomRoute r) = route_rules r"
  "getAdvancedCustomRouteUpstreamPath (normalizeAdvancedCustomRoute r) = getAdvancedCustomRouteUpstreamPath r"
  "or_default (rt_converter (normalizeAdvancedCustomRoute r)) (js ''none'') = or_default (rt_converter r) (js ''none'')"
  "auth_ok (rt_auth (normalizeAdvancedCustomRoute r)) = auth_ok (rt_auth r)"
  by (simp_all add: normalizeAdvancedCustomRoute_def route_path_def route_rules_def getAdvancedCustomRouteUpstreamPath_def
      auth_ok_def Let_def option.case_eq_if option.map_sel del: js_Cons js_Nil)

lemma normal_valid_route [simp]: "valid_route url (normalizeAdvancedCustomRoute r) = valid_route url r"
  by (simp add: valid_route_def del: js_Cons js_Nil)

lemma normal_routes_apart [simp]:
  "routes_apart (normalizeAdvancedCustomRoute r) (normalizeAdvancedCustomRoute r') = routes_apart r r'"
  by (simp add: routes_apart_def)

text \<open>Normalising twice changes nothing.\<close>

lemma normalize_idempotent: "normalizeAdvancedCustomConfig (normalizeAdvancedCustomConfig c) = normalizeAdvancedCustomConfig c"
  by (auto simp: normalizeAdvancedCustomConfig_def normalizeAdvancedCustomRoute_def getAdvancedCustomRouteUpstreamPath_def Let_def
      option.map_comp o_def split: option.split simp del: js_Cons js_Nil)

text \<open>The configurations the editor offers are valid: the first one and every template.\<close>

lemma plain_route_valid:
  assumes "js_trim path = path" "path \<noteq> []" "hd path = 47" "63 \<notin> set path" "path \<noteq> ADVANCED_CUSTOM_MODEL_LIST_PATH"
    and "js_trim upstream = upstream" "upstream \<noteq> []" "isFullHttpURLOrAbsolutePath url upstream"
    and "c \<noteq> []" "isAdvancedCustomConverter c" "isConverterPathAllowed path c" "auth_ok auth"
  shows "valid_route url (plain_route path upstream c auth)"
  using assms by (simp add: valid_route_def plain_route_def route_path_def route_rules_def getAdvancedCustomRouteUpstreamPath_def
      or_default_def Let_def del: js_Cons js_Nil)

lemma plain_route_path: "route_path (plain_route path upstream c auth) = js_trim path"
  by (simp add: route_path_def plain_route_def)

lemma offered_auth_ok: "auth_ok (Some bearerHeaderAuth)" "auth_ok (Some apiKeyHeaderAuth)" "auth_ok (Some geminiQueryAuth)" "auth_ok None"
  by (simp_all add: auth_ok_def bearerHeaderAuth_def apiKeyHeaderAuth_def geminiQueryAuth_def js_trim_def trim_start_def is_space_def)

lemma offered_configs_valid:
  "valid_config url createAdvancedCustomConfig"
  "list_all (\<lambda>(_, _, c). valid_config url c) ADVANCED_CUSTOM_TEMPLATE_OPTIONS"
  by (simp_all add: createAdvancedCustomConfig_def createAdvancedCustomRoute_def ADVANCED_CUSTOM_TEMPLATE_OPTIONS_def Let_def
      plain_route_valid plain_route_path offered_auth_ok ADVANCED_CUSTOM_MODEL_LIST_PATH_def openAIChatPath_def
      isFullHttpURLOrAbsolutePath_def isAdvancedCustomConverter_def ADVANCED_CUSTOM_CONVERTER_OPTIONS_def isConverterPathAllowed_def
      js_trim_def trim_start_def is_space_def valid_config_def config_routes_def routes_apart_def)

text \<open>The summary of a route for the path \<open>constructor\<close> is a function, not a text.\<close>

lemma inherited_label:
  "getAdvancedCustomRouteSummaryLabel (plain_route (js ''constructor'') upstream c auth) = Some (Inherited (js ''constructor''))"
  by (simp add: getAdvancedCustomRouteSummaryLabel_def plain_route_def ADVANCED_CUSTOM_ROUTE_SUMMARY_LABELS_def
      ADVANCED_CUSTOM_MODEL_LIST_PATH_def object_prototype_members_def js_trim_def trim_start_def is_space_def Let_def)

text \<open>
  C15.  The validator of the editor accepts exactly the configurations in which there is a route, every route is well
  formed on its own (paths, converter, model rules, key), and of two routes for one incoming path the earlier has model
  rules and none of them is a rule of the later, so a route for all models is the last of its path.  It holds for every
  URL parser.
\<close>

theorem validate_exactly_valid:
  "validateAdvancedCustomConfig new_URL (Some config) = None \<longleftrightarrow> valid_config new_URL config"
proof -
  have "config_routes (normalizeAdvancedCustomConfig config) = map normalizeAdvancedCustomRoute (config_routes config)"
    by (simp add: normalizeAdvancedCustomConfig_def config_routes_def split: option.split)
  then show ?thesis
    by (simp add: validateAdvancedCustomConfig_def valid_config_def validate_routes_None list_all_iff sorted_wrt_map
        catch_all_def used_rules_def path_state_of_def)
qed

end
